(* ===== verification/Status_Machine.thy ===== *)
theory Status_Machine
  imports Prelude
begin

text \<open>
  The interface every lifecycle table of the domain package offers (task, run, approval, goal,
  plan, memory): a list of rows \<open>{from, to, trigger}\<close>, a test \<open>can\<close>, an application
  \<open>app\<close> that either returns the target or fails, and, for most machines, a set of terminal
  statuses. The laws say what the tables promise; the lemmas are proved once for all machines.
\<close>

record ('s, 't) transition =
  tr_from :: 's
  tr_to :: 's
  tr_trigger :: 't

text \<open>\<open>TABLE.find((t) => t.from === from && t.trigger === trigger)\<close>.\<close>

definition find_transition ::
  "('s, 't, 'm) transition_scheme list \<Rightarrow> 's \<Rightarrow> 't \<Rightarrow> ('s, 't, 'm) transition_scheme option" where
  "find_transition rows s t = find (\<lambda>r. tr_from r = s \<and> tr_trigger r = t) rows"

definition has_transition :: "('s, 't, 'm) transition_scheme list \<Rightarrow> 's \<Rightarrow> 't \<Rightarrow> bool" where
  "has_transition rows s t = list_ex (\<lambda>r. tr_from r = s \<and> tr_trigger r = t) rows"

lemma has_transition_iff_find: "has_transition rows s t \<longleftrightarrow> find_transition rows s t \<noteq> None"
  by (simp add: has_transition_def find_transition_def list_ex_iff_find)

lemma find_transition_row:
  "find_transition rows s t = Some r \<Longrightarrow> r \<in> set rows \<and> tr_from r = s \<and> tr_trigger r = t"
  by (auto simp: find_transition_def dest: find_Some_D)

locale status_machine =
  fixes rows :: "('s, 't, 'm) transition_scheme list"
    and can :: "'s \<Rightarrow> 't \<Rightarrow> bool"
    and app :: "'s \<Rightarrow> 't \<Rightarrow> 'e + 's"
  assumes can_iff: "can s t \<longleftrightarrow> (\<exists>r \<in> set rows. tr_from r = s \<and> tr_trigger r = t)"
    and app_row: "app s t = Inr s' \<Longrightarrow> \<exists>r \<in> set rows. tr_from r = s \<and> tr_trigger r = t \<and> tr_to r = s'"
    and app_fails: "app s t = Inl e \<Longrightarrow> \<not> can s t"
    and functional: "r \<in> set rows \<Longrightarrow> r' \<in> set rows \<Longrightarrow>
      tr_from r = tr_from r' \<Longrightarrow> tr_trigger r = tr_trigger r' \<Longrightarrow> tr_to r = tr_to r'"
begin

inductive step :: "'s \<Rightarrow> 's \<Rightarrow> bool" where
  step: "app s t = Inr s' \<Longrightarrow> step s s'"

fun run_triggers :: "'s \<Rightarrow> 't list \<Rightarrow> 'e + 's" where
  "run_triggers s [] = Inr s"
| "run_triggers s (t # ts) = (case app s t of Inl e \<Rightarrow> Inl e | Inr s' \<Rightarrow> run_triggers s' ts)"

lemma can_iff_app: "can s t \<longleftrightarrow> (\<exists>s'. app s t = Inr s')"
proof (cases "app s t")
  case (Inl e)
  then show ?thesis using app_fails [of s t e] by simp
next
  case (Inr s')
  then show ?thesis using app_row [of s t s'] by (auto simp: can_iff)
qed

lemma app_complete:
  assumes "r \<in> set rows"
  shows "app (tr_from r) (tr_trigger r) = Inr (tr_to r)"
proof -
  from assms have "can (tr_from r) (tr_trigger r)" by (auto simp: can_iff)
  then obtain s' where s': "app (tr_from r) (tr_trigger r) = Inr s'" by (auto simp: can_iff_app)
  from app_row [OF s'] obtain r' where
    "r' \<in> set rows" "tr_from r' = tr_from r" "tr_trigger r' = tr_trigger r" "tr_to r' = s'"
    by blast
  with functional [OF assms \<open>r' \<in> set rows\<close>] s' show ?thesis by simp
qed

lemma app_iff_row:
  "app s t = Inr s' \<longleftrightarrow> (\<exists>r \<in> set rows. tr_from r = s \<and> tr_trigger r = t \<and> tr_to r = s')"
  using app_row app_complete by blast

lemma step_iff_row: "step s s' \<longleftrightarrow> (\<exists>r \<in> set rows. tr_from r = s \<and> tr_to r = s')"
proof
  assume "step s s'"
  then obtain t where "app s t = Inr s'" by cases
  then show "\<exists>r \<in> set rows. tr_from r = s \<and> tr_to r = s'" by (auto dest: app_row)
next
  assume "\<exists>r \<in> set rows. tr_from r = s \<and> tr_to r = s'"
  then show "step s s'" by (auto dest: app_complete intro: step)
qed

lemma run_triggers_steps: "run_triggers s ts = Inr s' \<Longrightarrow> step\<^sup>*\<^sup>* s s'"
proof (induction ts arbitrary: s)
  case Nil
  then show ?case by simp
next
  case (Cons t ts)
  then obtain s1 where "app s t = Inr s1" and "run_triggers s1 ts = Inr s'"
    by (auto split: sum.splits)
  then have "step s s1" and "step\<^sup>*\<^sup>* s1 s'" using Cons.IH by (auto intro: step)
  then show ?case by (rule converse_rtranclp_into_rtranclp)
qed

lemma steps_run_triggers: "step\<^sup>*\<^sup>* s s' \<Longrightarrow> \<exists>ts. run_triggers s ts = Inr s'"
proof (induction rule: converse_rtranclp_induct)
  case base
  have "run_triggers s' [] = Inr s'" by simp
  then show ?case ..
next
  case (step y z)
  then obtain t ts where "app y t = Inr z" and "run_triggers z ts = Inr s'"
    by (auto elim: step.cases)
  then have "run_triggers y (t # ts) = Inr s'" by simp
  then show ?case ..
qed

lemma reachable_iff_run: "step\<^sup>*\<^sup>* s s' \<longleftrightarrow> (\<exists>ts. run_triggers s ts = Inr s')"
  using run_triggers_steps steps_run_triggers by blast

lemma closed_reachable:
  assumes "step\<^sup>*\<^sup>* s s'" and "P s" and "\<And>r. r \<in> set rows \<Longrightarrow> P (tr_from r) \<Longrightarrow> P (tr_to r)"
  shows "P s'"
  using assms(1,2)
  by (induction rule: rtranclp_induct) (auto simp: step_iff_row dest: assms(3))

end

text \<open>A machine with statuses that are never left.\<close>

locale terminal_machine = status_machine rows can app
  for rows :: "('s, 't, 'm) transition_scheme list"
    and can :: "'s \<Rightarrow> 't \<Rightarrow> bool"
    and app :: "'s \<Rightarrow> 't \<Rightarrow> 'e + 's" +
  fixes terminal :: "'s \<Rightarrow> bool"
  assumes terminal_iff: "terminal s \<longleftrightarrow> (\<forall>r \<in> set rows. tr_from r \<noteq> s)"
begin

lemma terminal_cannot: "terminal s \<Longrightarrow> \<not> can s t"
  by (auto simp: can_iff terminal_iff)

lemma terminal_fails: "terminal s \<Longrightarrow> \<exists>e. app s t = Inl e"
  using terminal_cannot [of s t] can_iff_app [of s t] by (cases "app s t") auto

lemma terminal_absorbing: "step\<^sup>*\<^sup>* s s' \<Longrightarrow> terminal s \<Longrightarrow> s' = s"
  by (induction rule: rtranclp_induct) (auto simp: step_iff_row terminal_iff)

lemma live_iff_can: "\<not> terminal s \<longleftrightarrow> (\<exists>t. can s t)"
  by (auto simp: can_iff terminal_iff)

end

end
