(* ===== verification/Task_State.thy ===== *)
theory Task_State
  imports Status_Machine
begin

text \<open>
  \<open>packages/domain/src/state.ts\<close>: the task, run and approval lifecycles. Each is a table of
  transitions with a finder, a test, an application that raises \<open>InvalidTransitionError\<close> and a
  list of terminal statuses. The tables are interpreted as \<open>terminal_machine\<close>s.
\<close>

section \<open>Statuses and triggers\<close>

datatype task_status =
    TS_backlog | TS_ready | TS_assigned | TS_running | TS_awaiting_approval
  | TS_blocked | TS_review | TS_done | TS_cancelled

definition TASK_STATUSES :: "task_status list" where
  "TASK_STATUSES = [TS_backlog, TS_ready, TS_assigned, TS_running, TS_awaiting_approval,
     TS_blocked, TS_review, TS_done, TS_cancelled]"

datatype task_trigger =
    TT_triage | TT_assign | TT_run_started | TT_assign_failed_retryable
  | TT_assign_failed_permission | TT_approval_requested | TT_approval_granted
  | TT_approval_rejected | TT_run_completed | TT_run_failed | TT_retry | TT_accept
  | TT_request_changes | TT_cancel

datatype run_status =
    RS_queued | RS_starting | RS_running | RS_awaiting_input | RS_paused
  | RS_completed | RS_failed | RS_cancelled

datatype run_trigger =
    RT_start | RT_process_started | RT_start_failed | RT_run_completed | RT_run_failed
  | RT_cancel | RT_input_requested | RT_input_provided | RT_pause | RT_resume

datatype approval_status =
    AS_pending | AS_approved | AS_rejected | AS_needs_more_info | AS_expired

datatype approval_trigger = AT_approve | AT_reject | AT_need_more_info | AT_expire

text \<open>\<open>InvalidTransitionError\<close>: the machine with the status and the trigger refused.\<close>

datatype invalid_transition =
    Invalid_task task_status task_trigger
  | Invalid_run run_status run_trigger
  | Invalid_approval approval_status approval_trigger

section \<open>Tasks\<close>

record task_transition = "(task_status, task_trigger) transition" +
  reentrant :: bool

definition task_row :: "task_status \<Rightarrow> task_status \<Rightarrow> task_trigger \<Rightarrow> bool \<Rightarrow> task_transition" where
  "task_row s s' t b = \<lparr>tr_from = s, tr_to = s', tr_trigger = t, reentrant = b\<rparr>"

definition TASK_TERMINAL :: "task_status list" where
  "TASK_TERMINAL = [TS_done, TS_cancelled]"

definition TASK_NON_TERMINAL :: "task_status list" where
  "TASK_NON_TERMINAL = filter (\<lambda>s. s \<notin> set TASK_TERMINAL) TASK_STATUSES"

definition TASK_TRANSITIONS :: "task_transition list" where
  "TASK_TRANSITIONS =
     [task_row TS_backlog TS_ready TT_triage False,
      task_row TS_ready TS_assigned TT_assign False,
      task_row TS_assigned TS_running TT_run_started False,
      task_row TS_assigned TS_ready TT_assign_failed_retryable True,
      task_row TS_assigned TS_blocked TT_assign_failed_permission False,
      task_row TS_running TS_awaiting_approval TT_approval_requested False,
      task_row TS_awaiting_approval TS_running TT_approval_granted False,
      task_row TS_awaiting_approval TS_blocked TT_approval_rejected False,
      task_row TS_running TS_review TT_run_completed False,
      task_row TS_running TS_blocked TT_run_failed False,
      task_row TS_awaiting_approval TS_blocked TT_run_failed False,
      task_row TS_blocked TS_ready TT_retry True,
      task_row TS_review TS_done TT_accept False,
      task_row TS_review TS_ready TT_request_changes True]
     @ map (\<lambda>s. task_row s TS_cancelled TT_cancel False) TASK_NON_TERMINAL"

definition isTaskTerminal :: "task_status \<Rightarrow> bool" where
  "isTaskTerminal s = List.member TASK_TERMINAL s"

definition taskTransitionsFrom :: "task_status \<Rightarrow> task_transition list" where
  "taskTransitionsFrom s = filter (\<lambda>r. tr_from r = s) TASK_TRANSITIONS"

definition findTaskTransition :: "task_status \<Rightarrow> task_trigger \<Rightarrow> task_transition option" where
  "findTaskTransition s t = find_transition TASK_TRANSITIONS s t"

definition canTransitionTask :: "task_status \<Rightarrow> task_trigger \<Rightarrow> bool" where
  "canTransitionTask s t = (findTaskTransition s t \<noteq> None)"

definition applyTaskTransition :: "task_status \<Rightarrow> task_trigger \<Rightarrow> invalid_transition + task_status" where
  "applyTaskTransition s t =
     (case findTaskTransition s t of None \<Rightarrow> Inl (Invalid_task s t) | Some r \<Rightarrow> Inr (tr_to r))"

definition ATTEMPT_SCOPED_TASK_TRIGGERS :: "task_trigger list" where
  "ATTEMPT_SCOPED_TASK_TRIGGERS =
     [TT_assign, TT_retry, TT_request_changes, TT_assign_failed_retryable]"

definition requiresAttemptScopedIdempotency :: "task_trigger \<Rightarrow> bool" where
  "requiresAttemptScopedIdempotency t = List.member ATTEMPT_SCOPED_TASK_TRIGGERS t"

section \<open>Runs\<close>

definition run_row :: "run_status \<Rightarrow> run_status \<Rightarrow> run_trigger \<Rightarrow> (run_status, run_trigger) transition" where
  "run_row s s' t = \<lparr>tr_from = s, tr_to = s', tr_trigger = t\<rparr>"

definition RUN_TERMINAL :: "run_status list" where
  "RUN_TERMINAL = [RS_completed, RS_failed, RS_cancelled]"

definition RUN_TRANSITIONS :: "(run_status, run_trigger) transition list" where
  "RUN_TRANSITIONS =
     [run_row RS_queued RS_starting RT_start,
      run_row RS_queued RS_cancelled RT_cancel,
      run_row RS_starting RS_running RT_process_started,
      run_row RS_starting RS_failed RT_start_failed,
      run_row RS_starting RS_cancelled RT_cancel,
      run_row RS_running RS_completed RT_run_completed,
      run_row RS_running RS_failed RT_run_failed,
      run_row RS_running RS_cancelled RT_cancel,
      run_row RS_running RS_awaiting_input RT_input_requested,
      run_row RS_awaiting_input RS_running RT_input_provided,
      run_row RS_awaiting_input RS_cancelled RT_cancel,
      run_row RS_awaiting_input RS_failed RT_run_failed,
      run_row RS_running RS_paused RT_pause,
      run_row RS_paused RS_running RT_resume,
      run_row RS_paused RS_cancelled RT_cancel,
      run_row RS_paused RS_failed RT_run_failed]"

definition isRunTerminal :: "run_status \<Rightarrow> bool" where
  "isRunTerminal s = List.member RUN_TERMINAL s"

definition canTransitionRun :: "run_status \<Rightarrow> run_trigger \<Rightarrow> bool" where
  "canTransitionRun s t = has_transition RUN_TRANSITIONS s t"

definition applyRunTransition :: "run_status \<Rightarrow> run_trigger \<Rightarrow> invalid_transition + run_status" where
  "applyRunTransition s t =
     (case find_transition RUN_TRANSITIONS s t of
        None \<Rightarrow> Inl (Invalid_run s t) | Some r \<Rightarrow> Inr (tr_to r))"

section \<open>Approvals\<close>

definition approval_row ::
  "approval_status \<Rightarrow> approval_status \<Rightarrow> approval_trigger \<Rightarrow> (approval_status, approval_trigger) transition" where
  "approval_row s s' t = \<lparr>tr_from = s, tr_to = s', tr_trigger = t\<rparr>"

definition APPROVAL_TERMINAL :: "approval_status list" where
  "APPROVAL_TERMINAL = [AS_approved, AS_rejected, AS_expired]"

definition APPROVAL_TRANSITIONS :: "(approval_status, approval_trigger) transition list" where
  "APPROVAL_TRANSITIONS =
     [approval_row AS_pending AS_approved AT_approve,
      approval_row AS_pending AS_rejected AT_reject,
      approval_row AS_pending AS_needs_more_info AT_need_more_info,
      approval_row AS_pending AS_expired AT_expire,
      approval_row AS_needs_more_info AS_approved AT_approve,
      approval_row AS_needs_more_info AS_rejected AT_reject,
      approval_row AS_needs_more_info AS_expired AT_expire]"

definition isApprovalTerminal :: "approval_status \<Rightarrow> bool" where
  "isApprovalTerminal s = List.member APPROVAL_TERMINAL s"

definition canTransitionApproval :: "approval_status \<Rightarrow> approval_trigger \<Rightarrow> bool" where
  "canTransitionApproval s t = has_transition APPROVAL_TRANSITIONS s t"

definition applyApprovalTransition ::
  "approval_status \<Rightarrow> approval_trigger \<Rightarrow> invalid_transition + approval_status" where
  "applyApprovalTransition s t =
     (case find_transition APPROVAL_TRANSITIONS s t of
        None \<Rightarrow> Inl (Invalid_approval s t) | Some r \<Rightarrow> Inr (tr_to r))"

section \<open>The machines satisfy the interface\<close>

lemmas task_machine_defs [model_defs] =
  TASK_STATUSES_def task_row_def TASK_TERMINAL_def TASK_NON_TERMINAL_def TASK_TRANSITIONS_def
  isTaskTerminal_def taskTransitionsFrom_def findTaskTransition_def canTransitionTask_def
  applyTaskTransition_def ATTEMPT_SCOPED_TASK_TRIGGERS_def requiresAttemptScopedIdempotency_def

lemmas run_machine_defs [model_defs] =
  run_row_def RUN_TERMINAL_def RUN_TRANSITIONS_def isRunTerminal_def canTransitionRun_def
  applyRunTransition_def

lemmas approval_machine_defs [model_defs] =
  approval_row_def APPROVAL_TERMINAL_def APPROVAL_TRANSITIONS_def isApprovalTerminal_def
  canTransitionApproval_def applyApprovalTransition_def

lemmas table_defs [model_defs] = find_transition_def has_transition_def

text \<open>
  The finder-based operations give the first three laws for any table; only determinism and the
  terminal statuses depend on the rows.
\<close>

lemma finder_laws:
  fixes rows :: "('s, 't, 'm) transition_scheme list"
  assumes can: "\<And>s t. can s t \<longleftrightarrow> find_transition rows s t \<noteq> None"
    and app: "\<And>s t. app s t = (case find_transition rows s t of None \<Rightarrow> Inl (bad s t) | Some r \<Rightarrow> Inr (tr_to r))"
    and functional: "\<forall>r \<in> set rows. \<forall>r' \<in> set rows.
      tr_from r = tr_from r' \<and> tr_trigger r = tr_trigger r' \<longrightarrow> tr_to r = tr_to r'"
  shows "status_machine rows can app"
proof
  fix s t
  have ex: "find_transition rows s t \<noteq> None \<longleftrightarrow> (\<exists>r \<in> set rows. tr_from r = s \<and> tr_trigger r = t)"
    by (auto simp: find_transition_def find_None_iff)
  show "can s t \<longleftrightarrow> (\<exists>r \<in> set rows. tr_from r = s \<and> tr_trigger r = t)"
    using can ex by simp
  show "\<exists>r \<in> set rows. tr_from r = s \<and> tr_trigger r = t \<and> tr_to r = s'" if "app s t = Inr s'" for s'
    using that app find_transition_row [of rows s t] by (auto split: option.splits)
  show "\<not> can s t" if "app s t = Inl e" for e
    using that app can by (auto split: option.splits)
qed (use functional in blast)

lemma task_status_machine: "status_machine TASK_TRANSITIONS canTransitionTask applyTaskTransition"
  by (rule finder_laws [where bad = Invalid_task])
     (simp_all add: canTransitionTask_def applyTaskTransition_def findTaskTransition_def task_machine_defs)

interpretation task_sm: terminal_machine TASK_TRANSITIONS canTransitionTask applyTaskTransition isTaskTerminal
  by (intro terminal_machine.intro task_status_machine terminal_machine_axioms.intro, case_tac s)
     (simp_all add: task_machine_defs)

lemma run_status_machine: "status_machine RUN_TRANSITIONS canTransitionRun applyRunTransition"
  by (rule finder_laws [where bad = Invalid_run])
     (simp_all add: canTransitionRun_def applyRunTransition_def has_transition_iff_find run_machine_defs)

interpretation run_sm: terminal_machine RUN_TRANSITIONS canTransitionRun applyRunTransition isRunTerminal
  by (intro terminal_machine.intro run_status_machine terminal_machine_axioms.intro, case_tac s)
     (simp_all add: run_machine_defs)

lemma approval_status_machine:
  "status_machine APPROVAL_TRANSITIONS canTransitionApproval applyApprovalTransition"
  by (rule finder_laws [where bad = Invalid_approval])
     (simp_all add: canTransitionApproval_def applyApprovalTransition_def has_transition_iff_find
        approval_machine_defs)

interpretation approval_sm:
  terminal_machine APPROVAL_TRANSITIONS canTransitionApproval applyApprovalTransition isApprovalTerminal
  by (intro terminal_machine.intro approval_status_machine terminal_machine_axioms.intro, case_tac s)
     (simp_all add: approval_machine_defs)

section \<open>Behaviour\<close>

text \<open>What \<open>cancel\<close> does, and that \<open>done\<close> is entered from \<open>review\<close> only.\<close>

lemma task_cancel_iff: "canTransitionTask s TT_cancel \<longleftrightarrow> \<not> isTaskTerminal s"
  by (cases s) (simp_all add: task_machine_defs find_transition_def)

lemma task_cancel_target: "applyTaskTransition s TT_cancel = Inr s' \<Longrightarrow> s' = TS_cancelled"
  by (cases s) (simp_all add: task_machine_defs find_transition_def)

lemma task_done_only_from_review:
  "applyTaskTransition s t = Inr TS_done \<longleftrightarrow> s = TS_review \<and> t = TT_accept"
  by (cases s; cases t) (simp_all add: task_machine_defs find_transition_def)

lemma task_running_only_from:
  "applyTaskTransition s t = Inr TS_running \<longleftrightarrow>
     (s = TS_assigned \<and> t = TT_run_started) \<or> (s = TS_awaiting_approval \<and> t = TT_approval_granted)"
  by (cases s; cases t) (simp_all add: task_machine_defs find_transition_def)

lemma run_no_revival: "run_sm.step\<^sup>*\<^sup>* s s' \<Longrightarrow> isRunTerminal s \<Longrightarrow> s' = s"
  by (rule run_sm.terminal_absorbing)

text \<open>A route to the end from every status.\<close>

fun done_route :: "task_status \<Rightarrow> task_trigger list" where
  "done_route TS_backlog = [TT_triage, TT_assign, TT_run_started, TT_run_completed, TT_accept]"
| "done_route TS_ready = [TT_assign, TT_run_started, TT_run_completed, TT_accept]"
| "done_route TS_assigned = [TT_run_started, TT_run_completed, TT_accept]"
| "done_route TS_running = [TT_run_completed, TT_accept]"
| "done_route TS_awaiting_approval = [TT_approval_granted, TT_run_completed, TT_accept]"
| "done_route TS_blocked = [TT_retry, TT_assign, TT_run_started, TT_run_completed, TT_accept]"
| "done_route TS_review = [TT_accept]"
| "done_route TS_done = []"
| "done_route TS_cancelled = []"

lemma done_route_ok: "s \<noteq> TS_cancelled \<Longrightarrow> task_sm.run_triggers s (done_route s) = Inr TS_done"
  by (cases s) (simp_all add: task_machine_defs find_transition_def)

lemma task_reaches_done: "task_sm.step\<^sup>*\<^sup>* s TS_done \<longleftrightarrow> s \<noteq> TS_cancelled"
proof
  assume "task_sm.step\<^sup>*\<^sup>* s TS_done"
  moreover have "isTaskTerminal TS_cancelled" by (simp add: task_machine_defs)
  ultimately show "s \<noteq> TS_cancelled" using task_sm.terminal_absorbing by blast
qed (use done_route_ok task_sm.run_triggers_steps in blast)

lemma task_reaches_cancelled: "task_sm.step\<^sup>*\<^sup>* s TS_cancelled \<longleftrightarrow> s \<noteq> TS_done"
proof
  assume "task_sm.step\<^sup>*\<^sup>* s TS_cancelled"
  moreover have "isTaskTerminal TS_done" by (simp add: task_machine_defs)
  ultimately show "s \<noteq> TS_done" using task_sm.terminal_absorbing by blast
next
  assume "s \<noteq> TS_done"
  then have "s = TS_cancelled \<or> applyTaskTransition s TT_cancel = Inr TS_cancelled"
    by (cases s) (simp_all add: task_machine_defs find_transition_def)
  then show "task_sm.step\<^sup>*\<^sup>* s TS_cancelled" by (auto intro: task_sm.step)
qed

text \<open>
  Property C29. No task gets stuck: from every status \<open>done\<close> can be reached unless the task is
  cancelled, and \<open>cancelled\<close> unless it is done; a status admits some trigger exactly when it is not
  terminal, and a terminal status is left by no sequence of triggers.
\<close>

theorem task_lifecycle_live:
  "(task_sm.step\<^sup>*\<^sup>* s TS_done \<longleftrightarrow> s \<noteq> TS_cancelled) \<and> (task_sm.step\<^sup>*\<^sup>* s TS_cancelled \<longleftrightarrow> s \<noteq> TS_done)
   \<and> ((\<exists>t. canTransitionTask s t) \<longleftrightarrow> \<not> isTaskTerminal s)
   \<and> ({s'. task_sm.step\<^sup>*\<^sup>* s s'} = {s} \<longleftrightarrow> isTaskTerminal s)"
proof -
  have "{s'. task_sm.step\<^sup>*\<^sup>* s s'} = {s} \<longleftrightarrow> isTaskTerminal s"
  proof
    assume "{s'. task_sm.step\<^sup>*\<^sup>* s s'} = {s}"
    then have "TS_done \<in> {s} \<or> TS_cancelled \<in> {s}"
      using task_reaches_done [of s] task_reaches_cancelled [of s] by (cases "s = TS_cancelled") blast+
    then show "isTaskTerminal s" by (auto simp: task_machine_defs)
  qed (use task_sm.terminal_absorbing in auto)
  then show ?thesis
    using task_reaches_done task_reaches_cancelled task_sm.live_iff_can by blast
qed

section \<open>Idempotency scope\<close>

text \<open>From \<open>ready\<close> every status but \<open>backlog\<close> is reached, and \<open>ready\<close> from all that are not terminal.\<close>

fun ready_route :: "task_status \<Rightarrow> task_trigger list" where
  "ready_route TS_backlog = [TT_triage]"
| "ready_route TS_ready = []"
| "ready_route TS_assigned = [TT_assign_failed_retryable]"
| "ready_route TS_running = [TT_run_failed, TT_retry]"
| "ready_route TS_awaiting_approval = [TT_run_failed, TT_retry]"
| "ready_route TS_blocked = [TT_retry]"
| "ready_route TS_review = [TT_request_changes]"
| "ready_route _ = []"

lemma reaches_ready: "task_sm.step\<^sup>*\<^sup>* s TS_ready \<longleftrightarrow> \<not> isTaskTerminal s"
proof
  assume reach: "task_sm.step\<^sup>*\<^sup>* s TS_ready"
  show "\<not> isTaskTerminal s"
  proof
    assume "isTaskTerminal s"
    with task_sm.terminal_absorbing [OF reach] show False by (auto simp: task_machine_defs)
  qed
next
  assume "\<not> isTaskTerminal s"
  then have "task_sm.run_triggers s (ready_route s) = Inr TS_ready"
    by (cases s) (simp_all add: task_machine_defs find_transition_def)
  then show "task_sm.step\<^sup>*\<^sup>* s TS_ready" by (rule task_sm.run_triggers_steps)
qed

lemma never_back_to_backlog: "task_sm.step\<^sup>*\<^sup>* s TS_backlog \<longleftrightarrow> s = TS_backlog"
proof
  assume "task_sm.step\<^sup>*\<^sup>* s TS_backlog"
  then show "s = TS_backlog"
    by (cases rule: rtranclp.cases) (auto simp: task_sm.step_iff_row task_machine_defs)
qed simp

lemma ready_reaches: "s \<noteq> TS_backlog \<Longrightarrow> task_sm.step\<^sup>*\<^sup>* TS_ready s"
proof -
  have "task_sm.run_triggers TS_ready [TT_assign, TT_run_started, TT_approval_requested] = Inr TS_awaiting_approval"
    "task_sm.run_triggers TS_ready [TT_assign] = Inr TS_assigned"
    "task_sm.run_triggers TS_ready [TT_assign, TT_run_started] = Inr TS_running"
    "task_sm.run_triggers TS_ready [TT_assign, TT_run_started, TT_run_failed] = Inr TS_blocked"
    "task_sm.run_triggers TS_ready [TT_assign, TT_run_started, TT_run_completed] = Inr TS_review"
    by (simp_all add: task_machine_defs find_transition_def)
  then show "task_sm.step\<^sup>*\<^sup>* TS_ready s" if "s \<noteq> TS_backlog"
    using that task_reaches_done [of TS_ready] task_reaches_cancelled [of TS_ready]
      task_sm.run_triggers_steps by (cases s) blast+
qed

text \<open>
  A trigger is scoped by attempt exactly when it labels a transition that enters or
  leaves \<open>ready\<close> and lies on a cycle of the lifecycle, i.e. when the same task can take it again
  without any other task, run or approval being involved in the key.
\<close>

theorem attempt_scope_exact:
  "requiresAttemptScopedIdempotency t \<longleftrightarrow>
     (\<exists>r \<in> set TASK_TRANSITIONS. tr_trigger r = t \<and> TS_ready \<in> {tr_from r, tr_to r}
        \<and> task_sm.step\<^sup>*\<^sup>* (tr_to r) (tr_from r))"
proof -
  have cyclic: "task_sm.step\<^sup>*\<^sup>* (tr_to r) (tr_from r) \<longleftrightarrow>
      (if tr_to r = TS_ready then tr_from r \<noteq> TS_backlog else \<not> isTaskTerminal (tr_to r))"
    if "TS_ready \<in> {tr_from r, tr_to r}" for r :: task_transition
    using that ready_reaches never_back_to_backlog [of TS_ready] reaches_ready [of "tr_to r"] by auto
  have "(\<exists>r \<in> set TASK_TRANSITIONS. tr_trigger r = t \<and> TS_ready \<in> {tr_from r, tr_to r}
        \<and> task_sm.step\<^sup>*\<^sup>* (tr_to r) (tr_from r)) \<longleftrightarrow>
      (\<exists>r \<in> set TASK_TRANSITIONS. tr_trigger r = t \<and> TS_ready \<in> {tr_from r, tr_to r}
        \<and> (if tr_to r = TS_ready then tr_from r \<noteq> TS_backlog else \<not> isTaskTerminal (tr_to r)))"
    using cyclic by blast
  also have "\<dots> \<longleftrightarrow> requiresAttemptScopedIdempotency t"
    by (cases t) (simp_all add: task_machine_defs)
  finally show ?thesis by simp
qed

section \<open>Runs and approvals end for good\<close>

lemma run_reaches_cancelled: "run_sm.step\<^sup>*\<^sup>* s RS_cancelled \<longleftrightarrow> s \<noteq> RS_completed \<and> s \<noteq> RS_failed"
proof
  assume "run_sm.step\<^sup>*\<^sup>* s RS_cancelled"
  moreover have "isRunTerminal RS_completed" "isRunTerminal RS_failed" by (simp_all add: run_machine_defs)
  ultimately show "s \<noteq> RS_completed \<and> s \<noteq> RS_failed" using run_sm.terminal_absorbing by blast
next
  assume "s \<noteq> RS_completed \<and> s \<noteq> RS_failed"
  then have "s = RS_cancelled \<or> applyRunTransition s RT_cancel = Inr RS_cancelled"
    by (cases s) (simp_all add: run_machine_defs find_transition_def)
  then show "run_sm.step\<^sup>*\<^sup>* s RS_cancelled" by (auto intro: run_sm.step)
qed

text \<open>
  Property C40. A run or an approval that has ended is never revived, and every other one can still
  end: a run can be cancelled from every status but completed and failed, an approval can be
  approved, rejected or expired from every status that is not final.
\<close>

theorem run_approval_final:
  "({s'. run_sm.step\<^sup>*\<^sup>* s s'} = {s} \<longleftrightarrow> isRunTerminal s)
   \<and> (run_sm.step\<^sup>*\<^sup>* s RS_cancelled \<longleftrightarrow> s \<noteq> RS_completed \<and> s \<noteq> RS_failed)
   \<and> ({a'. approval_sm.step\<^sup>*\<^sup>* a a'} = {a} \<longleftrightarrow> isApprovalTerminal a)
   \<and> (\<forall>t. t \<noteq> AT_need_more_info \<longrightarrow> canTransitionApproval a t = (\<not> isApprovalTerminal a))"
proof -
  have "isRunTerminal s" if "{s'. run_sm.step\<^sup>*\<^sup>* s s'} = {s}"
  proof -
    have "RS_cancelled \<in> {s} \<or> s = RS_completed \<or> s = RS_failed"
      using that run_reaches_cancelled [of s] by blast
    then show ?thesis by (auto simp: run_machine_defs)
  qed
  moreover have "{s'. run_sm.step\<^sup>*\<^sup>* s s'} = {s}" if "isRunTerminal s"
    using that run_sm.terminal_absorbing by auto
  moreover have "isApprovalTerminal a" if "{a'. approval_sm.step\<^sup>*\<^sup>* a a'} = {a}"
  proof (rule ccontr)
    assume "\<not> isApprovalTerminal a"
    then have "approval_sm.step a AS_approved"
      by (cases a) (auto simp: approval_sm.step_iff_row approval_machine_defs)
    then have "AS_approved \<in> {a}" using that by blast
    with \<open>\<not> isApprovalTerminal a\<close> show False by (simp add: approval_machine_defs)
  qed
  moreover have "{a'. approval_sm.step\<^sup>*\<^sup>* a a'} = {a}" if "isApprovalTerminal a"
    using that approval_sm.terminal_absorbing by auto
  moreover have "canTransitionApproval a t = (\<not> isApprovalTerminal a)" if "t \<noteq> AT_need_more_info" for t
    using that by (cases a; cases t) (simp_all add: approval_machine_defs has_transition_def)
  ultimately show ?thesis using run_reaches_cancelled by blast
qed

lemma run_approval_final_witness:
  "canTransitionApproval AS_needs_more_info AT_expire"
  using run_approval_final [of RS_queued AS_needs_more_info] by (simp add: approval_machine_defs)

end
