(* ===== verification/Goal_State.thy ===== *)
theory Goal_State
  imports Task_State
begin

text \<open>
  \<open>packages/domain/src/goal.ts\<close>: the goal and plan lifecycles, the rule for proposing a plan,
  the shapes of plans, checkpoints, budgets and goals, and the derivation of a goal's status from
  its children.
\<close>

section \<open>Goals\<close>

datatype goal_status =
    GS_draft | GS_planned | GS_running | GS_awaiting_approval | GS_paused
  | GS_blocked | GS_completed | GS_cancelled | GS_archived

datatype goal_trigger =
    GT_plan_accepted | GT_plan_rejected | GT_dag_materialized | GT_approval_required
  | GT_approval_granted | GT_approval_rejected | GT_pause | GT_resume | GT_blocked_detected
  | GT_blocker_resolved | GT_all_tasks_terminal | GT_cancel | GT_archive

record goal_transition = "(goal_status, goal_trigger) transition" +
  human :: bool

definition goal_row :: "goal_status \<Rightarrow> goal_status \<Rightarrow> goal_trigger \<Rightarrow> bool \<Rightarrow> goal_transition" where
  "goal_row s s' t b = \<lparr>tr_from = s, tr_to = s', tr_trigger = t, human = b\<rparr>"

definition GOAL_TERMINAL :: "goal_status list" where
  "GOAL_TERMINAL = [GS_completed, GS_cancelled, GS_archived]"

definition GOAL_TRANSITIONS :: "goal_transition list" where
  "GOAL_TRANSITIONS =
     [goal_row GS_draft GS_planned GT_plan_accepted False,
      goal_row GS_draft GS_cancelled GT_cancel True,
      goal_row GS_planned GS_running GT_dag_materialized False,
      goal_row GS_planned GS_draft GT_plan_rejected False,
      goal_row GS_planned GS_cancelled GT_cancel True,
      goal_row GS_running GS_awaiting_approval GT_approval_required False,
      goal_row GS_running GS_paused GT_pause True,
      goal_row GS_running GS_blocked GT_blocked_detected False,
      goal_row GS_running GS_completed GT_all_tasks_terminal False,
      goal_row GS_running GS_cancelled GT_cancel True,
      goal_row GS_awaiting_approval GS_running GT_approval_granted False,
      goal_row GS_awaiting_approval GS_blocked GT_approval_rejected False,
      goal_row GS_awaiting_approval GS_paused GT_pause True,
      goal_row GS_awaiting_approval GS_cancelled GT_cancel True,
      goal_row GS_paused GS_running GT_resume True,
      goal_row GS_paused GS_cancelled GT_cancel True,
      goal_row GS_blocked GS_running GT_blocker_resolved False,
      goal_row GS_blocked GS_paused GT_pause True,
      goal_row GS_blocked GS_cancelled GT_cancel True,
      goal_row GS_completed GS_archived GT_archive True,
      goal_row GS_cancelled GS_archived GT_archive True]"

definition isTerminalGoalStatus :: "goal_status \<Rightarrow> bool" where
  "isTerminalGoalStatus s = List.member GOAL_TERMINAL s"

definition canTransitionGoal :: "goal_status \<Rightarrow> goal_trigger \<Rightarrow> bool" where
  "canTransitionGoal s t = has_transition GOAL_TRANSITIONS s t"

definition goalTransitionTarget :: "goal_status \<Rightarrow> goal_trigger \<Rightarrow> goal_status option" where
  "goalTransitionTarget s t = map_option tr_to (find_transition GOAL_TRANSITIONS s t)"

section \<open>Plans\<close>

datatype plan_status = PS_proposed | PS_accepted | PS_rejected | PS_superseded

datatype plan_trigger = PT_accept | PT_reject | PT_new_version_accepted

text \<open>\<open>InvalidGoalTransitionError\<close>.\<close>

datatype invalid_goal_transition =
    Invalid_goal goal_status goal_trigger
  | Invalid_plan plan_status plan_trigger

definition applyGoalTransition :: "goal_status \<Rightarrow> goal_trigger \<Rightarrow> invalid_goal_transition + goal_status" where
  "applyGoalTransition s t =
     (case goalTransitionTarget s t of None \<Rightarrow> Inl (Invalid_goal s t) | Some s' \<Rightarrow> Inr s')"

definition plan_row :: "plan_status \<Rightarrow> plan_status \<Rightarrow> plan_trigger \<Rightarrow> (plan_status, plan_trigger) transition" where
  "plan_row s s' t = \<lparr>tr_from = s, tr_to = s', tr_trigger = t\<rparr>"

definition PLAN_TRANSITIONS :: "(plan_status, plan_trigger) transition list" where
  "PLAN_TRANSITIONS =
     [plan_row PS_proposed PS_accepted PT_accept,
      plan_row PS_proposed PS_rejected PT_reject,
      plan_row PS_accepted PS_superseded PT_new_version_accepted]"

definition canTransitionPlan :: "plan_status \<Rightarrow> plan_trigger \<Rightarrow> bool" where
  "canTransitionPlan s t = has_transition PLAN_TRANSITIONS s t"

definition applyPlanTransition :: "plan_status \<Rightarrow> plan_trigger \<Rightarrow> invalid_goal_transition + plan_status" where
  "applyPlanTransition s t =
     (case find_transition PLAN_TRANSITIONS s t of
        None \<Rightarrow> Inl (Invalid_plan s t) | Some r \<Rightarrow> Inr (tr_to r))"

definition canProposePlan :: "goal_status \<Rightarrow> bool \<Rightarrow> bool" where
  "canProposePlan s hasAcceptedPlan =
     (if \<not> hasAcceptedPlan then s = GS_draft \<or> s = GS_planned
      else s = GS_paused \<or> s = GS_blocked)"

section \<open>Shapes\<close>

datatype dependency_type =
    DT_blocks | DT_artifact_required | DT_contract_required | DT_review_required | DT_soft_context

datatype priority = P0 | P1 | P2 | P3

datatype created_by_type = By_user | By_agent | By_system

record spec_dependency =
  sd_ref :: string
  sd_type :: dependency_type

record expected_artifact =
  ea_type :: string
  ea_description :: string

record task_spec =
  ts_title :: string
  ts_description :: string
  ts_acceptance_criteria :: "string list"
  ts_required_capabilities :: "string list"
  ts_dependencies :: "spec_dependency list"
  ts_approval_gates :: "string list"
  ts_write_scopes :: "string list"
  ts_expected_artifacts :: "expected_artifact list"

text \<open>The constraints the schema puts on a parsed spec.\<close>

definition valid_task_spec :: "task_spec \<Rightarrow> bool" where
  "valid_task_spec s \<longleftrightarrow>
     1 \<le> length (ts_title s) \<and> list_all (\<lambda>c. 1 \<le> length c) (ts_acceptance_criteria s)
     \<and> 1 \<le> length (ts_acceptance_criteria s)"

datatype checkpoint_type =
    CT_plan_accepted | CT_dag_materialized | CT_approval_decided | CT_run_terminal
  | CT_artifact_accepted | CT_paused | CT_resumed

record checkpoint_refs =
  cr_goal_status :: goal_status
  cr_plan_version :: nat
  cr_task_statuses :: "(ident \<times> string) list"
  cr_active_runs :: "ident list"
  cr_open_blockers :: "ident list"
  cr_pending_approvals :: "ident list"
  cr_event_cursor :: nat

record goal_budgets =
  max_elapsed_ms :: "rat option"
  max_cost_usd :: "rat option"
  max_retries :: "rat option"
  max_concurrent_runs :: "rat option"
  allowed_runtimes :: "string list option"

datatype stop_rule_type = SR_budget_exceeded | SR_approval_timeout | SR_consecutive_failures | SR_custom

datatype stop_threshold = Threshold_number rat | Threshold_string string

datatype stop_rule_action = SA_pause | SA_cancel | SA_notify

record stop_rule =
  sr_type :: stop_rule_type
  sr_threshold :: stop_threshold
  sr_action :: stop_rule_action

record stop_conditions =
  sc_rules :: "stop_rule list"

section \<open>Deriving the status of a goal\<close>

text \<open>
  The facts carry task statuses as strings; \<open>task_status_text\<close> is the text of each status of
  the enumeration.
\<close>

fun task_status_text :: "task_status \<Rightarrow> string" where
  "task_status_text TS_backlog = ''backlog''"
| "task_status_text TS_ready = ''ready''"
| "task_status_text TS_assigned = ''assigned''"
| "task_status_text TS_running = ''running''"
| "task_status_text TS_awaiting_approval = ''awaiting_approval''"
| "task_status_text TS_blocked = ''blocked''"
| "task_status_text TS_review = ''review''"
| "task_status_text TS_done = ''done''"
| "task_status_text TS_cancelled = ''cancelled''"

record child_state_facts =
  cf_taskStatuses :: "string list"
  cf_openBlockers :: nat
  cf_awaitingApproval :: bool
  cf_acceptanceMet :: bool

definition TERMINAL_TASK_STATUSES :: "string list" where
  "TERMINAL_TASK_STATUSES = [''done'', ''cancelled'']"

definition deriveGoalStatusFromChildren :: "child_state_facts \<Rightarrow> goal_status option" where
  "deriveGoalStatusFromChildren f =
     (if cf_taskStatuses f = [] then None
      else if list_all (\<lambda>s. List.member TERMINAL_TASK_STATUSES s) (cf_taskStatuses f)
        then Some (if cf_acceptanceMet f then GS_completed else GS_blocked)
      else if cf_awaitingApproval f then Some GS_awaiting_approval
      else if 0 < cf_openBlockers f then Some GS_blocked
      else Some GS_running)"

section \<open>The machines satisfy the interface\<close>

lemmas goal_machine_defs [model_defs] =
  goal_row_def GOAL_TERMINAL_def GOAL_TRANSITIONS_def isTerminalGoalStatus_def canTransitionGoal_def
  goalTransitionTarget_def applyGoalTransition_def

lemmas plan_machine_defs [model_defs] =
  plan_row_def PLAN_TRANSITIONS_def canTransitionPlan_def applyPlanTransition_def canProposePlan_def

interpretation goal_sm: status_machine GOAL_TRANSITIONS canTransitionGoal applyGoalTransition
  by (rule finder_laws [where bad = Invalid_goal])
     (simp_all add: canTransitionGoal_def applyGoalTransition_def goalTransitionTarget_def
        has_transition_iff_find goal_machine_defs split: option.splits)

lemma plan_status_machine: "status_machine PLAN_TRANSITIONS canTransitionPlan applyPlanTransition"
  by (rule finder_laws [where bad = Invalid_plan])
     (simp_all add: canTransitionPlan_def applyPlanTransition_def has_transition_iff_find plan_machine_defs)

interpretation plan_sm: terminal_machine PLAN_TRANSITIONS canTransitionPlan applyPlanTransition
    "\<lambda>s. s = PS_rejected \<or> s = PS_superseded"
  by (intro terminal_machine.intro plan_status_machine terminal_machine_axioms.intro, case_tac s)
     (simp_all add: plan_machine_defs)

section \<open>Behaviour\<close>

lemma goal_terminal_step:
  "r \<in> set GOAL_TRANSITIONS \<Longrightarrow> isTerminalGoalStatus (tr_from r) \<Longrightarrow> tr_to r = GS_archived"
  by (auto simp: goal_machine_defs)

lemma goal_terminal_closed: "goal_sm.step\<^sup>*\<^sup>* s s' \<Longrightarrow> isTerminalGoalStatus s \<Longrightarrow> isTerminalGoalStatus s'"
  by (erule goal_sm.closed_reachable) (auto simp: goal_machine_defs)

lemma goal_cancel_iff:
  "canTransitionGoal s GT_cancel \<longleftrightarrow> \<not> isTerminalGoalStatus s"
  by (cases s) (simp_all add: goal_machine_defs has_transition_def)

lemma goal_human_iff:
  "r \<in> set GOAL_TRANSITIONS \<Longrightarrow> human r \<longleftrightarrow> tr_trigger r \<in> {GT_pause, GT_resume, GT_cancel, GT_archive}"
  by (auto simp: goal_machine_defs)

text \<open>
  The statuses the derivation produces: never a human override and never one that needs no
  children, and \<open>completed\<close> exactly when every child is settled and the criteria are met.
\<close>

lemma derive_completed_iff:
  "deriveGoalStatusFromChildren f = Some GS_completed \<longleftrightarrow>
     cf_taskStatuses f \<noteq> [] \<and> (\<forall>s \<in> set (cf_taskStatuses f). s \<in> {''done'', ''cancelled''}) \<and> cf_acceptanceMet f"
  by (auto simp: deriveGoalStatusFromChildren_def TERMINAL_TASK_STATUSES_def list_all_iff)

lemma derive_range:
  "deriveGoalStatusFromChildren f = Some s \<Longrightarrow>
     s \<in> {GS_completed, GS_blocked, GS_awaiting_approval, GS_running}"
  by (auto simp: deriveGoalStatusFromChildren_def split: if_splits)

lemma derive_from_running:
  assumes "deriveGoalStatusFromChildren f = Some s"
  shows "goal_sm.step\<^sup>*\<^sup>* GS_running s"
proof -
  have "s = GS_running \<or> goal_sm.step GS_running s"
    using derive_range [OF assms] by (auto simp: goal_sm.step_iff_row goal_machine_defs)
  then show ?thesis by auto
qed

lemma goal_reaches_archived: "goal_sm.step\<^sup>*\<^sup>* s GS_archived"
proof -
  have arch: "goal_sm.step GS_completed GS_archived" "goal_sm.step GS_cancelled GS_archived"
    by (auto simp: goal_sm.step_iff_row goal_machine_defs)
  have "s = GS_archived \<or> s = GS_completed \<or> s = GS_cancelled \<or> goal_sm.step s GS_cancelled"
    by (cases s) (auto simp: goal_sm.step_iff_row goal_machine_defs)
  then show ?thesis using arch by (auto intro: converse_rtranclp_into_rtranclp)
qed

text \<open>
  Property C30. The goal lifecycle: every status can still be archived, a goal can be cancelled
  exactly while it is not terminal, what follows a terminal status is terminal, and the
  transitions reserved to humans are exactly pause, resume, cancel and archive.
\<close>

theorem goal_lifecycle:
  "goal_sm.step\<^sup>*\<^sup>* s GS_archived \<and> (canTransitionGoal s GT_cancel \<longleftrightarrow> \<not> isTerminalGoalStatus s)
   \<and> (isTerminalGoalStatus s \<longleftrightarrow> {s'. goal_sm.step\<^sup>*\<^sup>* s s'} \<subseteq> {s'. isTerminalGoalStatus s'})
   \<and> {r \<in> set GOAL_TRANSITIONS. human r}
       = {r \<in> set GOAL_TRANSITIONS. tr_trigger r \<in> {GT_pause, GT_resume, GT_cancel, GT_archive}}"
proof -
  have "{r \<in> set GOAL_TRANSITIONS. human r}
       = {r \<in> set GOAL_TRANSITIONS. tr_trigger r \<in> {GT_pause, GT_resume, GT_cancel, GT_archive}}"
    using goal_human_iff by blast
  moreover have "isTerminalGoalStatus s \<longleftrightarrow> {s'. goal_sm.step\<^sup>*\<^sup>* s s'} \<subseteq> {s'. isTerminalGoalStatus s'}"
    using goal_terminal_closed by blast
  ultimately show ?thesis using goal_reaches_archived goal_cancel_iff by blast
qed

text \<open>
  The status derived from a goal's children is one the lifecycle can reach from
  \<open>running\<close>; it is \<open>completed\<close> exactly when there are children, all are done or cancelled and the
  acceptance criteria are met, and there is none exactly when there are no children.
\<close>

theorem derive_sound:
  "(\<forall>s. deriveGoalStatusFromChildren f = Some s \<longrightarrow> goal_sm.step\<^sup>*\<^sup>* GS_running s)
   \<and> (deriveGoalStatusFromChildren f = Some GS_completed \<longleftrightarrow>
        cf_taskStatuses f \<noteq> [] \<and> set (cf_taskStatuses f) \<subseteq> {''done'', ''cancelled''} \<and> cf_acceptanceMet f)
   \<and> (deriveGoalStatusFromChildren f = None \<longleftrightarrow> cf_taskStatuses f = [])"
proof -
  have "deriveGoalStatusFromChildren f = None \<longleftrightarrow> cf_taskStatuses f = []"
    by (simp add: deriveGoalStatusFromChildren_def)
  then show ?thesis using derive_from_running [of f] derive_completed_iff [of f] by blast
qed

lemma derive_sound_witness:
  "goal_sm.step\<^sup>*\<^sup>* GS_running GS_blocked \<and> deriveGoalStatusFromChildren
     \<lparr>cf_taskStatuses = [''done''], cf_openBlockers = 0, cf_awaitingApproval = False, cf_acceptanceMet = False\<rparr>
       = Some GS_blocked"
proof -
  let ?f = "\<lparr>cf_taskStatuses = [''done''], cf_openBlockers = 0, cf_awaitingApproval = False, cf_acceptanceMet = False\<rparr>"
  have eq: "deriveGoalStatusFromChildren ?f = Some GS_blocked"
    by (simp add: deriveGoalStatusFromChildren_def TERMINAL_TASK_STATUSES_def)
  from derive_sound [of ?f, THEN conjunct1] eq show ?thesis by blast
qed

end
