(* ===== verification/Dag.thy ===== *)
theory Dag
  imports Goal_State
begin

text \<open>
  \<open>packages/domain/src/dag.ts\<close>: the gates of a task's dependencies, the propagation of blocks,
  and the search that refuses an edge that would close a cycle. \<open>from_task_id\<close> is the
  prerequisite, \<open>to_task_id\<close> the dependent.
\<close>

section \<open>Edges and gates\<close>

record dag_edge =
  from_task_id :: ident
  to_task_id :: ident
  edge_type :: dependency_type

definition isGatingDependency :: "dependency_type \<Rightarrow> bool" where
  "isGatingDependency t = (t \<noteq> DT_soft_context)"

datatype evidence_kind = Evidence_artifact | Evidence_contract

definition requiredEvidenceKind :: "dependency_type \<Rightarrow> evidence_kind option" where
  "requiredEvidenceKind t =
     (if t = DT_artifact_required then Some Evidence_artifact
      else if t = DT_contract_required then Some Evidence_contract
      else None)"

definition gatingNeedsEvidence :: "dependency_type \<Rightarrow> bool" where
  "gatingNeedsEvidence t = (requiredEvidenceKind t \<noteq> None)"

definition hasRequiredEvidence ::
  "dag_edge list \<Rightarrow> (ident \<Rightarrow> evidence_kind list option) \<Rightarrow> bool" where
  "hasRequiredEvidence incoming evidenceByPrereq =
     list_all (\<lambda>e. case requiredEvidenceKind (edge_type e) of
         None \<Rightarrow> True
       | Some need \<Rightarrow> (case evidenceByPrereq (from_task_id e) of
           None \<Rightarrow> False | Some kinds \<Rightarrow> List.member kinds need))
       (filter (\<lambda>e. isGatingDependency (edge_type e)) incoming)"

definition incomingEdges :: "dag_edge list \<Rightarrow> ident \<Rightarrow> dag_edge list" where
  "incomingEdges edges taskId = filter (\<lambda>e. to_task_id e = taskId) edges"

definition isTaskUnlocked :: "dag_edge list \<Rightarrow> (ident \<Rightarrow> task_status option) \<Rightarrow> bool" where
  "isTaskUnlocked incoming upstreamStatusById =
     list_all (\<lambda>e. upstreamStatusById (from_task_id e) = Some TS_done)
       (filter (\<lambda>e. isGatingDependency (edge_type e)) incoming)"

definition isBlockedByUpstream :: "dag_edge list \<Rightarrow> (ident \<Rightarrow> task_status option) \<Rightarrow> bool" where
  "isBlockedByUpstream incoming upstreamStatusById =
     list_ex (\<lambda>e. upstreamStatusById (from_task_id e) = Some TS_blocked
         \<or> upstreamStatusById (from_task_id e) = Some TS_cancelled)
       (filter (\<lambda>e. isGatingDependency (edge_type e)) incoming)"

definition unlockedTaskIds ::
  "ident list \<Rightarrow> dag_edge list \<Rightarrow> (ident \<Rightarrow> task_status option) \<Rightarrow> ident list" where
  "unlockedTaskIds nodeIds edges statusById =
     filter (\<lambda>n. isTaskUnlocked (incomingEdges edges n) statusById) nodeIds"

section \<open>The cycle search\<close>

text \<open>The adjacency map, built edge by edge, and the loop over the stack (top first).\<close>

definition add_adjacent :: "dag_edge \<Rightarrow> (ident \<Rightarrow> ident list option) \<Rightarrow> (ident \<Rightarrow> ident list option)" where
  "add_adjacent e m =
     m(from_task_id e \<mapsto> (case m (from_task_id e) of None \<Rightarrow> [] | Some l \<Rightarrow> l) @ [to_task_id e])"

definition adjacency :: "dag_edge list \<Rightarrow> (ident \<Rightarrow> ident list option)" where
  "adjacency edges = fold add_adjacent edges Map.empty"

definition successors :: "dag_edge list \<Rightarrow> ident \<Rightarrow> ident list" where
  "successors edges n = (case adjacency edges n of None \<Rightarrow> [] | Some l \<Rightarrow> l)"

lemma adjacency_fold:
  "fold add_adjacent edges m n =
     (if (\<exists>e \<in> set edges. from_task_id e = n)
      then Some ((case m n of None \<Rightarrow> [] | Some l \<Rightarrow> l)
             @ map to_task_id (filter (\<lambda>e. from_task_id e = n) edges))
      else m n)"
  by (induction edges arbitrary: m) (auto simp: add_adjacent_def split: option.splits)

lemma successors_eq: "successors edges n = map to_task_id (filter (\<lambda>e. from_task_id e = n) edges)"
  by (auto simp: successors_def adjacency_def adjacency_fold filter_empty_conv)

function search_cycle :: "dag_edge list \<Rightarrow> ident \<Rightarrow> ident list \<Rightarrow> ident list \<Rightarrow> bool" where
  "search_cycle edges from_id seen [] = False"
| "search_cycle edges from_id seen (node # stack) =
     (if node = from_id then True
      else if node \<in> set seen then search_cycle edges from_id seen stack
      else search_cycle edges from_id (node # seen) (rev (successors edges node) @ stack))"
  by pat_completeness auto

text \<open>
  A node is expanded at most once; a node without outgoing edges only shrinks the stack.
\<close>

lemma search_cycle_decreases:
  assumes "node \<notin> set seen"
  shows "card (from_task_id ` set edges - set (node # seen)) < card (from_task_id ` set edges - set seen)
    \<or> (card (from_task_id ` set edges - set (node # seen)) = card (from_task_id ` set edges - set seen)
        \<and> successors edges node = [])"
proof (cases "node \<in> from_task_id ` set edges")
  case True
  then have "from_task_id ` set edges - set (node # seen) \<subset> from_task_id ` set edges - set seen"
    using assms by auto
  then show ?thesis by (simp add: psubset_card_mono)
next
  case False
  then have "from_task_id ` set edges - set (node # seen) = from_task_id ` set edges - set seen"
    by auto
  moreover have "successors edges node = []"
    using False by (auto simp: successors_eq filter_empty_conv)
  ultimately show ?thesis by simp
qed

termination search_cycle
  by (relation "measures [\<lambda>(edges, f, seen, stack). card (from_task_id ` set edges - set seen),
        \<lambda>(edges, f, seen, stack). length stack]")
     (use search_cycle_decreases in \<open>auto simp del: set_simps\<close>)

definition wouldCreateCycle :: "dag_edge list \<Rightarrow> ident \<Rightarrow> ident \<Rightarrow> bool" where
  "wouldCreateCycle edges fromTaskId toTaskId =
     (if fromTaskId = toTaskId then True else search_cycle edges fromTaskId [] [toTaskId])"

text \<open>The edges as a relation from prerequisite to dependent.\<close>

definition edge_rel :: "dag_edge list \<Rightarrow> (ident \<times> ident) set" where
  "edge_rel edges = (\<lambda>e. (from_task_id e, to_task_id e)) ` set edges"

lemma edge_rel_simps [simp]:
  "edge_rel [] = {}"
  "edge_rel (e # es) = insert (from_task_id e, to_task_id e) (edge_rel es)"
  "edge_rel (es @ fs) = edge_rel es \<union> edge_rel fs"
  by (auto simp: edge_rel_def)

lemma successors_rel: "v \<in> set (successors edges n) \<longleftrightarrow> (n, v) \<in> edge_rel edges"
  by (auto simp: successors_eq edge_rel_def)

text \<open>
  The invariant of the search: from every seen node, one edge leads to a seen node or to the
  stack, and the prerequisite is not seen; so what is reachable from a seen node passes through
  the stack.
\<close>

definition search_inv :: "dag_edge list \<Rightarrow> ident \<Rightarrow> ident list \<Rightarrow> ident list \<Rightarrow> bool" where
  "search_inv edges f seen stack \<longleftrightarrow> f \<notin> set seen
     \<and> (\<forall>x y. x \<in> set seen \<longrightarrow> (x, y) \<in> edge_rel edges \<longrightarrow> y \<in> set seen \<union> set stack)"

lemma search_inv_escape:
  assumes "(x, y) \<in> (edge_rel edges)\<^sup>*" "x \<in> set seen" "search_inv edges f seen stack" "y \<notin> set seen"
  shows "\<exists>s \<in> set stack. (s, y) \<in> (edge_rel edges)\<^sup>*"
  using assms
proof (induction rule: converse_rtrancl_induct)
  case base
  then show ?case by simp
next
  case (step x z)
  then show ?case by (auto simp: search_inv_def)
qed

lemma rtrancl_via:
  assumes "x \<noteq> y"
  shows "(x, y) \<in> r\<^sup>* \<longleftrightarrow> (\<exists>z. (x, z) \<in> r \<and> (z, y) \<in> r\<^sup>*)"
  using assms by (metis converse_rtranclE r_into_rtrancl rtrancl_trans)

lemma search_cycle_correct:
  "search_inv edges f seen stack \<Longrightarrow>
     search_cycle edges f seen stack \<longleftrightarrow> (\<exists>s \<in> set stack. (s, f) \<in> (edge_rel edges)\<^sup>*)"
proof (induction edges f seen stack rule: search_cycle.induct)
  case (1 edges f seen)
  then show ?case by simp
next
  case (2 edges f seen node stack)
  have inv: "search_inv edges f seen (node # stack)" by fact
  consider (hit) "node = f" | (old) "node \<noteq> f" "node \<in> set seen" | (new) "node \<noteq> f" "node \<notin> set seen"
    by blast
  then show ?case
  proof cases
    case hit
    then show ?thesis by auto
  next
    case old
    then have inv': "search_inv edges f seen stack" using inv by (auto simp: search_inv_def)
    have "\<exists>s \<in> set stack. (s, f) \<in> (edge_rel edges)\<^sup>*" if "(node, f) \<in> (edge_rel edges)\<^sup>*"
      using search_inv_escape [OF that old(2) inv'] inv' by (auto simp: search_inv_def)
    then show ?thesis using 2(1) [OF old inv'] old by auto
  next
    case new
    have inv': "search_inv edges f (node # seen) (rev (successors edges node) @ stack)"
      using inv new by (auto simp: search_inv_def successors_rel)
    have "(node, f) \<in> (edge_rel edges)\<^sup>* \<longleftrightarrow> (\<exists>s \<in> set (successors edges node). (s, f) \<in> (edge_rel edges)\<^sup>*)"
      using rtrancl_via [OF new(1)] by (auto simp: successors_rel)
    then show ?thesis using 2(2) [OF new inv'] new by auto
  qed
qed

lemma wouldCreateCycle_path:
  "wouldCreateCycle edges f t \<longleftrightarrow> (t, f) \<in> (edge_rel edges)\<^sup>*"
  using search_cycle_correct [of edges f "[]" "[t]"]
  by (auto simp: wouldCreateCycle_def search_inv_def)

section \<open>The guard on insertions\<close>

text \<open>
  What the two writers of dependency edges rely on (\<open>createDependency\<close> in the DAG service and the
  plan importer): a test that refuses exactly the edges that close a cycle.
\<close>

locale cycle_guard =
  fixes graph_rel :: "'g \<Rightarrow> ('v \<times> 'v) set"
    and reject :: "'g \<Rightarrow> 'v \<Rightarrow> 'v \<Rightarrow> bool"
    and add :: "'x \<Rightarrow> 'v \<Rightarrow> 'v \<Rightarrow> 'g \<Rightarrow> 'g"
  assumes reject_iff: "reject g f t \<longleftrightarrow> (t, f) \<in> (graph_rel g)\<^sup>*"
    and graph_rel_add: "graph_rel (add x f t g) = insert (f, t) (graph_rel g)"
begin

lemma add_acyclic_iff: "acyclic (graph_rel (add x f t g)) \<longleftrightarrow> acyclic (graph_rel g) \<and> \<not> reject g f t"
  by (simp add: graph_rel_add acyclic_insert reject_iff)

text \<open>A sequence of insertions, each refused or made.\<close>

fun add_all :: "('x \<times> 'v \<times> 'v) list \<Rightarrow> 'g \<Rightarrow> 'g" where
  "add_all [] g = g"
| "add_all ((x, f, t) # reqs) g = add_all reqs (if reject g f t then g else add x f t g)"

lemma add_all_acyclic: "acyclic (graph_rel g) \<Longrightarrow> acyclic (graph_rel (add_all reqs g))"
  by (induction reqs g rule: add_all.induct) (simp_all add: add_acyclic_iff)

lemma add_all_grows: "graph_rel g \<subseteq> graph_rel (add_all reqs g)"
  by (induction reqs g rule: add_all.induct) (auto simp: graph_rel_add split: if_splits)

end

definition append_edge :: "dependency_type \<Rightarrow> ident \<Rightarrow> ident \<Rightarrow> dag_edge list \<Rightarrow> dag_edge list" where
  "append_edge x f t es = es @ [\<lparr>from_task_id = f, to_task_id = t, edge_type = x\<rparr>]"

interpretation dag_guard: cycle_guard edge_rel wouldCreateCycle append_edge
  by unfold_locales (auto simp: wouldCreateCycle_path append_edge_def)

lemmas dag_defs [model_defs] =
  isGatingDependency_def requiredEvidenceKind_def hasRequiredEvidence_def incomingEdges_def
  isTaskUnlocked_def isBlockedByUpstream_def unlockedTaskIds_def

section \<open>Gates\<close>

lemma isTaskUnlocked_iff:
  "isTaskUnlocked incoming st \<longleftrightarrow>
     (\<forall>e \<in> set incoming. edge_type e \<noteq> DT_soft_context \<longrightarrow> st (from_task_id e) = Some TS_done)"
  by (auto simp: dag_defs list_all_iff)

lemma isBlockedByUpstream_iff:
  "isBlockedByUpstream incoming st \<longleftrightarrow>
     (\<exists>e \<in> set incoming. edge_type e \<noteq> DT_soft_context
        \<and> st (from_task_id e) \<in> {Some TS_blocked, Some TS_cancelled})"
  by (auto simp: dag_defs list_ex_iff)

lemma unlocked_not_blocked:
  "isTaskUnlocked incoming st \<Longrightarrow> \<not> isBlockedByUpstream incoming st"
  by (auto simp: isTaskUnlocked_iff isBlockedByUpstream_iff)

text \<open>
  Property C27. The cycle search terminates and is exact: it refuses an edge exactly when the
  dependent already reaches the prerequisite, so an edge may be added to an acyclic graph exactly
  when the search accepts it, and the graph stays acyclic.
\<close>

theorem cycle_guard_exact:
  assumes "acyclic (edge_rel edges)"
  shows "(wouldCreateCycle edges f t \<longleftrightarrow> (t, f) \<in> (edge_rel edges)\<^sup>*)
    \<and> (acyclic (edge_rel (append_edge ty f t edges)) \<longleftrightarrow> \<not> wouldCreateCycle edges f t)"
  using assms wouldCreateCycle_path dag_guard.add_acyclic_iff by blast

lemma cycle_guard_exact_witness:
  "acyclic (edge_rel [\<lparr>from_task_id = ''a'', to_task_id = ''b'', edge_type = DT_blocks\<rparr>])
    \<and> wouldCreateCycle [\<lparr>from_task_id = ''a'', to_task_id = ''b'', edge_type = DT_blocks\<rparr>] ''b'' ''a''
    \<and> \<not> acyclic (edge_rel (append_edge DT_blocks ''b'' ''a''
          [\<lparr>from_task_id = ''a'', to_task_id = ''b'', edge_type = DT_blocks\<rparr>]))"
proof -
  let ?es = "[\<lparr>from_task_id = ''a'', to_task_id = ''b'', edge_type = DT_blocks\<rparr>]"
  have "acyclic (edge_rel ?es)" by (simp add: acyclic_insert acyclic_def [of "{}"])
  moreover have "wouldCreateCycle ?es ''b'' ''a''"
    by (simp add: wouldCreateCycle_def successors_eq)
  ultimately show ?thesis
    using cycle_guard_exact [of ?es "''b''" "''a''" DT_blocks] by blast
qed



end
