(* ===== verification/Lease_Path.thy ===== *)
theory Lease_Path
  imports Dag "HOL-Library.Sublist"
begin

text \<open>
  \<open>packages/domain/src/lease.ts\<close>: the normal form of the paths a lease names, the overlap of two
  paths and the conflict of two leases.
\<close>

section \<open>Paths\<close>

datatype lease_mode = LM_read | LM_write

record lease_scope =
  ls_path :: string
  ls_mode :: lease_mode

abbreviation (input) slash :: char where "slash \<equiv> CHR ''/''"
abbreviation (input) backslash :: char where "backslash \<equiv> CHR 0x5C"
abbreviation (input) nul :: char where "nul \<equiv> CHR 0x00"

definition segments :: "string \<Rightarrow> string list" where
  "segments path = filter (\<lambda>s. 0 < length s) (split_on slash path)"

definition toPosix :: "string \<Rightarrow> string" where
  "toPosix p = map (\<lambda>c. if c = backslash then slash else c) p"

text \<open>\<open>/^[a-zA-Z]:/\<close>.\<close>

definition is_letter :: "char \<Rightarrow> bool" where
  "is_letter c = (let n = (of_char c :: nat) in (65 \<le> n \<and> n \<le> 90) \<or> (97 \<le> n \<and> n \<le> 122))"

fun has_drive :: "string \<Rightarrow> bool" where
  "has_drive (c # d # _) = (is_letter c \<and> d = CHR '':'')"
| "has_drive _ = False"

definition isAbsolutePosix :: "string \<Rightarrow> bool" where
  "isAbsolutePosix p = (has_drive p \<or> starts_with p ''/'')"

text \<open>\<open>replace(/\/+$/, "")\<close>.\<close>

definition strip_trailing_slashes :: "string \<Rightarrow> string" where
  "strip_trailing_slashes p = rev (dropWhile (\<lambda>c. c = slash) (rev p))"

text \<open>The loop that resolves \<open>.\<close> and \<open>..\<close>; the stack has its bottom first, as the array has.\<close>

fun resolve_segments :: "string list \<Rightarrow> string list \<Rightarrow> string list option" where
  "resolve_segments stack [] = Some stack"
| "resolve_segments stack (seg # rest) =
     (if seg = ''.'' then resolve_segments stack rest
      else if seg = ''..'' then
        (if length stack = 0 then None else resolve_segments (butlast stack) rest)
      else resolve_segments (stack @ [seg]) rest)"

definition relative_part :: "string \<Rightarrow> string \<Rightarrow> string option" where
  "relative_part wroot raw =
     (if isAbsolutePosix raw then
        (if raw = wroot then Some ''''
         else if wroot \<noteq> '''' \<and> starts_with raw (wroot @ ''/'') then Some (drop (length wroot + 1) raw)
         else None)
      else Some raw)"

definition normalizeLeasePath :: "string \<Rightarrow> string \<Rightarrow> string + string" where
  "normalizeLeasePath workspaceRoot rawPath =
     (if nul \<in> set rawPath \<or> nul \<in> set workspaceRoot then Inl ''path contains a null byte''
      else if trim rawPath = '''' then Inl ''path is empty''
      else
        (let wroot = to_lower (strip_trailing_slashes (toPosix workspaceRoot));
             raw = to_lower (toPosix rawPath)
         in case relative_part wroot raw of
              None \<Rightarrow> Inl ''absolute path escapes the workspace root''
            | Some relative \<Rightarrow>
                (case resolve_segments [] (segments relative) of
                   None \<Rightarrow> Inl ''path escapes the workspace root''
                 | Some stack \<Rightarrow> Inr (join ''/'' stack))))"

definition pathsOverlap :: "string \<Rightarrow> string \<Rightarrow> bool" where
  "pathsOverlap a b =
     (let sa = segments a; sb = segments b; shared = min (length sa) (length sb)
      in list_all (\<lambda>i. sa ! i = sb ! i) [0..<shared])"

definition leasesConflict :: "lease_scope \<Rightarrow> lease_scope \<Rightarrow> bool" where
  "leasesConflict a b =
     (pathsOverlap (ls_path a) (ls_path b) \<and> (ls_mode a = LM_write \<or> ls_mode b = LM_write))"

lemmas lease_path_defs [model_defs] =
  segments_def toPosix_def is_letter_def isAbsolutePosix_def strip_trailing_slashes_def
  relative_part_def normalizeLeasePath_def pathsOverlap_def leasesConflict_def

section \<open>Normal paths\<close>

definition proper_segment :: "string \<Rightarrow> bool" where
  "proper_segment s \<longleftrightarrow> s \<noteq> '''' \<and> s \<noteq> ''.'' \<and> s \<noteq> ''..'' \<and> slash \<notin> set s"

lemma segments_plain: "s \<in> set (segments p) \<Longrightarrow> s \<noteq> '''' \<and> slash \<notin> set s"
  by (auto simp: segments_def dest: split_on_no_sep)

lemma segments_subset: "s \<in> set (segments p) \<Longrightarrow> set s \<subseteq> set p"
  using split_on_subset by (fastforce simp: segments_def)

lemma resolve_segments_sub:
  "resolve_segments stack segs = Some q \<Longrightarrow> set q \<subseteq> set stack \<union> set segs"
proof (induction stack segs rule: resolve_segments.induct)
  case (2 stack seg rest)
  then show ?case by (fastforce split: if_splits dest: in_set_butlastD)
qed simp

lemma resolve_segments_proper:
  "resolve_segments stack segs = Some q \<Longrightarrow> \<forall>s \<in> set stack. proper_segment s \<Longrightarrow>
    \<forall>s \<in> set segs. s \<noteq> '''' \<and> slash \<notin> set s \<Longrightarrow> \<forall>s \<in> set q. proper_segment s"
proof (induction stack segs rule: resolve_segments.induct)
  case (2 stack seg rest)
  show ?case
  proof (cases "seg = ''.'' \<or> seg = ''..''")
    case True
    then show ?thesis using 2 by (auto split: if_splits dest: in_set_butlastD)
  next
    case False
    then have "proper_segment seg" using 2(6) by (simp add: proper_segment_def)
    then show ?thesis using 2 False by simp
  qed
qed simp

lemma segments_join: "\<forall>s \<in> set q. proper_segment s \<Longrightarrow> segments (join ''/'' q) = q"
proof (cases "q = []")
  case False
  assume proper: "\<forall>s \<in> set q. proper_segment s"
  then have "split_on slash (join ''/'' q) = q"
    using False by (intro split_on_join) (auto simp: proper_segment_def)
  then show ?thesis using proper by (auto simp: segments_def proper_segment_def)
qed (simp add: segments_def)

lemma normalize_segments:
  assumes "normalizeLeasePath wroot raw = Inr p"
  shows "\<exists>rel. relative_part (to_lower (strip_trailing_slashes (toPosix wroot))) (to_lower (toPosix raw)) = Some rel
    \<and> resolve_segments [] (segments rel) = Some (segments p) \<and> p = join ''/'' (segments p)
    \<and> (\<forall>s \<in> set (segments p). proper_segment s)"
proof -
  from assms obtain rel q where
    rel: "relative_part (to_lower (strip_trailing_slashes (toPosix wroot))) (to_lower (toPosix raw)) = Some rel"
    and q: "resolve_segments [] (segments rel) = Some q" and p: "p = join ''/'' q"
    by (auto simp: normalizeLeasePath_def Let_def split: if_splits option.splits)
  have "\<forall>s \<in> set q. proper_segment s"
    using resolve_segments_proper [OF q] segments_plain by auto
  with segments_join [of q] rel q p show ?thesis by auto
qed

text \<open>
  The reference for the resolution: walking the segments from a directory \<open>R\<close> in a file tree,
  where \<open>..\<close> goes to the parent. The loop accepts exactly the walks no prefix of which leaves
  \<open>R\<close>, and computes where they end.
\<close>

fun walk :: "string list \<Rightarrow> string list \<Rightarrow> string list" where
  "walk dir [] = dir"
| "walk dir (seg # rest) =
     walk (if seg = ''.'' then dir else if seg = ''..'' then butlast dir else dir @ [seg]) rest"

lemma resolve_walk: "resolve_segments stack segs = Some q \<Longrightarrow> walk (R @ stack) segs = R @ q"
proof (induction stack segs rule: resolve_segments.induct)
  case (2 stack seg rest)
  then show ?case by (auto split: if_splits simp: butlast_append)
qed simp

lemma resolve_prefix: "resolve_segments stack (pre @ post) = Some q \<Longrightarrow> \<exists>q'. resolve_segments stack pre = Some q'"
proof (induction stack pre rule: resolve_segments.induct)
  case (2 stack seg rest)
  then show ?case by (auto split: if_splits)
qed simp

lemma resolve_None_escapes:
  "resolve_segments stack segs = None \<Longrightarrow> R \<noteq> [] \<Longrightarrow> \<exists>pre post. segs = pre @ post \<and> \<not> prefix R (walk (R @ stack) pre)"
proof (induction stack segs rule: resolve_segments.induct)
  case (2 stack seg rest)
  show ?case
  proof (cases "seg = ''..'' \<and> stack = []")
    case True
    then have "\<not> prefix R (walk (R @ stack) [seg])"
      using 2(5) by (cases R rule: rev_cases) (auto dest: prefix_length_le)
    then show ?thesis by (metis append_Cons append_Nil)
  next
    case False
    let ?next = "if seg = ''.'' then stack else if seg = ''..'' then butlast stack else stack @ [seg]"
    have "resolve_segments ?next rest = None" using 2(4) False by (auto split: if_splits)
    then obtain pre post where "rest = pre @ post" "\<not> prefix R (walk (R @ ?next) pre)"
      using 2 False by (cases "seg = ''.''"; cases "seg = ''..''") auto
    moreover have "walk (R @ stack) (seg # pre) = walk (R @ ?next) pre"
      using False by (auto simp: butlast_append)
    ultimately show ?thesis by (metis append_Cons)
  qed
qed simp

lemma resolve_iff_inside:
  assumes "R \<noteq> []"
  shows "resolve_segments [] segs \<noteq> None \<longleftrightarrow> (\<forall>pre post. segs = pre @ post \<longrightarrow> prefix R (walk R pre))"
proof
  assume some: "resolve_segments [] segs \<noteq> None"
  show "\<forall>pre post. segs = pre @ post \<longrightarrow> prefix R (walk R pre)"
  proof (intro allI impI)
    fix pre post
    assume "segs = pre @ post"
    with some obtain q where "resolve_segments [] pre = Some q" using resolve_prefix by blast
    from resolve_walk [OF this, of R] show "prefix R (walk R pre)" by simp
  qed
next
  assume "\<forall>pre post. segs = pre @ post \<longrightarrow> prefix R (walk R pre)"
  then show "resolve_segments [] segs \<noteq> None"
    using resolve_None_escapes [of "[]" segs R] assms by auto
qed



lemma set_join: "c \<in> set (join sep xs) \<Longrightarrow> c \<in> set sep \<or> (\<exists>x \<in> set xs. c \<in> set x)"
  by (induction sep xs rule: join.induct) auto

lemma relative_part_subset: "relative_part w raw = Some rel \<Longrightarrow> set rel \<subseteq> set raw"
  by (auto simp: relative_part_def split: if_splits dest: in_set_dropD)

lemma to_lower_fix_iff: "to_lower s = s \<longleftrightarrow> (\<forall>c \<in> set s. lower_char c = c)"
  by (induction s) (auto simp: to_lower_def)

lemma lower_slash [simp]: "lower_char slash = slash"
  by code_simp

lemma lower_backslash_iff: "lower_char c = backslash \<longleftrightarrow> c = backslash"
proof
  assume "lower_char c = backslash"
  then have "(of_char (lower_char c) :: nat) = 92" by simp
  then have "(of_char c :: nat) = of_char backslash"
    by (auto simp: lower_char_code Let_def split: if_splits)
  then show "c = backslash" by (simp only: of_char_eq_iff)
next
  have "lower_char backslash = backslash" by code_simp
  then show "lower_char c = backslash" if "c = backslash" using that by simp
qed

text \<open>
  An accepted path is in normal form: its segments are neither empty nor \<open>.\<close> nor
  \<open>..\<close>, it is the join of them, it has no backslash and it is its own lower case.
\<close>

theorem normalizeLeasePath_normal:
  assumes "normalizeLeasePath wroot raw = Inr p"
  shows "(\<forall>s \<in> set (segments p). s \<noteq> '''' \<and> s \<noteq> ''.'' \<and> s \<noteq> ''..'')
    \<and> p = join ''/'' (segments p) \<and> backslash \<notin> set p \<and> to_lower p = p"
proof -
  let ?raw = "to_lower (toPosix raw)"
  obtain rel where rel: "relative_part (to_lower (strip_trailing_slashes (toPosix wroot))) ?raw = Some rel"
    and q: "resolve_segments [] (segments rel) = Some (segments p)" and p: "p = join ''/'' (segments p)"
    and proper: "\<forall>s \<in> set (segments p). proper_segment s"
    using normalize_segments [OF assms] by blast
  have sub: "set s \<subseteq> set ?raw" if "s \<in> set (segments p)" for s
    using resolve_segments_sub [OF q] segments_subset relative_part_subset [OF rel] that by fastforce
  have chars: "c = slash \<or> c \<in> set ?raw" if "c \<in> set p" for c
    using that set_join [of c "''/''" "segments p"] sub p by auto
  have "backslash \<notin> set ?raw"
  proof
    assume "backslash \<in> set ?raw"
    then obtain c where "lower_char (if c = backslash then slash else c) = backslash"
      unfolding to_lower_def toPosix_def set_map by (elim imageE) metis
    then show False by (simp only: lower_backslash_iff) (simp split: if_splits)
  qed
  moreover have "lower_char c = c" if "c \<in> set ?raw" for c
    using that by (auto simp: to_lower_def)
  ultimately show ?thesis
    using chars proper p by (fastforce simp: to_lower_fix_iff proper_segment_def)
qed

lemma normalizeLeasePath_normal_witness:
  "normalizeLeasePath ''/w'' ''Src//x/../b/'' = Inr ''src/b'' \<and> ''..'' \<notin> set (segments ''src/b'')
    \<and> ''src/b'' = join ''/'' (segments ''src/b'') \<and> to_lower ''src/b'' = ''src/b''"
proof -
  have eval: "normalizeLeasePath ''/w'' ''Src//x/../b/'' = Inr ''src/b''" by code_simp
  from normalizeLeasePath_normal [OF eval] eval show ?thesis by blast
qed

section \<open>Overlap and conflict\<close>

lemma nth_prefix_iff: "length xs \<le> length ys \<Longrightarrow> (\<forall>i < length xs. xs ! i = ys ! i) \<longleftrightarrow> prefix xs ys"
proof (induction xs arbitrary: ys)
  case (Cons x xs)
  then obtain y zs where ys: "ys = y # zs" by (cases ys) auto
  have "(\<forall>i < length (x # xs). (x # xs) ! i = ys ! i) \<longleftrightarrow> x = y \<and> (\<forall>i < length xs. xs ! i = zs ! i)"
    unfolding ys by (simp add: All_less_Suc2)
  then show ?case using Cons ys by simp
qed simp

lemma pathsOverlap_iff: "pathsOverlap a b \<longleftrightarrow> prefix (segments a) (segments b) \<or> prefix (segments b) (segments a)"
proof (cases "length (segments a) \<le> length (segments b)")
  case True
  then have "pathsOverlap a b \<longleftrightarrow> prefix (segments a) (segments b)"
    using nth_prefix_iff [OF True] by (auto simp: pathsOverlap_def Let_def list_all_iff min_def)
  then show ?thesis using True by (auto simp: prefix_def)
next
  case False
  then have le: "length (segments b) \<le> length (segments a)" by simp
  have "pathsOverlap a b \<longleftrightarrow> prefix (segments b) (segments a)"
    using nth_prefix_iff [OF le] False by (auto simp: pathsOverlap_def Let_def list_all_iff min_def)
  then show ?thesis using False by (auto simp: prefix_def)
qed

lemma pathsOverlap_sym: "pathsOverlap a b = pathsOverlap b a"
  by (auto simp: pathsOverlap_iff)

lemma leasesConflict_sym: "leasesConflict a b = leasesConflict b a"
  by (auto simp: leasesConflict_def pathsOverlap_sym)

text \<open>
  What the lease service relies on: a symmetric conflict, checked against everything held before
  a lease is granted. Whatever is requested, what is held stays pairwise free of conflict.
\<close>

locale conflict_gate =
  fixes conflict :: "'a \<Rightarrow> 'a \<Rightarrow> bool"
  assumes conflict_sym: "conflict a b \<longleftrightarrow> conflict b a"
begin

definition exclusive :: "'a list \<Rightarrow> bool" where
  "exclusive held = sorted_wrt (\<lambda>a b. \<not> conflict a b) held"

definition free :: "'a list \<Rightarrow> 'a \<Rightarrow> bool" where
  "free held x \<longleftrightarrow> (\<forall>h \<in> set held. \<not> conflict x h)"

lemma exclusive_Nil [simp]: "exclusive []"
  by (simp add: exclusive_def)

lemma exclusive_append:
  "exclusive (xs @ ys) \<longleftrightarrow> exclusive xs \<and> exclusive ys \<and> (\<forall>x \<in> set xs. \<forall>y \<in> set ys. \<not> conflict x y)"
  by (simp add: exclusive_def sorted_wrt_append)

lemma exclusive_snoc: "exclusive (held @ [x]) \<longleftrightarrow> exclusive held \<and> free held x"
proof -
  have "exclusive [x]" by (simp add: exclusive_def)
  then show ?thesis using conflict_sym [of x] by (auto simp: exclusive_append free_def)
qed

lemma exclusive_filter: "exclusive held \<Longrightarrow> exclusive (filter P held)"
  by (simp add: exclusive_def sorted_wrt_filter)

lemma exclusive_pair:
  assumes "exclusive held" "i < length held" "j < length held" "i \<noteq> j"
  shows "\<not> conflict (held ! i) (held ! j)"
  using assms conflict_sym [of "held ! i" "held ! j"]
  by (auto simp: exclusive_def sorted_wrt_iff_nth_less neq_iff)

end

interpretation lease_gate: conflict_gate leasesConflict
  by unfold_locales (rule leasesConflict_sym)

lemma split_on_append_sep: "split_on c (d @ c # p) = split_on c d @ split_on c p"
proof (induction d)
  case (Cons x d)
  then show ?case by (cases "split_on c d") auto
qed simp

lemma segments_append: "segments (d @ slash # p) = segments d @ segments p"
  by (simp add: segments_def split_on_append_sep)

text \<open>
  Property C32. Two leases conflict exactly when the segments of one path are a prefix of the
  other's and one of the leases writes; the relation is symmetric, the root overlaps every path
  and a directory overlaps everything below it.
\<close>

theorem leasesConflict_spec:
  "(leasesConflict a b \<longleftrightarrow>
      (prefix (segments (ls_path a)) (segments (ls_path b)) \<or> prefix (segments (ls_path b)) (segments (ls_path a)))
      \<and> (ls_mode a = LM_write \<or> ls_mode b = LM_write))
   \<and> leasesConflict a b = leasesConflict b a
   \<and> pathsOverlap '''' p \<and> pathsOverlap d (d @ ''/'' @ p)"
proof -
  have "segments '''' = []" by (simp add: segments_def)
  then show ?thesis
    using leasesConflict_sym by (auto simp: leasesConflict_def pathsOverlap_iff segments_append)
qed

end
