(* ===== verification/Goal_Control.thy ===== *)
theory Goal_Control
  imports Goal_State "HOL-Library.Multiset"
begin

text \<open>
  The pure control logic of a goal: \<open>packages/domain/src/budget.ts\<close>, which decides which budgets
  a usage exceeds and the stop action that follows, and \<open>packages/domain/src/resume.ts\<close>, which
  reconciles the runs a checkpoint recorded with their current rows.
\<close>

section \<open>Budgets\<close>

datatype budget_kind = BK_max_elapsed_ms | BK_max_cost_usd | BK_max_retries | BK_max_concurrent_runs

record budget_usage =
  elapsed_ms :: "rat option"
  cost_usd :: "rat option"
  retry_count :: "rat option"
  concurrent_runs :: "rat option"

record budget_violation =
  bv_budget :: budget_kind
  bv_limit :: rat
  bv_actual :: rat

datatype budget_action = BA_pause | BA_cancel | BA_notify | BA_none

text \<open>The closure \<open>check\<close>, which pushes onto \<open>violations\<close>.\<close>

definition check_budget ::
  "budget_kind \<Rightarrow> rat option \<Rightarrow> rat option \<Rightarrow> budget_violation list \<Rightarrow> budget_violation list" where
  "check_budget budget limit actual violations =
     (case limit of
        None \<Rightarrow> violations
      | Some l \<Rightarrow>
          (let value = (case actual of None \<Rightarrow> 0 | Some v \<Rightarrow> v)
           in if l < value then violations @ [\<lparr>bv_budget = budget, bv_limit = l, bv_actual = value\<rparr>]
              else violations))"

definition evaluateBudget :: "goal_budgets \<Rightarrow> budget_usage \<Rightarrow> budget_violation list" where
  "evaluateBudget budgets usage =
     (let v0 = [];
          v1 = check_budget BK_max_elapsed_ms (max_elapsed_ms budgets) (elapsed_ms usage) v0;
          v2 = check_budget BK_max_cost_usd (max_cost_usd budgets) (cost_usd usage) v1;
          v3 = check_budget BK_max_retries (max_retries budgets) (retry_count usage) v2;
          v4 = check_budget BK_max_concurrent_runs (max_concurrent_runs budgets) (concurrent_runs usage) v3
      in v4)"

definition isRuntimeAllowed :: "goal_budgets \<Rightarrow> string \<Rightarrow> bool" where
  "isRuntimeAllowed budgets runtimeId =
     (case allowed_runtimes budgets of None \<Rightarrow> True | Some rs \<Rightarrow> List.member rs runtimeId)"

fun ACTION_SEVERITY :: "budget_action \<Rightarrow> nat" where
  "ACTION_SEVERITY BA_cancel = 3"
| "ACTION_SEVERITY BA_pause = 2"
| "ACTION_SEVERITY BA_notify = 1"
| "ACTION_SEVERITY BA_none = 0"

text \<open>A rule's action as a \<open>BudgetAction\<close>.\<close>

fun rule_action :: "stop_rule_action \<Rightarrow> budget_action" where
  "rule_action SA_pause = BA_pause"
| "rule_action SA_cancel = BA_cancel"
| "rule_action SA_notify = BA_notify"

definition strongest :: "stop_rule list \<Rightarrow> budget_action \<Rightarrow> budget_action" where
  "strongest rules action =
     fold (\<lambda>rule act. if ACTION_SEVERITY act < ACTION_SEVERITY (rule_action (sr_action rule))
                     then rule_action (sr_action rule) else act) rules action"

definition budgetStopAction :: "budget_violation list \<Rightarrow> stop_conditions \<Rightarrow> budget_action" where
  "budgetStopAction violations stopConditions =
     (if length violations = 0 then BA_none
      else
        (let budgetRules = filter (\<lambda>r. sr_type r = SR_budget_exceeded) (sc_rules stopConditions)
         in if length budgetRules = 0 then BA_pause else strongest budgetRules BA_notify))"

definition evaluateBudgetAction ::
  "goal_budgets \<Rightarrow> budget_usage \<Rightarrow> stop_conditions \<Rightarrow> budget_violation list \<times> budget_action" where
  "evaluateBudgetAction budgets usage stopConditions =
     (let violations = evaluateBudget budgets usage
      in (violations, budgetStopAction violations stopConditions))"

lemmas budget_defs [model_defs] =
  check_budget_def evaluateBudget_def isRuntimeAllowed_def strongest_def budgetStopAction_def
  evaluateBudgetAction_def

subsection \<open>Correctness\<close>

fun limit_of :: "goal_budgets \<Rightarrow> budget_kind \<Rightarrow> rat option" where
  "limit_of b BK_max_elapsed_ms = max_elapsed_ms b"
| "limit_of b BK_max_cost_usd = max_cost_usd b"
| "limit_of b BK_max_retries = max_retries b"
| "limit_of b BK_max_concurrent_runs = max_concurrent_runs b"

fun usage_of :: "budget_usage \<Rightarrow> budget_kind \<Rightarrow> rat" where
  "usage_of u BK_max_elapsed_ms = (case elapsed_ms u of None \<Rightarrow> 0 | Some v \<Rightarrow> v)"
| "usage_of u BK_max_cost_usd = (case cost_usd u of None \<Rightarrow> 0 | Some v \<Rightarrow> v)"
| "usage_of u BK_max_retries = (case retry_count u of None \<Rightarrow> 0 | Some v \<Rightarrow> v)"
| "usage_of u BK_max_concurrent_runs = (case concurrent_runs u of None \<Rightarrow> 0 | Some v \<Rightarrow> v)"

lemma set_check_budget:
  "set (check_budget k lm act vs) =
     set vs \<union> {v. bv_budget v = k \<and> lm = Some (bv_limit v)
                  \<and> bv_actual v = (case act of None \<Rightarrow> 0 | Some x \<Rightarrow> x) \<and> bv_limit v < bv_actual v}"
  by (cases lm) (auto simp: check_budget_def Let_def)

lemma evaluateBudget_exact:
  "v \<in> set (evaluateBudget b u) \<longleftrightarrow>
     limit_of b (bv_budget v) = Some (bv_limit v) \<and> bv_actual v = usage_of u (bv_budget v)
     \<and> bv_limit v < bv_actual v"
  by (cases "bv_budget v") (auto simp: evaluateBudget_def Let_def set_check_budget)

lemma evaluateBudget_empty_iff:
  "evaluateBudget b u = [] \<longleftrightarrow> (\<forall>k l. limit_of b k = Some l \<longrightarrow> usage_of u k \<le> l)"
proof -
  have "evaluateBudget b u = [] \<longleftrightarrow> (\<forall>v. v \<notin> set (evaluateBudget b u))" by auto
  also have "\<dots> \<longleftrightarrow> (\<forall>k l. limit_of b k = Some l \<longrightarrow> usage_of u k \<le> l)"
    unfolding evaluateBudget_exact
    by (metis (no_types, lifting) budget_violation.select_convs not_le)
  finally show ?thesis .
qed

lemma strongest_severity:
  "ACTION_SEVERITY (strongest rules act) =
     fold max (map (\<lambda>r. ACTION_SEVERITY (rule_action (sr_action r))) rules) (ACTION_SEVERITY act)"
proof (induction rules arbitrary: act)
  case (Cons r rules)
  have "strongest (r # rules) act =
     strongest rules (if ACTION_SEVERITY act < ACTION_SEVERITY (rule_action (sr_action r))
                     then rule_action (sr_action r) else act)"
    by (simp add: strongest_def)
  then show ?case by (simp add: Cons.IH max_def)
qed (simp add: strongest_def)

lemma strongest_cases:
  "strongest rules act = act \<or> (\<exists>r \<in> set rules. strongest rules act = rule_action (sr_action r))"
proof (induction rules arbitrary: act)
  case (Cons r rules)
  have "strongest (r # rules) act =
     strongest rules (if ACTION_SEVERITY act < ACTION_SEVERITY (rule_action (sr_action r))
                     then rule_action (sr_action r) else act)"
    by (simp add: strongest_def)
  then show ?case using Cons.IH by (metis list.set_intros)
qed (simp add: strongest_def)

lemma fold_max_ge: "n \<le> fold max ns (n :: nat) \<and> (\<forall>m \<in> set ns. m \<le> fold max ns n)"
proof (induction ns arbitrary: n)
  case (Cons m ns)
  show ?case using Cons [of "max m n"] by auto
qed simp

lemma strongest_upper:
  "r \<in> set rules \<Longrightarrow> ACTION_SEVERITY (rule_action (sr_action r)) \<le> ACTION_SEVERITY (strongest rules act)"
  using fold_max_ge unfolding strongest_severity by fastforce

lemma severity_notify_least: "ACTION_SEVERITY (rule_action a) \<le> 1 \<Longrightarrow> rule_action a = BA_notify"
  by (cases a) simp_all

lemma strongest_attained:
  assumes "rules \<noteq> []"
  shows "\<exists>r \<in> set rules. strongest rules BA_notify = rule_action (sr_action r)"
proof (cases "strongest rules BA_notify = BA_notify")
  case True
  then show ?thesis
    using assms strongest_upper [of "hd rules" rules BA_notify]
    by (intro bexI [of _ "hd rules"]) (simp_all add: severity_notify_least)
qed (use strongest_cases in blast)

lemma rule_action_not_none [simp]: "rule_action a \<noteq> BA_none"
  by (cases a) simp_all

text \<open>
  The stop action is \<open>none\<close> exactly when no budget is exceeded, i.e. every set limit
  is at least the usage (an unknown usage counting as zero); otherwise, without a budget rule it is
  \<open>pause\<close>, and with budget rules it is the action of one of them and at least as severe as the
  action of every one of them.
\<close>

theorem budget_action_spec:
  "fst (evaluateBudgetAction b u sc) = evaluateBudget b u
    \<and> (snd (evaluateBudgetAction b u sc) = BA_none \<longleftrightarrow> (\<forall>k l. limit_of b k = Some l \<longrightarrow> usage_of u k \<le> l))
    \<and> (snd (evaluateBudgetAction b u sc) \<noteq> BA_none \<longrightarrow>
        (if \<forall>r \<in> set (sc_rules sc). sr_type r \<noteq> SR_budget_exceeded
         then snd (evaluateBudgetAction b u sc) = BA_pause
         else (\<exists>r \<in> set (sc_rules sc). sr_type r = SR_budget_exceeded
                 \<and> snd (evaluateBudgetAction b u sc) = rule_action (sr_action r))
              \<and> (\<forall>r \<in> set (sc_rules sc). sr_type r = SR_budget_exceeded \<longrightarrow>
                   ACTION_SEVERITY (rule_action (sr_action r)) \<le> ACTION_SEVERITY (snd (evaluateBudgetAction b u sc)))))"
proof (cases "evaluateBudget b u = []")
  case True
  then show ?thesis
    using evaluateBudget_empty_iff [of b u] by (simp add: evaluateBudgetAction_def budgetStopAction_def Let_def)
next
  case False
  let ?rs = "filter (\<lambda>r. sr_type r = SR_budget_exceeded) (sc_rules sc)"
  have none: "\<not> (\<forall>k l. limit_of b k = Some l \<longrightarrow> usage_of u k \<le> l)"
    using False evaluateBudget_empty_iff by blast
  show ?thesis
  proof (cases "?rs = []")
    case True
    with False none show ?thesis
      by (auto simp: evaluateBudgetAction_def budgetStopAction_def Let_def filter_empty_conv)
  next
    case some: False
    have act: "snd (evaluateBudgetAction b u sc) = strongest ?rs BA_notify"
      using False some by (simp add: evaluateBudgetAction_def budgetStopAction_def Let_def)
    obtain r where r: "r \<in> set ?rs" "strongest ?rs BA_notify = rule_action (sr_action r)"
      using strongest_attained [OF some] by blast
    have upper: "\<forall>r \<in> set ?rs. ACTION_SEVERITY (rule_action (sr_action r))
        \<le> ACTION_SEVERITY (strongest ?rs BA_notify)"
      using strongest_upper by blast
    have "fst (evaluateBudgetAction b u sc) = evaluateBudget b u"
      by (simp add: evaluateBudgetAction_def Let_def)
    moreover have "snd (evaluateBudgetAction b u sc) \<noteq> BA_none"
      using act r by simp
    ultimately show ?thesis using none act r upper by auto
  qed
qed

section \<open>Resuming from a checkpoint\<close>

definition TERMINAL_RUN_STATUSES :: "run_status list" where
  "TERMINAL_RUN_STATUSES = [RS_completed, RS_failed, RS_cancelled]"

definition isTerminalRunStatus :: "run_status \<Rightarrow> bool" where
  "isTerminalRunStatus s = List.member TERMINAL_RUN_STATUSES s"

datatype resume_blocker_type = RB_failed_run | RB_stale_runtime

datatype run_resume_outcome =
    RO_continue | RO_completed | RO_failed_blocker | RO_stale_blocker | RO_missing_blocker

record run_resume_fact =
  rf_run_id :: ident
  rf_status :: "run_status option"
  rf_updated_since_checkpoint :: bool

definition reconcileRun :: "run_resume_fact \<Rightarrow> run_resume_outcome" where
  "reconcileRun f =
     (case rf_status f of
        None \<Rightarrow> RO_missing_blocker
      | Some s \<Rightarrow>
          if s = RS_completed then RO_completed
          else if s = RS_failed \<or> s = RS_cancelled then RO_failed_blocker
          else if rf_updated_since_checkpoint f then RO_continue else RO_stale_blocker)"

record resume_blocker =
  rb_run_id :: ident
  rb_type :: resume_blocker_type
  rb_reason :: run_resume_outcome

record resume_evaluation =
  continue_runs :: "ident list"
  completed_runs :: "ident list"
  blockers :: "resume_blocker list"
  safe_to_resume :: bool

text \<open>The table has entries for the three blocker outcomes only; the loop asks for no other.\<close>

fun BLOCKER_TYPE_BY_OUTCOME :: "run_resume_outcome \<Rightarrow> resume_blocker_type option" where
  "BLOCKER_TYPE_BY_OUTCOME RO_failed_blocker = Some RB_failed_run"
| "BLOCKER_TYPE_BY_OUTCOME RO_stale_blocker = Some RB_stale_runtime"
| "BLOCKER_TYPE_BY_OUTCOME RO_missing_blocker = Some RB_failed_run"
| "BLOCKER_TYPE_BY_OUTCOME _ = None"

definition resume_lookup :: "(ident \<Rightarrow> run_resume_fact option) \<Rightarrow> ident \<Rightarrow> run_resume_fact" where
  "resume_lookup facts runId =
     (case facts runId of
        Some f \<Rightarrow> f
      | None \<Rightarrow> \<lparr>rf_run_id = runId, rf_status = None, rf_updated_since_checkpoint = False\<rparr>)"

definition resume_step ::
  "(ident \<Rightarrow> run_resume_fact option) \<Rightarrow> ident \<Rightarrow> ident list \<times> ident list \<times> resume_blocker list
     \<Rightarrow> ident list \<times> ident list \<times> resume_blocker list" where
  "resume_step facts runId acc =
     (case acc of (cont, fin, bl) \<Rightarrow>
        (let outcome = reconcileRun (resume_lookup facts runId) in
         if outcome = RO_continue then (cont @ [runId], fin, bl)
         else if outcome = RO_completed then (cont, fin @ [runId], bl)
         else (case BLOCKER_TYPE_BY_OUTCOME outcome of
                 None \<Rightarrow> (cont, fin, bl)
               | Some ty \<Rightarrow> (cont, fin, bl @ [\<lparr>rb_run_id = runId, rb_type = ty, rb_reason = outcome\<rparr>]))))"

definition evaluateResume ::
  "ident list \<Rightarrow> (ident \<Rightarrow> run_resume_fact option) \<Rightarrow> resume_evaluation" where
  "evaluateResume active_runs facts =
     (case fold (resume_step facts) active_runs ([], [], []) of
        (cont, fin, bl) \<Rightarrow>
          \<lparr>continue_runs = cont, completed_runs = fin, blockers = bl, safe_to_resume = (length bl = 0)\<rparr>)"

text \<open>\<open>RunStatusSchema.safeParse\<close> on a raw string.\<close>

fun run_status_text :: "run_status \<Rightarrow> string" where
  "run_status_text RS_queued = ''queued''"
| "run_status_text RS_starting = ''starting''"
| "run_status_text RS_running = ''running''"
| "run_status_text RS_awaiting_input = ''awaiting_input''"
| "run_status_text RS_paused = ''paused''"
| "run_status_text RS_completed = ''completed''"
| "run_status_text RS_failed = ''failed''"
| "run_status_text RS_cancelled = ''cancelled''"

definition RUN_STATUSES :: "run_status list" where
  "RUN_STATUSES = [RS_queued, RS_starting, RS_running, RS_awaiting_input, RS_paused,
     RS_completed, RS_failed, RS_cancelled]"

definition asRunStatus :: "string \<Rightarrow> run_status option" where
  "asRunStatus value = find (\<lambda>s. run_status_text s = value) RUN_STATUSES"

lemmas resume_defs [model_defs] =
  reconcileRun_def resume_lookup_def resume_step_def evaluateResume_def RUN_STATUSES_def asRunStatus_def

lemma asRunStatus_text [simp]: "asRunStatus (run_status_text s) = Some s"
  by (cases s) (simp_all add: asRunStatus_def RUN_STATUSES_def)

lemma isTerminalRunStatus_isRunTerminal: "isTerminalRunStatus s = isRunTerminal s"
  by (cases s) (simp_all add: isTerminalRunStatus_def TERMINAL_RUN_STATUSES_def run_machine_defs)

definition run_outcome :: "(ident \<Rightarrow> run_resume_fact option) \<Rightarrow> ident \<Rightarrow> run_resume_outcome" where
  "run_outcome facts r = reconcileRun (resume_lookup facts r)"

definition outcome_blocker :: "(ident \<Rightarrow> run_resume_fact option) \<Rightarrow> ident \<Rightarrow> resume_blocker" where
  "outcome_blocker facts r =
     \<lparr>rb_run_id = r, rb_type = the (BLOCKER_TYPE_BY_OUTCOME (run_outcome facts r)),
      rb_reason = run_outcome facts r\<rparr>"

lemma resume_step_outcome:
  "resume_step facts r (c, d, bl) =
     (if run_outcome facts r = RO_continue then (c @ [r], d, bl)
      else if run_outcome facts r = RO_completed then (c, d @ [r], bl)
      else (c, d, bl @ [outcome_blocker facts r]))"
  by (cases "run_outcome facts r") (simp_all add: resume_step_def run_outcome_def outcome_blocker_def Let_def)

lemma fold_resume_step:
  "fold (resume_step facts) rs (c, d, bl) =
     (c @ filter (\<lambda>r. run_outcome facts r = RO_continue) rs,
      d @ filter (\<lambda>r. run_outcome facts r = RO_completed) rs,
      bl @ map (outcome_blocker facts) (filter (\<lambda>r. run_outcome facts r \<notin> {RO_continue, RO_completed}) rs))"
proof (induction rs arbitrary: c d bl)
  case (Cons r rs)
  then show ?case by (simp add: resume_step_outcome)
qed simp

lemma run_outcome_fine:
  "run_outcome facts r \<in> {RO_continue, RO_completed} \<longleftrightarrow>
     (\<exists>f s. facts r = Some f \<and> rf_status f = Some s
            \<and> (s = RS_completed \<or> (\<not> isRunTerminal s \<and> rf_updated_since_checkpoint f)))"
proof (cases "facts r")
  case (Some f)
  show ?thesis
  proof (cases "rf_status f")
    case st: (Some s)
    show ?thesis using Some st
      by (cases s) (simp_all add: run_outcome_def reconcileRun_def resume_lookup_def run_machine_defs)
  qed (use Some in \<open>simp add: run_outcome_def reconcileRun_def resume_lookup_def\<close>)
qed (simp add: run_outcome_def reconcileRun_def resume_lookup_def)

lemma mset_three_way:
  "mset (filter P xs) + mset (filter (\<lambda>x. \<not> P x \<and> Q x) xs) + mset (filter (\<lambda>x. \<not> P x \<and> \<not> Q x) xs) = mset xs"
  by (induction xs) auto

text \<open>
  A resume loses no run and invents none: every recorded run ends up, in the order
  recorded, as continuing, completed or blocked, and resuming is safe exactly when every recorded
  run has a row that completed, or is live and has moved since the checkpoint.
\<close>

theorem evaluateResume_partition:
  "mset (continue_runs (evaluateResume rs facts)) + mset (completed_runs (evaluateResume rs facts))
      + mset (map rb_run_id (blockers (evaluateResume rs facts))) = mset rs
   \<and> (safe_to_resume (evaluateResume rs facts) \<longleftrightarrow>
        (\<forall>r \<in> set rs. \<exists>f s. facts r = Some f \<and> rf_status f = Some s
            \<and> (s = RS_completed \<or> (\<not> isRunTerminal s \<and> rf_updated_since_checkpoint f))))"
proof
  have ids: "map rb_run_id (map (outcome_blocker facts) xs) = xs" for xs
    by (simp add: comp_def outcome_blocker_def)
  have "filter (\<lambda>r. run_outcome facts r = RO_completed) rs
      = filter (\<lambda>r. run_outcome facts r \<noteq> RO_continue \<and> run_outcome facts r = RO_completed) rs"
    by (rule filter_cong) auto
  then show "mset (continue_runs (evaluateResume rs facts)) + mset (completed_runs (evaluateResume rs facts))
      + mset (map rb_run_id (blockers (evaluateResume rs facts))) = mset rs"
    using mset_three_way [of "\<lambda>r. run_outcome facts r = RO_continue" rs "\<lambda>r. run_outcome facts r = RO_completed"]
    by (simp only: evaluateResume_def fold_resume_step) (simp add: ids del: map_map)
  show "safe_to_resume (evaluateResume rs facts) \<longleftrightarrow>
        (\<forall>r \<in> set rs. \<exists>f s. facts r = Some f \<and> rf_status f = Some s
            \<and> (s = RS_completed \<or> (\<not> isRunTerminal s \<and> rf_updated_since_checkpoint f)))"
    unfolding run_outcome_fine [symmetric]
    by (auto simp: evaluateResume_def fold_resume_step filter_empty_conv)
qed

lemma budget_action_spec_witness:
  "let b = \<lparr>max_elapsed_ms = None, max_cost_usd = Some 1, max_retries = None, max_concurrent_runs = None,
            allowed_runtimes = None\<rparr>;
       u = \<lparr>elapsed_ms = None, cost_usd = Some 2, retry_count = None, concurrent_runs = None\<rparr>
   in snd (evaluateBudgetAction b u \<lparr>sc_rules = []\<rparr>) = BA_pause"
proof -
  define b where "b = \<lparr>max_elapsed_ms = None, max_cost_usd = Some 1, max_retries = None,
     max_concurrent_runs = None, allowed_runtimes = None\<rparr>"
  define u where "u = \<lparr>elapsed_ms = None, cost_usd = Some (2 :: rat), retry_count = None, concurrent_runs = None\<rparr>"
  have "\<not> (\<forall>k l. limit_of b k = Some l \<longrightarrow> usage_of u k \<le> l)"
    by (auto simp: b_def u_def intro!: exI [of _ BK_max_cost_usd])
  then show ?thesis
    using budget_action_spec [of b u "\<lparr>sc_rules = []\<rparr>"] by (simp add: Let_def flip: b_def u_def)
qed

definition demo_resume_facts :: "ident \<Rightarrow> run_resume_fact option" where
  "demo_resume_facts r =
     (if r = ''a'' then Some \<lparr>rf_run_id = r, rf_status = Some RS_completed, rf_updated_since_checkpoint = False\<rparr>
      else if r = ''b'' then Some \<lparr>rf_run_id = r, rf_status = Some RS_failed, rf_updated_since_checkpoint = True\<rparr>
      else None)"

lemma evaluateResume_partition_witness:
  "mset (continue_runs (evaluateResume [''a'', ''b''] demo_resume_facts))
      + mset (completed_runs (evaluateResume [''a'', ''b''] demo_resume_facts))
      + mset (map rb_run_id (blockers (evaluateResume [''a'', ''b''] demo_resume_facts))) = mset [''a'', ''b'']
   \<and> \<not> safe_to_resume (evaluateResume [''a'', ''b''] demo_resume_facts)
   \<and> safe_to_resume (evaluateResume [''a''] demo_resume_facts)"
  using evaluateResume_partition [of "[''a'', ''b'']" demo_resume_facts]
    evaluateResume_partition [of "[''a'']" demo_resume_facts]
  by (auto simp: demo_resume_facts_def run_machine_defs)

end
