(* ===== verification/Memory_State.thy ===== *)
theory Memory_State
  imports Goal_State
begin

text \<open>
  \<open>packages/domain/src/memory.ts\<close> and \<open>capabilities.ts\<close>: the memory lifecycle, which memories a
  context may see, the deterministic selection injected into a context pack, and the capability
  matcher of the scheduler.
\<close>

section \<open>Lifecycle\<close>

datatype memory_status = MS_proposed | MS_accepted | MS_rejected | MS_superseded

datatype memory_scope = Scope_task | Scope_project | Scope_organization | Scope_code

datatype memory_trigger = MT_accept | MT_reject | MT_supersede

text \<open>\<open>MemoryTransitionError\<close>.\<close>

datatype memory_transition_error = Memory_transition_error memory_status memory_trigger

definition memory_row ::
  "memory_status \<Rightarrow> memory_status \<Rightarrow> memory_trigger \<Rightarrow> (memory_status, memory_trigger) transition" where
  "memory_row s s' t = \<lparr>tr_from = s, tr_to = s', tr_trigger = t\<rparr>"

definition MEMORY_TRANSITIONS :: "(memory_status, memory_trigger) transition list" where
  "MEMORY_TRANSITIONS =
     [memory_row MS_proposed MS_accepted MT_accept,
      memory_row MS_proposed MS_rejected MT_reject,
      memory_row MS_proposed MS_superseded MT_supersede,
      memory_row MS_accepted MS_superseded MT_supersede]"

definition MEMORY_TERMINAL :: "memory_status list" where
  "MEMORY_TERMINAL = [MS_rejected, MS_superseded]"

definition isMemoryTerminal :: "memory_status \<Rightarrow> bool" where
  "isMemoryTerminal s = List.member MEMORY_TERMINAL s"

definition canTransitionMemory :: "memory_status \<Rightarrow> memory_trigger \<Rightarrow> bool" where
  "canTransitionMemory s t = has_transition MEMORY_TRANSITIONS s t"

definition applyMemoryTransition ::
  "memory_status \<Rightarrow> memory_trigger \<Rightarrow> memory_transition_error + memory_status" where
  "applyMemoryTransition s t =
     (case find_transition MEMORY_TRANSITIONS s t of
        None \<Rightarrow> Inl (Memory_transition_error s t) | Some r \<Rightarrow> Inr (tr_to r))"

section \<open>Memories and contexts\<close>

text \<open>A missing and a null reference are both \<open>None\<close>; payload fields are kept as given.\<close>

record memory =
  mem_id :: ident
  mem_status :: memory_status
  mem_scope :: memory_scope
  mem_organization_id :: "ident option"
  mem_project_id :: "ident option"
  mem_task_id :: "ident option"
  mem_source_task_id :: "ident option"
  mem_source_run_id :: "ident option"
  mem_source_message_id :: "ident option"
  mem_source_artifact_id :: "ident option"
  mem_author_type :: created_by_type
  mem_author_id :: ident
  mem_confidence :: rat
  mem_text :: "string option"
  mem_payload :: "(string \<times> json) list option"
  mem_tags :: "string list"
  mem_supersedes_id :: "ident option"
  mem_superseded_by_id :: "ident option"
  mem_created_at :: iso_time
  mem_updated_at :: "iso_time option"

text \<open>What the schema accepts beyond the types.\<close>

definition valid_memory :: "memory \<Rightarrow> bool" where
  "valid_memory m \<longleftrightarrow>
     1 \<le> length (mem_id m) \<and> 1 \<le> length (mem_author_id m)
     \<and> 0 \<le> mem_confidence m \<and> mem_confidence m \<le> 1
     \<and> ((case mem_text m of None \<Rightarrow> False | Some t \<Rightarrow> 0 < length (trim t))
        \<or> (case mem_payload m of None \<Rightarrow> False | Some p \<Rightarrow> 0 < length p))"

record memory_context =
  mc_organization_id :: "ident option"
  mc_project_id :: "ident option"
  mc_task_id :: "ident option"

definition isMemoryRetrievable :: "memory \<Rightarrow> bool" where
  "isMemoryRetrievable m = (mem_status m = MS_accepted)"

definition isMemoryEligible :: "memory \<Rightarrow> memory_context \<Rightarrow> bool" where
  "isMemoryEligible m ctx =
     (if \<not> isMemoryRetrievable m then False
      else case mem_scope m of
        Scope_task \<Rightarrow> mem_task_id m \<noteq> None \<and> mem_task_id m = mc_task_id ctx
      | Scope_project \<Rightarrow> mem_project_id m \<noteq> None \<and> mem_project_id m = mc_project_id ctx
      | Scope_organization \<Rightarrow>
          mem_organization_id m \<noteq> None \<and> mem_organization_id m = mc_organization_id ctx
      | Scope_code \<Rightarrow> mem_project_id m \<noteq> None \<and> mem_project_id m = mc_project_id ctx)"

definition filterRetrievableMemories :: "memory list \<Rightarrow> memory_context \<Rightarrow> memory list" where
  "filterRetrievableMemories candidates ctx = filter (\<lambda>m. isMemoryEligible m ctx) candidates"

section \<open>Selection\<close>

record memory_selection =
  sel_memories :: "memory list"
  sel_source_memory_ids :: "ident list"

fun SCOPE_PRIORITY :: "memory_scope \<Rightarrow> int" where
  "SCOPE_PRIORITY Scope_task = 0"
| "SCOPE_PRIORITY Scope_project = 1"
| "SCOPE_PRIORITY Scope_organization = 2"
| "SCOPE_PRIORITY Scope_code = 3"

definition injectionTime :: "memory \<Rightarrow> iso_time" where
  "injectionTime m = (case mem_updated_at m of Some t \<Rightarrow> t | None \<Rightarrow> mem_created_at m)"

text \<open>The comparator handed to \<open>sort\<close>.\<close>

definition compare_memories :: "memory \<Rightarrow> memory \<Rightarrow> int" where
  "compare_memories a b =
     (let byScope = SCOPE_PRIORITY (mem_scope a) - SCOPE_PRIORITY (mem_scope b) in
      if byScope \<noteq> 0 then byScope
      else let timeA = injectionTime a; timeB = injectionTime b in
      if timeA \<noteq> timeB then (if timeA < timeB then 1 else -1)
      else if mem_id a < mem_id b then -1 else if mem_id b < mem_id a then 1 else 0)"

definition selectInjectableMemories :: "memory list \<Rightarrow> memory_context \<Rightarrow> int option \<Rightarrow> memory_selection" where
  "selectInjectableMemories candidates ctx limit =
     (let eligible = filterRetrievableMemories candidates ctx;
          ordered = sort_by (\<lambda>a b. compare_memories a b \<le> 0) eligible;
          selected = (case limit of Some l \<Rightarrow> take (nat (max 0 l)) ordered | None \<Rightarrow> ordered)
      in \<lparr>sel_memories = selected, sel_source_memory_ids = map mem_id selected\<rparr>)"

section \<open>Capabilities\<close>

definition CAPABILITIES :: "string list" where
  "CAPABILITIES =
     [''code.read'', ''code.modify'', ''code.review'', ''test.run'', ''git.patch'', ''github.pr'',
      ''browser.navigate'', ''browser.extract'', ''desktop.operate'', ''doc.write'',
      ''research.web'', ''shell.run'']"

definition matchCapabilities :: "string list \<Rightarrow> string list \<Rightarrow> bool" where
  "matchCapabilities required offered =
     (let offeredSet = set_list offered in list_all (\<lambda>c. List.member offeredSet c) required)"

definition isCapability :: "string \<Rightarrow> bool" where
  "isCapability value = List.member CAPABILITIES value"

lemmas memory_machine_defs [model_defs] =
  memory_row_def MEMORY_TRANSITIONS_def MEMORY_TERMINAL_def isMemoryTerminal_def
  canTransitionMemory_def applyMemoryTransition_def

lemmas memory_defs [model_defs] =
  valid_memory_def isMemoryRetrievable_def isMemoryEligible_def filterRetrievableMemories_def
  injectionTime_def compare_memories_def selectInjectableMemories_def

section \<open>Correctness\<close>

lemma memory_status_machine:
  "status_machine MEMORY_TRANSITIONS canTransitionMemory applyMemoryTransition"
  by (rule finder_laws [where bad = Memory_transition_error])
     (simp_all add: canTransitionMemory_def applyMemoryTransition_def has_transition_iff_find memory_machine_defs)

interpretation memory_sm:
  terminal_machine MEMORY_TRANSITIONS canTransitionMemory applyMemoryTransition isMemoryTerminal
  by (intro terminal_machine.intro memory_status_machine terminal_machine_axioms.intro, case_tac s)
     (simp_all add: memory_machine_defs)

lemma matchCapabilities_iff: "matchCapabilities required offered \<longleftrightarrow> set required \<subseteq> set offered"
  by (auto simp: matchCapabilities_def list_all_iff)

text \<open>The key the comparator orders by: scope, then recency reversed, then id.\<close>

definition injection_before :: "memory \<Rightarrow> memory \<Rightarrow> bool" where
  "injection_before a b \<longleftrightarrow>
     SCOPE_PRIORITY (mem_scope a) < SCOPE_PRIORITY (mem_scope b)
     \<or> (mem_scope a = mem_scope b
        \<and> (injectionTime b < injectionTime a
           \<or> (injectionTime a = injectionTime b \<and> mem_id a \<le> mem_id b)))"

lemma scope_priority_inject: "SCOPE_PRIORITY s = SCOPE_PRIORITY s' \<longleftrightarrow> s = s'"
  by (cases s; cases s') simp_all

lemma compare_memories_le: "compare_memories a b \<le> 0 \<longleftrightarrow> injection_before a b"
proof (cases "mem_scope a = mem_scope b")
  case True
  then show ?thesis
    by (auto simp: compare_memories_def injection_before_def Let_def less_le)
next
  case False
  then have "SCOPE_PRIORITY (mem_scope a) - SCOPE_PRIORITY (mem_scope b) \<noteq> 0"
    by (simp add: scope_priority_inject)
  then show ?thesis using False by (auto simp: compare_memories_def injection_before_def)
qed

lemma injection_total: "injection_before a b \<or> injection_before b a"
proof (cases "mem_scope a = mem_scope b")
  case False
  then show ?thesis
    using scope_priority_inject [of "mem_scope a" "mem_scope b"] by (auto simp: injection_before_def)
qed (auto simp: injection_before_def)

lemma injection_trans: "injection_before a b \<Longrightarrow> injection_before b c \<Longrightarrow> injection_before a c"
  by (auto simp: injection_before_def scope_priority_inject [symmetric])

lemma sorted_injection: "sorted_wrt injection_before (sort_by injection_before ms)"
  by (rule sorted_sort_by) (use injection_total injection_trans in blast)+

text \<open>
  The memories injected into a context pack are accepted and in scope for the
  context, at most as many as the limit, listed in the audit trail in the same order, sorted by
  scope, then most recent first, then id; and without a limit no eligible memory is left out.
\<close>

theorem selectInjectableMemories_spec:
  "let sel = selectInjectableMemories candidates ctx limit in
    (\<forall>m \<in> set (sel_memories sel). m \<in> set candidates \<and> mem_status m = MS_accepted \<and> isMemoryEligible m ctx)
    \<and> sel_source_memory_ids sel = map mem_id (sel_memories sel)
    \<and> sorted_wrt injection_before (sel_memories sel)
    \<and> (case limit of None \<Rightarrow> set (sel_memories sel) = {m \<in> set candidates. isMemoryEligible m ctx}
        | Some l \<Rightarrow> length (sel_memories sel) \<le> nat l)"
proof -
  define sel where "sel = selectInjectableMemories candidates ctx limit"
  let ?all = "sort_by injection_before (filterRetrievableMemories candidates ctx)"
  have sel: "sel_memories sel = (case limit of Some l \<Rightarrow> take (nat (max 0 l)) ?all | None \<Rightarrow> ?all)"
    and ids: "sel_source_memory_ids sel = map mem_id (sel_memories sel)"
    by (simp_all add: sel_def selectInjectableMemories_def compare_memories_le Let_def)
  have "set (sel_memories sel) \<subseteq> set ?all"
    using set_take_subset by (fastforce simp: sel split: option.splits)
  then have members: "\<forall>m \<in> set (sel_memories sel). m \<in> set candidates \<and> mem_status m = MS_accepted \<and> isMemoryEligible m ctx"
    by (auto simp: filterRetrievableMemories_def isMemoryEligible_def isMemoryRetrievable_def split: if_splits)
  have "sorted_wrt injection_before (sel_memories sel)"
    using sorted_injection by (auto simp: sel sorted_wrt_take split: option.splits)
  moreover have "case limit of None \<Rightarrow> set (sel_memories sel) = {m \<in> set candidates. isMemoryEligible m ctx}
        | Some l \<Rightarrow> length (sel_memories sel) \<le> nat l"
    by (cases limit) (simp_all add: sel filterRetrievableMemories_def)
  ultimately show ?thesis
    unfolding Let_def sel_def [symmetric] using members ids by blast
qed

definition demo_memory :: memory where
  "demo_memory = \<lparr>mem_id = ''mem_1'', mem_status = MS_accepted, mem_scope = Scope_organization,
     mem_organization_id = Some ''org_1'', mem_project_id = None, mem_task_id = None, mem_source_task_id = None,
     mem_source_run_id = None, mem_source_message_id = None, mem_source_artifact_id = None,
     mem_author_type = By_user, mem_author_id = ''user_1'', mem_confidence = 1, mem_text = Some ''x'',
     mem_payload = None, mem_tags = [], mem_supersedes_id = None, mem_superseded_by_id = None,
     mem_created_at = ''2026-06-11'', mem_updated_at = None\<rparr>"

lemma selectInjectableMemories_spec_witness:
  "set (sel_memories (selectInjectableMemories [demo_memory, demo_memory\<lparr>mem_status := MS_proposed\<rparr>]
      \<lparr>mc_organization_id = Some ''org_1'', mc_project_id = None, mc_task_id = None\<rparr> None)) = {demo_memory}"
proof -
  let ?ctx = "\<lparr>mc_organization_id = Some ''org_1'', mc_project_id = None, mc_task_id = None\<rparr>"
  have "isMemoryEligible demo_memory ?ctx" "\<not> isMemoryEligible (demo_memory\<lparr>mem_status := MS_proposed\<rparr>) ?ctx"
    by (simp_all add: demo_memory_def isMemoryEligible_def isMemoryRetrievable_def)
  then have "{m \<in> set [demo_memory, demo_memory\<lparr>mem_status := MS_proposed\<rparr>]. isMemoryEligible m ?ctx} = {demo_memory}"
    by auto
  then show ?thesis
    using selectInjectableMemories_spec [of "[demo_memory, demo_memory\<lparr>mem_status := MS_proposed\<rparr>]" ?ctx None]
    by (simp add: Let_def)
qed

end
