(* ===== verification/Supervisor.thy ===== *)
theory Supervisor
  imports Prelude
begin

text \<open>
  \<open>packages/node-supervisor/src/state-machine.ts\<close> and \<open>supervisor.ts\<close>: the pure supervision
  machine, the restart policy and the supervisor that drives a child process with them. The
  closures of the supervisor are the operations below on a record of its variables; what it does
  to the world is logged: the handles it spawned and those that have not exited, the signals it
  sent, the states it announced, and the callbacks it scheduled. \<open>Date.parse\<close> is a parameter
  (\<open>None\<close> is \<open>NaN\<close>); listeners that call back into the supervisor are not modelled.
\<close>

section \<open>The pure machine\<close>

datatype supervisor_state = SV_stopped | SV_starting | SV_running | SV_unhealthy | SV_stopping

datatype supervisor_event =
    EV_start
  | EV_ready
  | EV_heartbeat bool
  | EV_stop
  | EV_exited bool
  | EV_startFailed

fun nextSupervisorState :: "supervisor_state \<Rightarrow> supervisor_event \<Rightarrow> supervisor_state" where
  "nextSupervisorState SV_stopped event = (if event = EV_start then SV_starting else SV_stopped)"
| "nextSupervisorState SV_starting event =
     (case event of
        EV_ready \<Rightarrow> SV_running
      | EV_startFailed \<Rightarrow> SV_stopped
      | EV_exited _ \<Rightarrow> SV_stopped
      | EV_stop \<Rightarrow> SV_stopping
      | _ \<Rightarrow> SV_starting)"
| "nextSupervisorState SV_running event =
     (case event of
        EV_heartbeat healthy \<Rightarrow> (if healthy then SV_running else SV_unhealthy)
      | EV_stop \<Rightarrow> SV_stopping
      | EV_exited _ \<Rightarrow> SV_stopped
      | _ \<Rightarrow> SV_running)"
| "nextSupervisorState SV_unhealthy event =
     (case event of
        EV_heartbeat healthy \<Rightarrow> (if healthy then SV_running else SV_unhealthy)
      | EV_stop \<Rightarrow> SV_stopping
      | EV_exited _ \<Rightarrow> SV_stopped
      | _ \<Rightarrow> SV_unhealthy)"
| "nextSupervisorState SV_stopping event =
     (case event of EV_exited _ \<Rightarrow> SV_stopped | _ \<Rightarrow> SV_stopping)"

definition isCrash :: "supervisor_state \<Rightarrow> supervisor_event \<Rightarrow> bool" where
  "isCrash st event =
     (case event of
        EV_exited expected \<Rightarrow> \<not> expected \<and> st \<noteq> SV_stopping \<and> st \<noteq> SV_stopped
      | _ \<Rightarrow> False)"

definition isHeartbeatHealthy :: "(string \<Rightarrow> int option) \<Rightarrow> string option \<Rightarrow> string \<Rightarrow> int \<Rightarrow> bool" where
  "isHeartbeatHealthy parse lastSeenIso nowIso staleAfterMs =
     (case lastSeenIso of
        None \<Rightarrow> False
      | Some seen \<Rightarrow>
          (case (parse seen, parse nowIso) of
             (Some last_ms, Some now_ms) \<Rightarrow> now_ms - last_ms \<le> staleAfterMs
           | _ \<Rightarrow> False))"

record restart_policy =
  maxRestarts :: nat
  baseDelayMs :: int
  maxDelayMs :: int

record restart_decision =
  rd_restart :: bool
  rd_delayMs :: int

definition restartDecision :: "nat \<Rightarrow> restart_policy \<Rightarrow> restart_decision" where
  "restartDecision restartCount policy =
     (if maxRestarts policy \<le> restartCount then \<lparr>rd_restart = False, rd_delayMs = 0\<rparr>
      else \<lparr>rd_restart = True,
            rd_delayMs = min (baseDelayMs policy * 2 ^ restartCount) (maxDelayMs policy)\<rparr>)"

section \<open>The supervisor\<close>

type_synonym handle = nat
type_synonym env = "(string \<times> string) list"

datatype signal = SIGTERM | SIGKILL

text \<open>The closures handed to \<open>deps.schedule\<close>, with the variables they captured.\<close>

datatype scheduled = Respawn env nat | Kill_after_grace handle

record supervisor_config =
  staleAfterMs :: "int option"
  killGraceMs :: "int option"
  restartPolicy :: "restart_policy option"

record supervisor =
  sv_state :: supervisor_state
  sv_restarts :: nat
  sv_child :: "handle option"
  sv_lastEnv :: "env option"
  sv_stopRequested :: bool
  sv_generation :: nat
  sv_spawned :: nat
  sv_live :: "handle list"
  sv_signals :: "(handle \<times> signal) list"
  sv_scheduled :: "(scheduled \<times> int) list"
  sv_announced :: "supervisor_state list"

definition DEFAULT_STALE_MS :: int where "DEFAULT_STALE_MS = 30000"
definition DEFAULT_KILL_GRACE_MS :: int where "DEFAULT_KILL_GRACE_MS = 5000"
definition DEFAULT_RESTART :: restart_policy where
  "DEFAULT_RESTART = \<lparr>maxRestarts = 5, baseDelayMs = 1000, maxDelayMs = 30000\<rparr>"

definition stale_ms :: "supervisor_config \<Rightarrow> int" where
  "stale_ms c = (case staleAfterMs c of Some v \<Rightarrow> v | None \<Rightarrow> DEFAULT_STALE_MS)"

definition kill_grace_ms :: "supervisor_config \<Rightarrow> int" where
  "kill_grace_ms c = (case killGraceMs c of Some v \<Rightarrow> v | None \<Rightarrow> DEFAULT_KILL_GRACE_MS)"

definition policy_of :: "supervisor_config \<Rightarrow> restart_policy" where
  "policy_of c = (case restartPolicy c of Some p \<Rightarrow> p | None \<Rightarrow> DEFAULT_RESTART)"

definition createNodeSupervisor :: supervisor where
  "createNodeSupervisor =
     \<lparr>sv_state = SV_stopped, sv_restarts = 0, sv_child = None, sv_lastEnv = None,
      sv_stopRequested = False, sv_generation = 0, sv_spawned = 0, sv_live = [],
      sv_signals = [], sv_scheduled = [], sv_announced = []\<rparr>"

definition maybeRestart :: "supervisor_config \<Rightarrow> supervisor \<Rightarrow> supervisor" where
  "maybeRestart c s =
     (let decision = restartDecision (sv_restarts s) (policy_of c) in
      if \<not> rd_restart decision \<or> sv_lastEnv s = None then s
      else s\<lparr>sv_restarts := sv_restarts s + 1,
             sv_scheduled := sv_scheduled s
               @ [(Respawn (the (sv_lastEnv s)) (sv_generation s), rd_delayMs decision)]\<rparr>)"

text \<open>The inner \<open>transition\<close>: move, announce a change, then perhaps restart.\<close>

definition sv_transition :: "supervisor_config \<Rightarrow> supervisor_event \<Rightarrow> supervisor \<Rightarrow> supervisor" where
  "sv_transition c event s =
     (let crashed = isCrash (sv_state s) event;
          nxt = nextSupervisorState (sv_state s) event;
          s1 = (if nxt \<noteq> sv_state s
                then s\<lparr>sv_state := nxt, sv_announced := sv_announced s @ [nxt]\<rparr> else s)
      in if crashed then maybeRestart c s1 else s1)"

definition spawnNode :: "supervisor_config \<Rightarrow> env \<Rightarrow> supervisor \<Rightarrow> supervisor" where
  "spawnNode c env s =
     (let h = sv_spawned s in
      sv_transition c EV_start
        (s\<lparr>sv_lastEnv := Some env, sv_stopRequested := False, sv_spawned := h + 1,
           sv_live := sv_live s @ [h], sv_child := Some h\<rparr>))"

text \<open>The continuation of \<open>handle.exited\<close>.\<close>

definition on_exited :: "supervisor_config \<Rightarrow> handle \<Rightarrow> supervisor \<Rightarrow> supervisor" where
  "on_exited c h s =
     (let expected = sv_stopRequested s in
      sv_transition c (EV_exited expected)
        (s\<lparr>sv_live := removeAll h (sv_live s),
           sv_child := (if sv_child s = Some h then None else sv_child s)\<rparr>))"

definition sv_start :: "supervisor_config \<Rightarrow> env \<Rightarrow> supervisor \<Rightarrow> supervisor" where
  "sv_start c env s =
     (if sv_state s \<noteq> SV_stopped then s
      else spawnNode c env (s\<lparr>sv_generation := sv_generation s + 1, sv_restarts := 0\<rparr>))"

definition sv_tick ::
  "supervisor_config \<Rightarrow> (string \<Rightarrow> int option) \<Rightarrow> string option \<Rightarrow> string \<Rightarrow> supervisor \<Rightarrow> supervisor" where
  "sv_tick c parse lastHeartbeat nowIso s =
     (if sv_state s = SV_stopped \<or> sv_state s = SV_stopping then s
      else
        (let healthy = isHeartbeatHealthy parse lastHeartbeat nowIso (stale_ms c);
             s1 = (if healthy then s\<lparr>sv_restarts := 0\<rparr> else s)
         in if sv_state s1 = SV_starting
            then (if healthy then sv_transition c EV_ready s1 else s1)
            else sv_transition c (EV_heartbeat healthy) s1))"

definition sv_stop :: "supervisor_config \<Rightarrow> supervisor \<Rightarrow> supervisor" where
  "sv_stop c s =
     (let s0 = s\<lparr>sv_generation := sv_generation s + 1\<rparr> in
      if sv_state s0 = SV_stopped then s0
      else
        (let s1 = sv_transition c EV_stop (s0\<lparr>sv_stopRequested := True\<rparr>) in
         case sv_child s1 of
           None \<Rightarrow> sv_transition c (EV_exited True) s1
         | Some h \<Rightarrow>
             s1\<lparr>sv_signals := sv_signals s1 @ [(h, SIGTERM)],
                sv_scheduled := sv_scheduled s1 @ [(Kill_after_grace h, kill_grace_ms c)]\<rparr>))"

text \<open>Running a scheduled closure.\<close>

definition respawn :: "supervisor_config \<Rightarrow> env \<Rightarrow> nat \<Rightarrow> supervisor \<Rightarrow> supervisor" where
  "respawn c env gen s =
     (if sv_generation s = gen \<and> sv_state s = SV_stopped then spawnNode c env s else s)"

definition kill_after_grace :: "handle \<Rightarrow> supervisor \<Rightarrow> supervisor" where
  "kill_after_grace h s =
     (if sv_state s = SV_stopping \<and> sv_child s = Some h
      then s\<lparr>sv_signals := sv_signals s @ [(h, SIGKILL)]\<rparr> else s)"

fun run_scheduled :: "supervisor_config \<Rightarrow> scheduled \<Rightarrow> supervisor \<Rightarrow> supervisor" where
  "run_scheduled c (Respawn env gen) s = respawn c env gen s"
| "run_scheduled c (Kill_after_grace h) s = kill_after_grace h s"

declare respawn_def [simp] kill_after_grace_def [simp]

lemmas supervisor_defs [model_defs] =
  isCrash_def isHeartbeatHealthy_def restartDecision_def createNodeSupervisor_def maybeRestart_def
  sv_transition_def spawnNode_def on_exited_def sv_start_def sv_tick_def sv_stop_def

section \<open>Executions\<close>

text \<open>
  What can happen to the supervisor: its owner starts, ticks and stops it, a live process exits,
  and the timer runs any scheduled closure, in any order. The parameter of the relation is the
  configuration with the parser of dates.
\<close>

datatype action =
    A_start env
  | A_tick "string option" string
  | A_stop
  | A_exit handle
  | A_timer nat

definition enabled :: "action \<Rightarrow> supervisor \<Rightarrow> bool" where
  "enabled a s =
     (case a of
        A_exit h \<Rightarrow> h \<in> set (sv_live s)
      | A_timer i \<Rightarrow> i < length (sv_scheduled s)
      | _ \<Rightarrow> True)"

text \<open>A timer fires once: its closure is taken out of the schedule before it runs.\<close>

definition perform :: "supervisor_config \<Rightarrow> (string \<Rightarrow> int option) \<Rightarrow> action \<Rightarrow> supervisor \<Rightarrow> supervisor" where
  "perform c parse a s =
     (case a of
        A_start env \<Rightarrow> sv_start c env s
      | A_tick seen now \<Rightarrow> sv_tick c parse seen now s
      | A_stop \<Rightarrow> sv_stop c s
      | A_exit h \<Rightarrow> on_exited c h s
      | A_timer i \<Rightarrow>
          run_scheduled c (fst (sv_scheduled s ! i))
            (s\<lparr>sv_scheduled := take i (sv_scheduled s) @ drop (Suc i) (sv_scheduled s)\<rparr>))"

inductive sv_step :: "supervisor_config \<Rightarrow> (string \<Rightarrow> int option) \<Rightarrow> action \<Rightarrow> supervisor \<Rightarrow> supervisor \<Rightarrow> bool"
  for c :: supervisor_config and parse :: "string \<Rightarrow> int option" where
  sv_step: "enabled a s \<Longrightarrow> sv_step c parse a s (perform c parse a s)"

inductive sv_run :: "supervisor_config \<Rightarrow> (string \<Rightarrow> int option) \<Rightarrow> action list \<Rightarrow> supervisor \<Rightarrow> supervisor \<Rightarrow> bool"
  for c :: supervisor_config and parse :: "string \<Rightarrow> int option" where
  run_none: "sv_run c parse [] s s"
| run_step: "sv_run c parse as s s1 \<Longrightarrow> sv_step c parse a s1 s2 \<Longrightarrow> sv_run c parse (as @ [a]) s s2"

inductive_simps sv_step_iff: "sv_step c parse a s s'"
inductive_cases sv_run_snocE: "sv_run c parse as s s'"

section \<open>At most one process\<close>

definition sv_inv :: "supervisor \<Rightarrow> bool" where
  "sv_inv s \<longleftrightarrow>
     (if sv_state s = SV_stopped then sv_live s = [] \<and> sv_child s = None
      else \<exists>h. sv_live s = [h] \<and> sv_child s = Some h)
     \<and> (\<forall>env g d. (Respawn env g, d) \<in> set (sv_scheduled s) \<longrightarrow> g \<le> sv_generation s)"

lemma maybeRestart_frame [frame_rules]:
  "sv_state (maybeRestart c s) = sv_state s" "sv_child (maybeRestart c s) = sv_child s"
  "sv_live (maybeRestart c s) = sv_live s" "sv_generation (maybeRestart c s) = sv_generation s"
  "sv_spawned (maybeRestart c s) = sv_spawned s" "sv_signals (maybeRestart c s) = sv_signals s"
  by (simp_all add: maybeRestart_def Let_def)

lemma transition_frame [frame_rules]:
  "sv_child (sv_transition c e s) = sv_child s" "sv_live (sv_transition c e s) = sv_live s"
  "sv_generation (sv_transition c e s) = sv_generation s"
  "sv_spawned (sv_transition c e s) = sv_spawned s" "sv_signals (sv_transition c e s) = sv_signals s"
  by (simp_all add: sv_transition_def Let_def frame_rules)

lemma transition_state: "sv_state (sv_transition c e s) = nextSupervisorState (sv_state s) e"
  by (simp add: sv_transition_def Let_def frame_rules)

lemma transition_quiet:
  "\<not> isCrash (sv_state s) e \<Longrightarrow> sv_restarts (sv_transition c e s) = sv_restarts s
     \<and> sv_scheduled (sv_transition c e s) = sv_scheduled s"
  by (simp add: sv_transition_def Let_def)

lemma isCrash_simps [simp]:
  "\<not> isCrash st EV_start" "\<not> isCrash st EV_ready" "\<not> isCrash st (EV_heartbeat b)"
  "\<not> isCrash st EV_stop" "\<not> isCrash st (EV_exited True)" "\<not> isCrash SV_stopping e" "\<not> isCrash SV_stopped e"
  by (auto simp: isCrash_def split: supervisor_event.splits)

lemma next_eq_simps [simp]:
  "nextSupervisorState st (EV_exited b) = SV_stopped"
  "nextSupervisorState st (EV_heartbeat b) = SV_stopped \<longleftrightarrow> st = SV_stopped"
  "nextSupervisorState st EV_stop = (if st = SV_stopped then SV_stopped else SV_stopping)"
  by (cases st; simp)+

text \<open>The closures an operation adds to the schedule.\<close>

lemma transition_schedule:
  "\<exists>new. sv_scheduled (sv_transition c e s) = sv_scheduled s @ new
     \<and> (\<forall>x \<in> set new. \<exists>env d. x = (Respawn env (sv_generation s), d))"
  by (auto simp: sv_transition_def maybeRestart_def Let_def)

lemma spawnNode_inv [inv_rules]:
  assumes "sv_inv s" "sv_state s = SV_stopped"
  shows "sv_inv (spawnNode c env s)"
  using assms transition_schedule [of c EV_start]
  by (auto simp: sv_inv_def spawnNode_def Let_def frame_rules transition_state transition_quiet)

lemma bump_inv: "sv_inv s \<Longrightarrow> sv_inv (s\<lparr>sv_generation := Suc (sv_generation s)\<rparr>)"
  by (auto simp: sv_inv_def intro: le_SucI)

lemma restarts_inv [simp]: "sv_inv (s\<lparr>sv_restarts := n\<rparr>) = sv_inv s"
  "sv_inv (s\<lparr>sv_stopRequested := b\<rparr>) = sv_inv s"
  by (simp_all add: sv_inv_def)

lemma start_inv [inv_rules]:
  assumes "sv_inv s"
  shows "sv_inv (sv_start c env s)"
proof (cases "sv_state s = SV_stopped")
  case True
  have "sv_inv (s\<lparr>sv_generation := Suc (sv_generation s), sv_restarts := 0\<rparr>)"
    using bump_inv [OF assms] by simp
  from spawnNode_inv [OF this] True show ?thesis by (simp add: sv_start_def)
qed (simp add: sv_start_def assms)

lemma exited_inv [inv_rules]:
  assumes "sv_inv s" "h \<in> set (sv_live s)"
  shows "sv_inv (on_exited c h s)"
proof -
  have alive: "sv_live s = [h]" "sv_child s = Some h"
    using assms by (auto simp: sv_inv_def split: if_splits)
  define s1 where "s1 = s\<lparr>sv_live := removeAll h (sv_live s),
      sv_child := (if sv_child s = Some h then None else sv_child s)\<rparr>"
  have s1: "on_exited c h s = sv_transition c (EV_exited (sv_stopRequested s)) s1"
    by (simp add: on_exited_def s1_def)
  obtain new where new: "sv_scheduled (on_exited c h s) = sv_scheduled s @ new"
    and gen: "\<forall>x \<in> set new. \<exists>env d. x = (Respawn env (sv_generation s), d)"
    using transition_schedule [of c "EV_exited (sv_stopRequested s)" s1] by (auto simp: s1 s1_def)
  have "g \<le> sv_generation s" if "(Respawn env g, d) \<in> set (sv_scheduled (on_exited c h s))" for env g d
    using that assms(1) gen unfolding new sv_inv_def by fastforce
  moreover have "sv_state (on_exited c h s) = SV_stopped" "sv_live (on_exited c h s) = []"
    "sv_child (on_exited c h s) = None" "sv_generation (on_exited c h s) = sv_generation s"
    using alive by (simp_all add: s1 transition_state frame_rules s1_def)
  ultimately show ?thesis by (simp add: sv_inv_def)
qed

lemma tick_inv [inv_rules]: "sv_inv s \<Longrightarrow> sv_inv (sv_tick c parse seen now s)"
  by (cases "sv_state s")
    (auto simp: sv_tick_def sv_inv_def Let_def frame_rules transition_state transition_quiet)

lemma stop_inv [inv_rules]:
  assumes "sv_inv s"
  shows "sv_inv (sv_stop c s)"
  using assms
  by (cases "sv_state s = SV_stopped")
    (auto simp: sv_stop_def sv_inv_def Let_def frame_rules transition_state transition_quiet, (meson le_SucI)+)

lemma timer_inv [inv_rules]:
  assumes "sv_inv s" "i < length (sv_scheduled s)"
  shows "sv_inv (perform c parse (A_timer i) s)"
proof -
  let ?s = "s\<lparr>sv_scheduled := take i (sv_scheduled s) @ drop (Suc i) (sv_scheduled s)\<rparr>"
  have inv: "sv_inv ?s"
    using assms(1) by (auto simp: sv_inv_def dest: in_set_takeD in_set_dropD)
  have "sv_inv (run_scheduled c cb ?s)" for cb
  proof (cases cb)
    case (Respawn env gen)
    then show ?thesis using inv spawnNode_inv [OF inv] by auto
  next
    case (Kill_after_grace h)
    then show ?thesis using inv by (auto simp: sv_inv_def)
  qed
  then show ?thesis by (simp add: perform_def)
qed

lemma step_inv: "sv_step c parse a s s' \<Longrightarrow> sv_inv s \<Longrightarrow> sv_inv s'"
  by (cases a) (auto simp: sv_step_iff enabled_def perform_def intro: inv_rules dest: timer_inv [of s _ c parse])

lemma run_inv: "sv_run c parse as s s' \<Longrightarrow> sv_inv s \<Longrightarrow> sv_inv s'"
  by (induction rule: sv_run.induct) (auto intro: step_inv)

lemma initial_inv: "sv_inv createNodeSupervisor"
  by (simp add: sv_inv_def createNodeSupervisor_def)

text \<open>
  Property C24. The supervisor never runs two processes: in every state an execution reaches,
  whatever the order of starts, ticks, stops, exits and timers, there is no live process when it
  says stopped and exactly one, its child, otherwise.
\<close>

theorem at_most_one_process:
  assumes "sv_run c parse as createNodeSupervisor s"
  shows "if sv_state s = SV_stopped then sv_live s = [] \<and> sv_child s = None
         else \<exists>h. sv_live s = [h] \<and> sv_child s = Some h"
  using run_inv [OF assms initial_inv] by (simp add: sv_inv_def)

definition sv_demo_config :: supervisor_config where
  "sv_demo_config = \<lparr>staleAfterMs = None, killGraceMs = None, restartPolicy = None\<rparr>"

lemma at_most_one_process_witness:
  "\<exists>s. sv_run sv_demo_config (\<lambda>t. None) ([] @ [A_start []] @ [A_exit 0] @ [A_timer 0]) createNodeSupervisor s
     \<and> sv_state s = SV_starting \<and> (\<exists>h. sv_live s = [h] \<and> sv_child s = Some h)"
proof -
  let ?p = "perform sv_demo_config (\<lambda>t. None)"
  define s1 where "s1 = ?p (A_start []) createNodeSupervisor"
  define s2 where "s2 = ?p (A_exit 0) s1"
  define s3 where "s3 = ?p (A_timer 0) s2"
  have s1: "s1 = createNodeSupervisor\<lparr>sv_state := SV_starting, sv_child := Some 0, sv_lastEnv := Some [],
      sv_generation := 1, sv_spawned := 1, sv_live := [0], sv_announced := [SV_starting]\<rparr>"
    by (simp add: s1_def perform_def supervisor_defs Let_def)
  have s2: "s2 = createNodeSupervisor\<lparr>sv_state := SV_stopped, sv_restarts := 1, sv_child := None,
      sv_lastEnv := Some [], sv_generation := 1, sv_spawned := 1, sv_live := [],
      sv_scheduled := [(Respawn [] 1, 1000)], sv_announced := [SV_starting, SV_stopped]\<rparr>"
    by (simp add: s2_def s1 perform_def supervisor_defs Let_def policy_of_def sv_demo_config_def DEFAULT_RESTART_def)
  have st: "sv_state s3 = SV_starting"
    by (simp add: s3_def s2 perform_def supervisor_defs Let_def)
  have "sv_run sv_demo_config (\<lambda>t. None) [] createNodeSupervisor createNodeSupervisor" by (rule run_none)
  then have "sv_run sv_demo_config (\<lambda>t. None) ([] @ [A_start []]) createNodeSupervisor s1"
    by (rule run_step) (simp add: sv_step_iff enabled_def s1_def)
  then have "sv_run sv_demo_config (\<lambda>t. None) (([] @ [A_start []]) @ [A_exit 0]) createNodeSupervisor s2"
    by (rule run_step) (simp add: sv_step_iff enabled_def s2_def s1)
  then have "sv_run sv_demo_config (\<lambda>t. None) ((([] @ [A_start []]) @ [A_exit 0]) @ [A_timer 0]) createNodeSupervisor s3"
    by (rule run_step) (simp add: sv_step_iff enabled_def s3_def s2)
  then have run: "sv_run sv_demo_config (\<lambda>t. None) ([] @ [A_start []] @ [A_exit 0] @ [A_timer 0]) createNodeSupervisor s3"
    by simp
  from at_most_one_process [OF run] st run show ?thesis by auto
qed

section \<open>Stopping\<close>

definition halting :: "supervisor \<Rightarrow> bool" where
  "halting s \<longleftrightarrow> (sv_state s = SV_stopped \<or> sv_state s = SV_stopping)
     \<and> (\<forall>env d. (Respawn env (sv_generation s), d) \<notin> set (sv_scheduled s))"

lemma transition_halting:
  assumes "halting s"
  shows "sv_scheduled (sv_transition c e s) = sv_scheduled s"
  using assms transition_quiet [of s e c] by (auto simp: halting_def)

lemma stop_halting:
  assumes "sv_inv s"
  shows "halting (sv_stop c s) \<and> sv_spawned (sv_stop c s) = sv_spawned s"
proof -
  have "(Respawn env (Suc (sv_generation s)), d) \<notin> set (sv_scheduled s)" for env d
    using assms by (fastforce simp: sv_inv_def)
  then show ?thesis
    by (auto simp: halting_def sv_stop_def Let_def frame_rules transition_state transition_quiet
        split: option.splits)
qed

lemma stop_keeps_halting: "halting s \<Longrightarrow> sv_inv s \<Longrightarrow> halting (sv_stop c s) \<and> sv_spawned (sv_stop c s) = sv_spawned s"
  by (rule stop_halting)

lemma exited_keeps_halting:
  "halting s \<Longrightarrow> halting (on_exited c h s) \<and> sv_spawned (on_exited c h s) = sv_spawned s"
  by (auto simp: on_exited_def Let_def frame_rules transition_state halting_def transition_quiet)

lemma timer_keeps_halting:
  assumes "halting s" "i < length (sv_scheduled s)"
  shows "halting (perform c parse (A_timer i) s) \<and> sv_spawned (perform c parse (A_timer i) s) = sv_spawned s"
proof -
  have sub: "set (take i (sv_scheduled s) @ drop (Suc i) (sv_scheduled s)) \<subseteq> set (sv_scheduled s)"
    by (auto dest: in_set_takeD in_set_dropD)
  have mem: "sv_scheduled s ! i \<in> set (sv_scheduled s)" using assms(2) by simp
  show ?thesis
  proof (cases "sv_scheduled s ! i")
    case (Pair cb d)
    then show ?thesis
      using assms(1) sub mem by (cases cb) (auto simp: perform_def halting_def)
  qed
qed

lemma step_keeps_halting:
  assumes "sv_step c parse a s s'" "halting s" "sv_inv s" "\<forall>env. a \<noteq> A_start env"
  shows "halting s' \<and> sv_spawned s' = sv_spawned s"
proof (cases a)
  case (A_tick seen now)
  then show ?thesis using assms by (auto simp: sv_step_iff perform_def sv_tick_def halting_def)
next
  case (A_timer i)
  then show ?thesis using assms timer_keeps_halting [of s i c parse] by (auto simp: sv_step_iff enabled_def)
qed (use assms in \<open>auto simp: sv_step_iff perform_def stop_keeps_halting exited_keeps_halting\<close>)

text \<open>
  Stopping is final until the next start: after a stop, even one given while a
  respawn is waiting in the back-off of a crash loop, no process is spawned and the supervisor is
  stopped or stopping, whatever exits, ticks, timers and further stops follow.
\<close>

theorem stop_is_final:
  assumes "sv_run c parse before createNodeSupervisor s"
    and "sv_run c parse later (sv_stop c s) s'"
    and "\<forall>a \<in> set later. \<forall>env. a \<noteq> A_start env"
  shows "sv_spawned s' = sv_spawned s \<and> (sv_state s' = SV_stopped \<or> sv_state s' = SV_stopping)"
proof -
  have inv: "sv_inv (sv_stop c s)" using run_inv [OF assms(1) initial_inv] by (rule stop_inv)
  from assms(2,3) inv have "halting s' \<and> sv_inv s' \<and> sv_spawned s' = sv_spawned s"
  proof (induction "later" "sv_stop c s" s' rule: sv_run.induct)
    case run_none
    then show ?case using stop_halting run_inv [OF assms(1) initial_inv] by blast
  next
    case (run_step as s1 a s2)
    then show ?case using step_keeps_halting [of c parse a s1 s2] step_inv [of c parse a s1 s2] by auto
  qed
  then show ?thesis by (simp add: halting_def)
qed

lemma stop_is_final_witness:
  "sv_spawned (sv_stop sv_demo_config (sv_start sv_demo_config [] createNodeSupervisor)) = 1"
proof -
  let ?s = "sv_start sv_demo_config [] createNodeSupervisor"
  have "sv_run sv_demo_config (\<lambda>t. None) ([] @ [A_start []]) createNodeSupervisor ?s"
    by (rule run_step [OF run_none]) (simp add: sv_step_iff enabled_def perform_def)
  from stop_is_final [OF this run_none] have
    "sv_spawned (sv_stop sv_demo_config ?s) = sv_spawned ?s" by simp
  also have "\<dots> = 1" by (simp add: supervisor_defs Let_def)
  finally show ?thesis .
qed

section \<open>The restart budget\<close>

definition pending_respawns :: "supervisor \<Rightarrow> nat" where
  "pending_respawns s = length (filter (\<lambda>x. \<exists>env g d. x = (Respawn env g, d)) (sv_scheduled s))"

definition spawn_budget :: "supervisor_config \<Rightarrow> supervisor \<Rightarrow> nat" where
  "spawn_budget c s =
     sv_spawned s + pending_respawns s + (maxRestarts (policy_of c) - sv_restarts s)"

lemma transition_budget: "spawn_budget c (sv_transition c e s) = spawn_budget c s"
  by (auto simp: spawn_budget_def pending_respawns_def sv_transition_def maybeRestart_def
      restartDecision_def Let_def)

lemma spawnNode_budget: "spawn_budget c (spawnNode c env s) = Suc (spawn_budget c s)"
  by (simp add: spawnNode_def Let_def transition_budget) (simp add: spawn_budget_def pending_respawns_def)

lemma exited_budget: "spawn_budget c (on_exited c h s) = spawn_budget c s"
  by (simp add: on_exited_def Let_def transition_budget) (simp add: spawn_budget_def pending_respawns_def)

lemma stop_budget: "spawn_budget c (sv_stop c s) = spawn_budget c s"
proof -
  have "spawn_budget c (s\<lparr>sv_generation := g, sv_stopRequested := b\<rparr>) = spawn_budget c s"
    "spawn_budget c (s\<lparr>sv_generation := g\<rparr>) = spawn_budget c s" for g b
    by (simp_all add: spawn_budget_def pending_respawns_def)
  moreover have "spawn_budget c (t\<lparr>sv_signals := sg, sv_scheduled := sv_scheduled t @ [(Kill_after_grace h, d)]\<rparr>)
      = spawn_budget c t" for t sg h d
    by (simp add: spawn_budget_def pending_respawns_def)
  ultimately show ?thesis
    by (simp add: sv_stop_def Let_def transition_budget split: option.splits)
qed

lemma timer_budget:
  assumes "i < length (sv_scheduled s)"
  shows "spawn_budget c (perform c parse (A_timer i) s) \<le> spawn_budget c s"
proof -
  let ?s = "s\<lparr>sv_scheduled := take i (sv_scheduled s) @ drop (Suc i) (sv_scheduled s)\<rparr>"
  have "filter P (sv_scheduled s) = filter P (take i (sv_scheduled s))
      @ filter P [sv_scheduled s ! i] @ filter P (drop (Suc i) (sv_scheduled s))" for P
    by (metis append_Cons append_Nil assms filter_append id_take_nth_drop)
  then have cut: "pending_respawns s = pending_respawns ?s
      + length (filter (\<lambda>x. \<exists>env g d. x = (Respawn env g, d)) [sv_scheduled s ! i])"
    by (simp add: pending_respawns_def)
  show ?thesis
  proof (cases "sv_scheduled s ! i")
    case (Pair cb d)
    show ?thesis
    proof (cases cb)
      case (Respawn env g)
      then have "spawn_budget c ?s + 1 = spawn_budget c s" using cut Pair by (simp add: spawn_budget_def)
      then show ?thesis using Pair Respawn by (simp add: perform_def spawnNode_budget)
    next
      case (Kill_after_grace h)
      then have "spawn_budget c ?s = spawn_budget c s" using cut Pair by (simp add: spawn_budget_def)
      moreover have "spawn_budget c (?s\<lparr>sv_signals := sg\<rparr>) = spawn_budget c ?s" for sg
        by (simp add: spawn_budget_def pending_respawns_def)
      ultimately show ?thesis using Pair Kill_after_grace by (simp add: perform_def)
    qed
  qed
qed



end
