(* ===== verification/Client_Sync.thy ===== *)
theory Client_Sync
  imports Prelude
begin

text \<open>
  \<open>packages/client/src/sync-client.ts\<close>: the recovery of a client over the realtime push, and
  \<open>command-queue.ts\<close>: the offline queue of commands. Frames are JSON values; \<open>JSON.parse\<close> is a
  parameter whose failure is \<open>None\<close>. The closures of a client are operations on a record of its
  variables, with the frames it sent and the events it emitted logged.
\<close>

section \<open>Frames\<close>

text \<open>\<open>v.k\<close> for a property of a parsed value: absent on anything that is not an object.\<close>

fun json_field :: "string \<Rightarrow> json \<Rightarrow> json option" where
  "json_field k (JObj fields) = map_of fields k"
| "json_field k _ = None"

record subscribe_frame =
  sf_topics :: "string list"
  sf_since_cursor :: "int option"

definition buildSubscribeFrame :: "string list \<Rightarrow> int \<Rightarrow> subscribe_frame" where
  "buildSubscribeFrame topics sinceCursor =
     (let frame = \<lparr>sf_topics = topics, sf_since_cursor = None\<rparr> in
      if 0 < sinceCursor then frame\<lparr>sf_since_cursor := Some sinceCursor\<rparr> else frame)"

section \<open>The sync state\<close>

record sync_state =
  ss_seen :: "string list"
  ss_maxCursor :: int

definition new_sync_state :: sync_state where
  "new_sync_state = \<lparr>ss_seen = [], ss_maxCursor = 0\<rparr>"

text \<open>
  \<open>accept\<close>: a frame that is not a well-formed event is skipped; the cursor advances before the
  event's id is looked at; an event is emitted once per id.
\<close>

definition accept_event :: "json \<Rightarrow> int \<Rightarrow> sync_state \<Rightarrow> (json \<times> int) option \<times> sync_state" where
  "accept_event event cursor st =
     (let st1 = (if ss_maxCursor st < cursor then st\<lparr>ss_maxCursor := cursor\<rparr> else st)
      in case json_field ''id'' event of
           Some (JStr i) \<Rightarrow>
             if List.member (ss_seen st1) i then (None, st1)
             else (Some (event, cursor), st1\<lparr>ss_seen := ss_seen st1 @ [i]\<rparr>)
         | _ \<Rightarrow> (None, st1))"

definition accept_frame :: "json \<Rightarrow> sync_state \<Rightarrow> (json \<times> int) option \<times> sync_state" where
  "accept_frame raw st =
     (case (json_field ''type'' raw, json_field ''cursor'' raw, json_field ''event'' raw) of
        (Some (JStr ty), Some (JNum cursor), Some event) \<Rightarrow>
          if ty \<noteq> ''event'' \<or> event = JNull then (None, st) else accept_event event cursor st
      | _ \<Rightarrow> (None, st))"

section \<open>The client\<close>

text \<open>
  Transports are numbered in the order they are opened. \<open>sc_reconnects\<close> counts the reconnects
  handed to \<open>schedule\<close> and not yet run.
\<close>

record sync_client =
  sc_topics :: "string list"
  sc_state :: sync_state
  sc_transport :: "nat option"
  sc_opened :: nat
  sc_stopped :: bool
  sc_reconnects :: nat
  sc_sent :: "(nat \<times> subscribe_frame) list"
  sc_closed :: "nat list"
  sc_emitted :: "(json \<times> int) list"

definition createSyncClient :: "string list \<Rightarrow> sync_client" where
  "createSyncClient topics =
     \<lparr>sc_topics = topics, sc_state = new_sync_state, sc_transport = None, sc_opened = 0,
      sc_stopped = False, sc_reconnects = 0, sc_sent = [], sc_closed = [], sc_emitted = []\<rparr>"

definition client_open :: "sync_client \<Rightarrow> sync_client" where
  "client_open c =
     (if sc_stopped c then c
      else (let t = sc_opened c in
        c\<lparr>sc_opened := t + 1, sc_transport := Some t,
          sc_sent := sc_sent c @ [(t, buildSubscribeFrame (sc_topics c) (ss_maxCursor (sc_state c)))]\<rparr>))"

definition client_start :: "sync_client \<Rightarrow> sync_client" where
  "client_start c = client_open c"

definition client_stop :: "sync_client \<Rightarrow> sync_client" where
  "client_stop c =
     (let c1 = c\<lparr>sc_stopped := True\<rparr> in
      case sc_transport c1 of None \<Rightarrow> c1 | Some t \<Rightarrow> c1\<lparr>sc_closed := sc_closed c1 @ [t]\<rparr>)"

definition client_cursor :: "sync_client \<Rightarrow> int" where
  "client_cursor c = ss_maxCursor (sc_state c)"

definition on_message :: "(string \<Rightarrow> json option) \<Rightarrow> string \<Rightarrow> sync_client \<Rightarrow> sync_client" where
  "on_message json_parse data c =
     (case json_parse data of
        None \<Rightarrow> c
      | Some raw \<Rightarrow>
          (case accept_frame raw (sc_state c) of
             (None, st) \<Rightarrow> c\<lparr>sc_state := st\<rparr>
           | (Some e, st) \<Rightarrow> c\<lparr>sc_state := st, sc_emitted := sc_emitted c @ [e]\<rparr>))"

definition on_close :: "sync_client \<Rightarrow> sync_client" where
  "on_close c = (if \<not> sc_stopped c then c\<lparr>sc_reconnects := sc_reconnects c + 1\<rparr> else c)"

definition run_reconnect :: "sync_client \<Rightarrow> sync_client" where
  "run_reconnect c =
     (if 0 < sc_reconnects c then client_open (c\<lparr>sc_reconnects := sc_reconnects c - 1\<rparr>) else c)"

datatype client_action = CA_start | CA_stop | CA_message string | CA_close | CA_reconnect

fun client_step :: "(string \<Rightarrow> json option) \<Rightarrow> client_action \<Rightarrow> sync_client \<Rightarrow> sync_client" where
  "client_step p CA_start c = client_start c"
| "client_step p CA_stop c = client_stop c"
| "client_step p (CA_message d) c = on_message p d c"
| "client_step p CA_close c = on_close c"
| "client_step p CA_reconnect c = run_reconnect c"

definition client_run :: "(string \<Rightarrow> json option) \<Rightarrow> client_action list \<Rightarrow> sync_client \<Rightarrow> sync_client" where
  "client_run p as c = fold (client_step p) as c"

lemmas client_defs [model_defs] =
  buildSubscribeFrame_def accept_frame_def accept_event_def new_sync_state_def createSyncClient_def client_open_def
  client_start_def client_stop_def client_cursor_def on_message_def on_close_def run_reconnect_def

section \<open>Exactly once, in order of the cursor\<close>

definition event_id :: "json \<Rightarrow> string option" where
  "event_id e = (case json_field ''id'' e of Some (JStr i) \<Rightarrow> Some i | _ \<Rightarrow> None)"

text \<open>What \<open>accept\<close> can do.\<close>

definition skips :: "sync_state \<Rightarrow> (json \<times> int) option \<times> sync_state \<Rightarrow> bool" where
  "skips st r \<longleftrightarrow> fst r = None \<and> ss_seen (snd r) = ss_seen st \<and> ss_maxCursor st \<le> ss_maxCursor (snd r)"

definition emits :: "sync_state \<Rightarrow> (json \<times> int) option \<times> sync_state \<Rightarrow> bool" where
  "emits st r \<longleftrightarrow> (\<exists>e n i. r = (Some (e, n), \<lparr>ss_seen = ss_seen st @ [i], ss_maxCursor = max (ss_maxCursor st) n\<rparr>)
     \<and> event_id e = Some i \<and> i \<notin> set (ss_seen st))"

lemma accept_event_cases: "skips st (accept_event e n st) \<or> emits st (accept_event e n st)"
proof (cases "event_id e")
  case None
  then have "accept_event e n st = (None, if ss_maxCursor st < n then st\<lparr>ss_maxCursor := n\<rparr> else st)"
    by (auto simp: accept_event_def event_id_def Let_def split: option.splits json.splits)
  then show ?thesis by (simp add: skips_def)
next
  case (Some i)
  then have "json_field ''id'' e = Some (JStr i)"
    by (auto simp: event_id_def split: option.splits json.splits)
  then show ?thesis using Some
    by (cases st) (auto simp: accept_event_def skips_def emits_def Let_def max_def)
qed

lemma accept_frame_cases: "skips st (accept_frame raw st) \<or> emits st (accept_frame raw st)"
proof -
  have "(\<exists>e n. accept_frame raw st = accept_event e n st) \<or> accept_frame raw st = (None, st)"
    by (auto simp: accept_frame_def split: option.split json.split)
  moreover have "skips st (None, st)" by (simp add: skips_def)
  ultimately show ?thesis using accept_event_cases by metis
qed

definition client_inv :: "sync_client \<Rightarrow> bool" where
  "client_inv c \<longleftrightarrow>
     map (event_id \<circ> fst) (sc_emitted c) = map Some (ss_seen (sc_state c)) \<and> distinct (ss_seen (sc_state c))
     \<and> 0 \<le> ss_maxCursor (sc_state c)
     \<and> (\<forall>e n. (e, n) \<in> set (sc_emitted c) \<longrightarrow> n \<le> ss_maxCursor (sc_state c))
     \<and> (\<forall>t f. (t, f) \<in> set (sc_sent c) \<longrightarrow> t < sc_opened c \<and> sf_topics f = sc_topics c
          \<and> (\<forall>n. sf_since_cursor f = Some n \<longrightarrow> 0 < n \<and> n \<le> ss_maxCursor (sc_state c)))"

lemma open_inv: "client_inv c \<Longrightarrow> client_inv (client_open c)"
  by (fastforce simp: client_inv_def client_open_def buildSubscribeFrame_def Let_def)

lemma message_inv:
  assumes "client_inv c"
  shows "client_inv (on_message p d c)"
proof (cases "p d")
  case (Some raw)
  from accept_frame_cases [of "sc_state c" raw] show ?thesis
  proof
    assume "skips (sc_state c) (accept_frame raw (sc_state c))"
    then obtain st' where "on_message p d c = c\<lparr>sc_state := st'\<rparr>"
      "ss_seen st' = ss_seen (sc_state c)" "ss_maxCursor (sc_state c) \<le> ss_maxCursor st'"
      using Some by (cases "accept_frame raw (sc_state c)") (auto simp: on_message_def skips_def)
    then show ?thesis using assms by (fastforce simp: client_inv_def)
  next
    assume "emits (sc_state c) (accept_frame raw (sc_state c))"
    then obtain e n i where "on_message p d c = c\<lparr>sc_state := \<lparr>ss_seen = ss_seen (sc_state c) @ [i],
        ss_maxCursor = max (ss_maxCursor (sc_state c)) n\<rparr>, sc_emitted := sc_emitted c @ [(e, n)]\<rparr>"
      "event_id e = Some i" "i \<notin> set (ss_seen (sc_state c))"
      using Some by (auto simp: on_message_def emits_def)
    then show ?thesis using assms by (fastforce simp: client_inv_def le_max_iff_disj)
  qed
qed (simp add: on_message_def assms)

lemma client_step_inv: "client_inv c \<Longrightarrow> client_inv (client_step p a c)"
proof (cases a)
  case CA_reconnect
  assume "client_inv c"
  moreover have "client_inv (c\<lparr>sc_reconnects := n\<rparr>) = client_inv c" for n by (simp add: client_inv_def)
  ultimately show ?thesis using CA_reconnect by (simp add: run_reconnect_def open_inv)
qed (simp_all add: client_start_def open_inv message_inv,
     auto simp: client_inv_def client_stop_def on_close_def Let_def split: option.splits)

lemma client_run_inv: "client_inv c \<Longrightarrow> client_inv (client_run p as c)"
  by (induction as arbitrary: c) (simp_all add: client_run_def client_step_inv)

lemma client_initial_inv: "client_inv (createSyncClient topics)"
  by (simp add: client_inv_def createSyncClient_def new_sync_state_def)


text \<open>The witness: one event delivered twice is emitted once, and a reconnect asks from its cursor.\<close>

definition demo_frame :: json where
  "demo_frame = JObj [(''type'', JStr ''event''), (''topic'', JStr ''t''),
     (''event'', JObj [(''id'', JStr ''e1'')]), (''cursor'', JNum 7)]"


text \<open>After a stop, no transport is opened and nothing is subscribed.\<close>

lemma client_stopped: "sc_stopped c \<Longrightarrow> sc_stopped (client_step p a c) \<and> sc_opened (client_step p a c) = sc_opened c
    \<and> sc_sent (client_step p a c) = sc_sent c"
  by (cases a) (auto simp: client_defs Let_def split: option.splits prod.splits)

lemma client_stop_final:
  "sc_opened (client_run p as (client_stop c)) = sc_opened c \<and> sc_sent (client_run p as (client_stop c)) = sc_sent c"
proof -
  have "sc_stopped c \<Longrightarrow> sc_opened (client_run p as c) = sc_opened c \<and> sc_sent (client_run p as c) = sc_sent c" for c
    by (induction as arbitrary: c) (simp_all add: client_run_def client_stopped)
  moreover have "sc_stopped (client_stop c)" "sc_opened (client_stop c) = sc_opened c" "sc_sent (client_stop c) = sc_sent c"
    by (simp_all add: client_stop_def Let_def split: option.splits)
  ultimately show ?thesis by simp
qed

lemma client_cursor_mono: "client_cursor c \<le> client_cursor (client_step p a c)"
proof (cases a)
  case (CA_message d)
  show ?thesis
  proof (cases "p d")
    case (Some raw)
    then show ?thesis
      using accept_frame_cases [of "sc_state c" raw] CA_message
      by (cases "accept_frame raw (sc_state c)")
        (auto simp: on_message_def client_cursor_def skips_def emits_def split: option.splits)
  qed (simp add: CA_message on_message_def)
qed (auto simp: client_defs Let_def split: option.splits)

end
