(* ===== verification/Command_Queue.thy ===== *)
theory Command_Queue
  imports Prelude
begin

text \<open>
  \<open>packages/client/src/command-queue.ts\<close>: the offline queue of commands. The asynchronous send is
  split where the code awaits it: \<open>cq_flush\<close> starts a pass up to its first send, \<open>cq_result\<close>
  continues it with what the send reported, and commands may be enqueued in between. The sends
  made and the outcomes announced are logged.
\<close>

record command_conflict =
  cc_base_version :: int
  cc_current_version :: int
  cc_resource_type :: string
  cc_resource_id :: ident

record pending_command =
  pc_key :: string
  pc_baseVersion :: "int option"
  pc_payload :: json

datatype send_result = SR_applied "json option" | SR_conflict command_conflict | SR_retry

datatype command_outcome =
    CO_applied string json bool
  | CO_conflict string command_conflict

text \<open>\<open>flushing\<close> holds the outcomes of the pass in progress.\<close>

record command_queue =
  cq_queue :: "pending_command list"
  cq_settledAppliedKeys :: "string list"
  cq_flushing :: "command_outcome list option"
  cq_sends :: "pending_command list"
  cq_announced :: "command_outcome list"
  cq_returned :: "command_outcome list list"

definition createCommandQueue :: command_queue where
  "createCommandQueue =
     \<lparr>cq_queue = [], cq_settledAppliedKeys = [], cq_flushing = None, cq_sends = [],
      cq_announced = [], cq_returned = []\<rparr>"

definition cq_enqueue :: "pending_command \<Rightarrow> command_queue \<Rightarrow> command_queue" where
  "cq_enqueue cmd q = q\<lparr>cq_queue := cq_queue q @ [cmd]\<rparr>"

text \<open>The head of the loop: stop on an empty queue, otherwise send the first command.\<close>

definition cq_loop :: "command_outcome list \<Rightarrow> command_queue \<Rightarrow> command_queue" where
  "cq_loop outcomes q =
     (case cq_queue q of
        [] \<Rightarrow> q\<lparr>cq_flushing := None, cq_returned := cq_returned q @ [outcomes]\<rparr>
      | cmd # _ \<Rightarrow> q\<lparr>cq_flushing := Some outcomes, cq_sends := cq_sends q @ [cmd]\<rparr>)"

definition cq_flush :: "command_queue \<Rightarrow> command_queue" where
  "cq_flush q = (case cq_flushing q of Some _ \<Rightarrow> q | None \<Rightarrow> cq_loop [] q)"

definition settle :: "command_outcome \<Rightarrow> command_outcome list \<Rightarrow> command_queue \<Rightarrow> command_queue" where
  "settle outcome outcomes q =
     cq_loop (outcomes @ [outcome]) (q\<lparr>cq_announced := cq_announced q @ [outcome]\<rparr>)"

text \<open>The continuation of \<open>await opts.send(cmd)\<close> in a pass with the given outcomes.\<close>

definition cq_result :: "send_result \<Rightarrow> command_queue \<Rightarrow> command_queue" where
  "cq_result result q =
     (case (cq_flushing q, cq_queue q) of
        (Some outcomes, cmd # rest) \<Rightarrow>
          (case result of
             SR_retry \<Rightarrow> q\<lparr>cq_flushing := None, cq_returned := cq_returned q @ [outcomes]\<rparr>
           | SR_applied response \<Rightarrow>
               (let duplicate = List.member (cq_settledAppliedKeys q) (pc_key cmd);
                    q1 = q\<lparr>cq_queue := rest,
                           cq_settledAppliedKeys := List.insert (pc_key cmd) (cq_settledAppliedKeys q)\<rparr>
                in settle (CO_applied (pc_key cmd) (case response of None \<Rightarrow> JNull | Some r \<Rightarrow> r) duplicate)
                     outcomes q1)
           | SR_conflict conflict \<Rightarrow>
               settle (CO_conflict (pc_key cmd) conflict) outcomes (q\<lparr>cq_queue := rest\<rparr>))
      | _ \<Rightarrow> q)"

text \<open>A send that rejects ends the pass: \<open>finally\<close> clears \<open>flushing\<close>, the command stays.\<close>

definition cq_send_throws :: "command_queue \<Rightarrow> command_queue" where
  "cq_send_throws q = q\<lparr>cq_flushing := None\<rparr>"

definition cq_pending :: "command_queue \<Rightarrow> pending_command list" where
  "cq_pending q = cq_queue q"

datatype cq_action = CQ_enqueue pending_command | CQ_flush | CQ_result send_result | CQ_throw

fun cq_step :: "cq_action \<Rightarrow> command_queue \<Rightarrow> command_queue" where
  "cq_step (CQ_enqueue cmd) q = cq_enqueue cmd q"
| "cq_step CQ_flush q = cq_flush q"
| "cq_step (CQ_result r) q = cq_result r q"
| "cq_step CQ_throw q = cq_send_throws q"

definition cq_run :: "cq_action list \<Rightarrow> command_queue \<Rightarrow> command_queue" where
  "cq_run as q = fold cq_step as q"

fun enqueued :: "cq_action list \<Rightarrow> pending_command list" where
  "enqueued [] = []"
| "enqueued (CQ_enqueue cmd # as) = cmd # enqueued as"
| "enqueued (_ # as) = enqueued as"

lemma enqueued_append [simp]: "enqueued (as @ bs) = enqueued as @ enqueued bs"
  by (induction as rule: enqueued.induct) auto

lemmas command_queue_defs [model_defs] =
  createCommandQueue_def cq_enqueue_def cq_loop_def cq_flush_def settle_def cq_result_def
  cq_send_throws_def cq_pending_def

section \<open>Nothing lost, nothing reordered\<close>

fun outcome_key :: "command_outcome \<Rightarrow> string" where
  "outcome_key (CO_applied k r d) = k"
| "outcome_key (CO_conflict k c) = k"

text \<open>Which keys the outcomes so far report as applied, and what the duplicate flags say.\<close>

fun applied_keys :: "command_outcome list \<Rightarrow> string list" where
  "applied_keys [] = []"
| "applied_keys (CO_applied k r d # os) = k # applied_keys os"
| "applied_keys (CO_conflict k c # os) = applied_keys os"

lemma applied_keys_append [simp]: "applied_keys (os @ os') = applied_keys os @ applied_keys os'"
  by (induction os rule: applied_keys.induct) auto

definition flags_right :: "command_outcome list \<Rightarrow> bool" where
  "flags_right os \<longleftrightarrow> (\<forall>pre k r d post. os = pre @ CO_applied k r d # post \<longrightarrow> d = (k \<in> set (applied_keys pre)))"

lemma flags_right_snoc:
  "flags_right (os @ [x]) \<longleftrightarrow> flags_right os \<and> (\<forall>k r d. x = CO_applied k r d \<longrightarrow> d = (k \<in> set (applied_keys os)))"
proof
  assume r: "flags_right (os @ [x])"
  have "flags_right os" unfolding flags_right_def
  proof (intro allI impI)
    fix pre k r d post assume "os = pre @ CO_applied k r d # post"
    then have "os @ [x] = pre @ CO_applied k r d # (post @ [x])" by simp
    with r show "d = (k \<in> set (applied_keys pre))" unfolding flags_right_def by blast
  qed
  moreover have "\<forall>k r d. x = CO_applied k r d \<longrightarrow> d = (k \<in> set (applied_keys os))"
    using r unfolding flags_right_def by blast
  ultimately show "flags_right os \<and> (\<forall>k r d. x = CO_applied k r d \<longrightarrow> d = (k \<in> set (applied_keys os)))" ..
next
  assume r: "flags_right os \<and> (\<forall>k r d. x = CO_applied k r d \<longrightarrow> d = (k \<in> set (applied_keys os)))"
  show "flags_right (os @ [x])" unfolding flags_right_def
  proof (intro allI impI)
    fix pre k r d post assume eq: "os @ [x] = pre @ CO_applied k r d # post"
    show "d = (k \<in> set (applied_keys pre))"
    proof (cases post rule: rev_cases)
      case Nil
      then show ?thesis using eq r by simp
    next
      case (snoc p y)
      then have "os = pre @ CO_applied k r d # p" using eq by (metis append_Cons append_assoc butlast_snoc)
      then show ?thesis using r unfolding flags_right_def by blast
    qed
  qed
qed

definition settled_inv :: "pending_command list \<Rightarrow> command_queue \<Rightarrow> bool" where
  "settled_inv given q \<longleftrightarrow>
     map outcome_key (cq_announced q) = map pc_key (take (length (cq_announced q)) given)
     \<and> cq_queue q = drop (length (cq_announced q)) given \<and> length (cq_announced q) \<le> length given
     \<and> set (cq_settledAppliedKeys q) = set (applied_keys (cq_announced q))
     \<and> flags_right (cq_announced q)"

definition cq_busy :: "command_queue \<Rightarrow> bool" where
  "cq_busy q \<longleftrightarrow> (cq_flushing q \<noteq> None \<longrightarrow>
     cq_queue q \<noteq> [] \<and> cq_sends q \<noteq> [] \<and> last (cq_sends q) = hd (cq_queue q))"

definition cq_inv :: "pending_command list \<Rightarrow> command_queue \<Rightarrow> bool" where
  "cq_inv given q \<longleftrightarrow> settled_inv given q \<and> cq_busy q"

lemma cq_loop_frame [frame_rules]:
  "cq_announced (cq_loop os q) = cq_announced q" "cq_queue (cq_loop os q) = cq_queue q"
  "cq_settledAppliedKeys (cq_loop os q) = cq_settledAppliedKeys q"
  by (simp_all add: cq_loop_def split: list.split)

lemma cq_loop_busy: "cq_busy (cq_loop os q)"
  by (cases "cq_queue q") (simp_all add: cq_loop_def cq_busy_def)

lemma cq_loop_inv: "settled_inv given q \<Longrightarrow> cq_inv given (cq_loop os q)"
  by (simp add: settled_inv_def cq_inv_def frame_rules cq_loop_busy)

lemma enqueue_inv:
  assumes "cq_inv given q"
  shows "cq_inv (given @ [cmd]) (cq_enqueue cmd q)"
  using assms by (auto simp: cq_inv_def settled_inv_def cq_busy_def cq_enqueue_def)

lemma flush_inv: "cq_inv given q \<Longrightarrow> cq_inv given (cq_flush q)"
  by (cases "cq_flushing q") (simp_all add: cq_flush_def cq_loop_inv cq_inv_def [of given q])

lemma settle_inv:
  assumes "cq_inv given q" "cq_queue q = cmd # rest" "outcome_key x = pc_key cmd"
    and "set keys = set (applied_keys (cq_announced q @ [x]))"
    and "\<forall>k r d. x = CO_applied k r d \<longrightarrow> d = (k \<in> set (applied_keys (cq_announced q)))"
  shows "cq_inv given (settle x os (q\<lparr>cq_queue := rest, cq_settledAppliedKeys := keys\<rparr>))"
proof -
  let ?n = "length (cq_announced q)"
  have q: "drop ?n given = cmd # rest" using assms(1,2) by (simp add: cq_inv_def settled_inv_def)
  then have n: "?n < length given" by (metis drop_all list.distinct(1) not_le)
  have nth: "given ! ?n = cmd" and rest: "drop (Suc ?n) given = rest"
    using q n by (simp_all add: Cons_nth_drop_Suc [symmetric])
  have "take (Suc ?n) given = take ?n given @ [cmd]" using n nth by (simp add: take_Suc_conv_app_nth)
  then show ?thesis
    using assms n rest unfolding settle_def
    by (intro cq_loop_inv) (simp add: settled_inv_def cq_inv_def flags_right_snoc)
qed

lemma result_inv:
  assumes "cq_inv given q"
  shows "cq_inv given (cq_result r q)"
proof (cases "cq_flushing q")
  case (Some os)
  then obtain cmd rest where q: "cq_queue q = cmd # rest"
    using assms by (cases "cq_queue q") (auto simp: cq_inv_def cq_busy_def)
  have keys: "set (cq_settledAppliedKeys q) = set (applied_keys (cq_announced q))"
    using assms by (simp add: cq_inv_def settled_inv_def)
  show ?thesis
  proof (cases r)
    case (SR_applied resp)
    let ?x = "CO_applied (pc_key cmd) (case resp of None \<Rightarrow> JNull | Some r \<Rightarrow> r)
        (List.member (cq_settledAppliedKeys q) (pc_key cmd))"
    have "cq_result r q = settle ?x os (q\<lparr>cq_queue := rest,
        cq_settledAppliedKeys := List.insert (pc_key cmd) (cq_settledAppliedKeys q)\<rparr>)"
      using Some q SR_applied by (simp add: cq_result_def Let_def)
    moreover have "cq_inv given \<dots>"
      by (rule settle_inv [OF assms q]) (simp_all add: keys)
    ultimately show ?thesis by (rule ssubst)
  next
    case (SR_conflict conf)
    have "cq_result r q = settle (CO_conflict (pc_key cmd) conf) os
        (q\<lparr>cq_queue := rest, cq_settledAppliedKeys := cq_settledAppliedKeys q\<rparr>)"
      using Some q SR_conflict by (simp add: cq_result_def)
    moreover have "cq_inv given \<dots>"
      by (rule settle_inv [OF assms q]) (simp_all add: keys)
    ultimately show ?thesis by (rule ssubst)
  next
    case SR_retry
    then have "cq_result r q = q\<lparr>cq_flushing := None, cq_returned := cq_returned q @ [os]\<rparr>"
      using Some q by (simp add: cq_result_def)
    then show ?thesis using assms by (simp add: cq_inv_def settled_inv_def cq_busy_def)
  qed
qed (simp add: cq_result_def assms)

lemma cq_step_inv: "cq_inv given q \<Longrightarrow> cq_inv (given @ enqueued [a]) (cq_step a q)"
  by (cases a) (auto simp: enqueue_inv flush_inv result_inv, simp add: cq_inv_def settled_inv_def cq_busy_def cq_send_throws_def)

lemma cq_run_inv: "cq_inv given q \<Longrightarrow> cq_inv (given @ enqueued as) (cq_run as q)"
proof (induction as arbitrary: given q)
  case (Cons a as)
  from Cons.IH [OF cq_step_inv [OF Cons.prems, of a]] show ?case
    using enqueued_append [of "[a]" as] by (simp add: cq_run_def del: enqueued_append)
qed (simp add: cq_run_def)

lemma cq_initial_inv: "cq_inv [] createCommandQueue"
  by (simp add: cq_inv_def settled_inv_def cq_busy_def createCommandQueue_def flags_right_def)

text \<open>
  Property C28. No command is lost, repeated or reordered: after any interleaving of enqueues,
  flushes and send results, the outcomes announced are those of the first commands enqueued, in
  their order, the rest is still queued in order, a pass in progress is sending the head of the
  queue, and an applied outcome is marked a duplicate exactly when its key was applied before.
\<close>

theorem command_queue_fifo:
  "map outcome_key (cq_announced (cq_run as createCommandQueue)) @ map pc_key (cq_pending (cq_run as createCommandQueue))
      = map pc_key (enqueued as)
   \<and> cq_pending (cq_run as createCommandQueue)
      = drop (length (cq_announced (cq_run as createCommandQueue))) (enqueued as)
   \<and> flags_right (cq_announced (cq_run as createCommandQueue))
   \<and> (cq_flushing (cq_run as createCommandQueue) \<noteq> None \<longrightarrow>
        last (cq_sends (cq_run as createCommandQueue)) = hd (cq_pending (cq_run as createCommandQueue)))"
proof -
  have inv: "cq_inv (enqueued as) (cq_run as createCommandQueue)"
    using cq_run_inv [OF cq_initial_inv, of as] by simp
  then show ?thesis
    by (auto simp: cq_inv_def settled_inv_def cq_busy_def cq_pending_def simp flip: map_append)
qed

definition demo_command :: "string \<Rightarrow> pending_command" where
  "demo_command k = \<lparr>pc_key = k, pc_baseVersion = None, pc_payload = JNull\<rparr>"

definition demo_actions :: "cq_action list" where
  "demo_actions = [CQ_enqueue (demo_command ''a''), CQ_enqueue (demo_command ''b''), CQ_flush, CQ_result (SR_applied None)]"

lemma command_queue_fifo_witness:
  "map outcome_key (cq_announced (cq_run demo_actions createCommandQueue))
     @ map pc_key (cq_pending (cq_run demo_actions createCommandQueue)) = [''a'', ''b'']
   \<and> last (cq_sends (cq_run demo_actions createCommandQueue)) = demo_command ''b''"
proof -
  have "cq_flushing (cq_run demo_actions createCommandQueue) \<noteq> None"
    "cq_pending (cq_run demo_actions createCommandQueue) = [demo_command ''b'']"
    by code_simp+
  then show ?thesis
    using command_queue_fifo [of demo_actions] by (simp add: demo_actions_def demo_command_def)
qed

end
