(* ===== verification/Presence.thy ===== *)
theory Presence
  imports Task_State
begin

text \<open>
  \<open>packages/domain/src/device.ts\<close>, \<open>presence.ts\<close>, \<open>runtime.ts\<close> and the records and helpers of
  \<open>collaboration.ts\<close>: the device token format, the freshness of a heartbeat, the presence
  synthesized from gathered facts, the eligibility tests of the scheduler, and what blockers and
  handoffs say about a team. \<open>Date.parse\<close> is a parameter whose \<open>NaN\<close> is \<open>None\<close>; every theorem
  holds for every parser.
\<close>

section \<open>Devices\<close>

datatype device_platform = Windows | Macos | Android | Ios
datatype device_trust = DTr_active | DTr_revoked
datatype device_token_kind = Control_session | Node_token
datatype device_token_status = DTok_active | DTok_revoked
datatype pairing_code_status = PC_pending | PC_claimed | PC_expired | PC_cancelled
datatype device_presence_state = DP_online | DP_stale | DP_offline

record device =
  dev_id :: ident
  dev_organization_id :: ident
  dev_display_name :: string
  dev_platform :: device_platform
  dev_app_version :: string
  dev_computer_id :: "ident option"
  dev_enrolled_by_user_id :: ident
  dev_trust :: device_trust
  dev_last_seen_at :: "iso_time option"
  dev_created_at :: iso_time
  dev_revoked_at :: "iso_time option"

record device_token =
  dt_id :: ident
  dt_organization_id :: ident
  dt_device_id :: ident
  dt_kind :: device_token_kind
  dt_status :: device_token_status
  dt_created_at :: iso_time
  dt_last_used_at :: "iso_time option"
  dt_expires_at :: "iso_time option"
  dt_revoked_at :: "iso_time option"

record pairing_code =
  pair_id :: ident
  pair_organization_id :: ident
  pair_status :: pairing_code_status
  pair_created_by_user_id :: ident
  pair_intended_platform :: "device_platform option"
  pair_expires_at :: iso_time
  pair_claimed_by_device_id :: "ident option"
  pair_created_at :: iso_time
  pair_claimed_at :: "iso_time option"

definition DEVICE_TOKEN_PREFIX :: string where
  "DEVICE_TOKEN_PREFIX = ''sk_device_''"

definition is_alnum :: "char \<Rightarrow> bool" where
  "is_alnum c = (let n = (of_char c :: nat) in
     (48 \<le> n \<and> n \<le> 57) \<or> (65 \<le> n \<and> n \<le> 90) \<or> (97 \<le> n \<and> n \<le> 122))"

text \<open>\<open>/^[A-Za-z0-9-]+$/\<close> and \<open>/^[A-Za-z0-9_-]+$/\<close>; without the \<open>m\<close> flag \<open>$\<close> is the end of the string.\<close>

definition LOOKUP_SEGMENT :: "string \<Rightarrow> bool" where
  "LOOKUP_SEGMENT s = (s \<noteq> [] \<and> list_all (\<lambda>c. is_alnum c \<or> c = CHR ''-'') s)"

definition SECRET_SEGMENT :: "string \<Rightarrow> bool" where
  "SECRET_SEGMENT s = (s \<noteq> [] \<and> list_all (\<lambda>c. is_alnum c \<or> c = CHR ''_'' \<or> c = CHR ''-'') s)"

definition formatDeviceToken :: "string \<Rightarrow> string \<Rightarrow> string" where
  "formatDeviceToken lookup secret = DEVICE_TOKEN_PREFIX @ lookup @ ''_'' @ secret"

record parsed_device_token =
  pd_lookup :: string
  pd_secret :: string

text \<open>\<open>sep <= 0\<close> also covers \<open>indexOf\<close> returning \<open>-1\<close>, the \<open>None\<close> of \<open>index_of\<close>.\<close>

definition parseDeviceToken :: "string \<Rightarrow> parsed_device_token option" where
  "parseDeviceToken raw =
     (if \<not> starts_with raw DEVICE_TOKEN_PREFIX then None
      else
        (let body = drop (length DEVICE_TOKEN_PREFIX) raw in
         case index_of (CHR ''_'') body of
           None \<Rightarrow> None
         | Some sep \<Rightarrow>
             if sep \<le> 0 \<or> int sep \<ge> int (length body) - 1 then None
             else
               (let lookup = take sep body; secret = drop (sep + 1) body in
                if \<not> LOOKUP_SEGMENT lookup \<or> \<not> SECRET_SEGMENT secret then None
                else Some \<lparr>pd_lookup = lookup, pd_secret = secret\<rparr>)))"

section \<open>Freshness\<close>

record presence_windows =
  onlineWithinMs :: int
  staleWithinMs :: int

definition derivePresenceState ::
  "(string \<Rightarrow> int option) \<Rightarrow> iso_time option \<Rightarrow> iso_time \<Rightarrow> presence_windows \<Rightarrow> device_presence_state" where
  "derivePresenceState parse lastSeenIso nowIso windows =
     (case lastSeenIso of
        None \<Rightarrow> DP_offline
      | Some seen \<Rightarrow>
          (case (parse seen, parse nowIso) of
             (Some lastSeen, Some now_ms) \<Rightarrow>
               (let age = now_ms - lastSeen in
                if age \<le> onlineWithinMs windows then DP_online
                else if age \<le> staleWithinMs windows then DP_stale
                else DP_offline)
           | _ \<Rightarrow> DP_offline))"

definition isRuntimeStale :: "(string \<Rightarrow> int option) \<Rightarrow> iso_time option \<Rightarrow> iso_time \<Rightarrow> int \<Rightarrow> bool" where
  "isRuntimeStale parse lastSeenIso nowIso staleAfter =
     (case lastSeenIso of
        None \<Rightarrow> True
      | Some seen \<Rightarrow>
          (case (parse seen, parse nowIso) of
             (Some lastSeen, Some now_ms) \<Rightarrow> staleAfter < now_ms - lastSeen
           | _ \<Rightarrow> True))"

definition ageMs :: "(string \<Rightarrow> int option) \<Rightarrow> iso_time option \<Rightarrow> iso_time \<Rightarrow> int option" where
  "ageMs parse lastSeenIso nowIso =
     (case lastSeenIso of
        None \<Rightarrow> None
      | Some seen \<Rightarrow>
          (case (parse seen, parse nowIso) of
             (Some last_ms, Some now_ms) \<Rightarrow> Some (now_ms - last_ms)
           | _ \<Rightarrow> None))"

section \<open>Presence\<close>

datatype connection_state = CS_online | CS_stale | CS_offline | CS_revoked

datatype work_state =
    WS_idle | WS_queued | WS_running | WS_awaiting_input | WS_awaiting_approval | WS_blocked | WS_paused

datatype runtime_presence_state = RP_available | RP_busy | RP_disabled | RP_stale | RP_missing

datatype health_reason =
    HR_heartbeat_timeout | HR_device_revoked | HR_runtime_missing | HR_approval_required
  | HR_lease_conflict | HR_daemon_restarting

datatype agent_runtime_status = AR_detected | AR_available | AR_missing | AR_disabled

record active_run_fact =
  af_runStatus :: run_status
  af_taskStatus :: task_status

text \<open>
  The optional flags of the facts are false when absent; \<open>runtimeLastSeenAt\<close> absent or null is
  \<open>None\<close>. A limit of \<open>None\<close> is \<open>Number.POSITIVE_INFINITY\<close>, which only the computer synthesis uses.
\<close>

record instance_facts =
  if_agentInstanceId :: ident
  if_agentId :: ident
  if_computerId :: ident
  if_hasLiveConnection :: bool
  if_deviceTrust :: "device_trust option"
  if_lastSeenAt :: "iso_time option"
  if_runtimeLastSeenAt :: "iso_time option"
  if_runtimeStatus :: "agent_runtime_status option"
  if_concurrencyLimit :: int
  if_activeRuns :: "active_run_fact list"
  if_daemonRestarting :: bool
  if_leaseConflict :: bool

record runtime_fact =
  rt_runtime :: string
  rt_status :: agent_runtime_status
  rt_lastSeenAt :: "iso_time option"

record computer_facts =
  co_computerId :: ident
  co_hasLiveConnection :: bool
  co_deviceTrust :: "device_trust option"
  co_lastHeartbeatAt :: "iso_time option"
  co_runtimes :: "runtime_fact list"
  co_activeRuns :: nat
  co_queueDepth :: nat
  co_daemonRestarting :: bool

definition isActiveRunStatus :: "string \<Rightarrow> bool" where
  "isActiveRunStatus s = (\<not> List.member [''completed'', ''failed'', ''cancelled''] s)"

fun presence_connection :: "device_presence_state \<Rightarrow> connection_state" where
  "presence_connection DP_online = CS_online"
| "presence_connection DP_stale = CS_stale"
| "presence_connection DP_offline = CS_offline"

definition deriveConnection ::
  "(string \<Rightarrow> int option) \<Rightarrow> bool \<Rightarrow> device_trust option \<Rightarrow> iso_time option \<Rightarrow> iso_time \<Rightarrow> presence_windows
     \<Rightarrow> connection_state" where
  "deriveConnection parse hasLive trust lastSeenAt nowIso windows =
     (if trust = Some DTr_revoked then CS_revoked
      else if \<not> hasLive then CS_offline
      else presence_connection (derivePresenceState parse lastSeenAt nowIso windows))"

definition at_capacity :: "nat \<Rightarrow> int option \<Rightarrow> bool" where
  "at_capacity active limit = (case limit of None \<Rightarrow> False | Some l \<Rightarrow> l \<le> int active)"

definition coalesce :: "'a option \<Rightarrow> 'a option \<Rightarrow> 'a option" where
  "coalesce a b = (case a of None \<Rightarrow> b | Some x \<Rightarrow> Some x)"

definition deriveRuntime ::
  "(string \<Rightarrow> int option) \<Rightarrow> agent_runtime_status option \<Rightarrow> iso_time option \<Rightarrow> iso_time option \<Rightarrow> int option
     \<Rightarrow> nat \<Rightarrow> iso_time \<Rightarrow> presence_windows \<Rightarrow> runtime_presence_state" where
  "deriveRuntime parse status lastSeenAt runtimeLastSeenAt limit active nowIso windows =
     (if status = None \<or> status = Some AR_missing then RP_missing
      else if status = Some AR_disabled then RP_disabled
      else if at_capacity active limit then RP_busy
      else if derivePresenceState parse (coalesce runtimeLastSeenAt lastSeenAt) nowIso windows \<noteq> DP_online
        then RP_stale
      else RP_available)"

definition deriveWork :: "active_run_fact list \<Rightarrow> work_state" where
  "deriveWork activeRuns =
     (if length activeRuns = 0 then WS_idle
      else
        (let taskStatuses = map af_taskStatus activeRuns; runStatuses = map af_runStatus activeRuns in
         if TS_awaiting_approval \<in> set taskStatuses then WS_awaiting_approval
         else if TS_blocked \<in> set taskStatuses then WS_blocked
         else if RS_awaiting_input \<in> set runStatuses then WS_awaiting_input
         else if RS_paused \<in> set runStatuses then WS_paused
         else if RS_running \<in> set runStatuses then WS_running
         else if RS_queued \<in> set runStatuses \<or> RS_starting \<in> set runStatuses then WS_queued
         else WS_idle))"

definition deriveHealthReason ::
  "connection_state \<Rightarrow> work_state \<Rightarrow> runtime_presence_state \<Rightarrow> bool \<Rightarrow> bool \<Rightarrow> health_reason option" where
  "deriveHealthReason connection work runtime daemonRestarting leaseConflict =
     (if connection = CS_revoked then Some HR_device_revoked
      else if runtime = RP_missing then Some HR_runtime_missing
      else if connection = CS_stale \<or> connection = CS_offline \<or> runtime = RP_stale
        then Some HR_heartbeat_timeout
      else if daemonRestarting then Some HR_daemon_restarting
      else if work = WS_awaiting_approval then Some HR_approval_required
      else if leaseConflict then Some HR_lease_conflict
      else None)"

definition facts_connection ::
  "(string \<Rightarrow> int option) \<Rightarrow> instance_facts \<Rightarrow> iso_time \<Rightarrow> presence_windows \<Rightarrow> connection_state" where
  "facts_connection parse f nowIso windows =
     deriveConnection parse (if_hasLiveConnection f) (if_deviceTrust f) (if_lastSeenAt f) nowIso windows"

definition facts_runtime ::
  "(string \<Rightarrow> int option) \<Rightarrow> instance_facts \<Rightarrow> iso_time \<Rightarrow> presence_windows \<Rightarrow> runtime_presence_state" where
  "facts_runtime parse f nowIso windows =
     deriveRuntime parse (if_runtimeStatus f) (if_lastSeenAt f) (if_runtimeLastSeenAt f)
       (Some (if_concurrencyLimit f)) (length (if_activeRuns f)) nowIso windows"

definition isSchedulable ::
  "(string \<Rightarrow> int option) \<Rightarrow> instance_facts \<Rightarrow> iso_time \<Rightarrow> presence_windows \<Rightarrow> bool" where
  "isSchedulable parse f nowIso windows =
     (if facts_connection parse f nowIso windows \<noteq> CS_online then False
      else if if_concurrencyLimit f \<le> int (length (if_activeRuns f)) then False
      else facts_runtime parse f nowIso windows = RP_available)"

definition isInstanceAdminAvailable :: "string \<Rightarrow> bool" where
  "isInstanceAdminAvailable adminStatus =
     (adminStatus \<noteq> ''disabled'' \<and> adminStatus \<noteq> ''stopping'' \<and> adminStatus \<noteq> ''failed'')"

definition hasSpareCapacity :: "nat \<Rightarrow> int \<Rightarrow> bool" where
  "hasSpareCapacity activeRuns concurrencyLimit = (int activeRuns < max 1 concurrencyLimit)"

definition isDeviceTrustEligible :: "bool \<Rightarrow> bool" where
  "isDeviceTrustEligible hasRevokedDevice = (\<not> hasRevokedDevice)"

definition concurrencyLimitFromConfig :: "(string \<times> json) list option \<Rightarrow> int" where
  "concurrencyLimitFromConfig config =
     (case map_of (case config of None \<Rightarrow> [] | Some c \<Rightarrow> c) ''concurrency_limit'' of
        Some (JNum raw) \<Rightarrow> if 0 < raw then raw else 1
      | _ \<Rightarrow> 1)"

record instance_presence =
  ip_agent_instance_id :: ident
  ip_agent_id :: ident
  ip_computer_id :: ident
  ip_connection :: connection_state
  ip_work :: work_state
  ip_runtime :: runtime_presence_state
  ip_health_reason :: "health_reason option"
  ip_concurrency_limit :: int
  ip_active_runs :: nat
  ip_last_seen_at :: "iso_time option"
  ip_age_ms :: "int option"
  ip_source :: "string \<times> string \<times> string"
  ip_as_of :: iso_time

definition synthesizeAgentInstancePresence ::
  "(string \<Rightarrow> int option) \<Rightarrow> instance_facts \<Rightarrow> iso_time \<Rightarrow> presence_windows \<Rightarrow> instance_presence" where
  "synthesizeAgentInstancePresence parse f nowIso windows =
     (let connection = facts_connection parse f nowIso windows;
          work = deriveWork (if_activeRuns f);
          runtime = facts_runtime parse f nowIso windows;
          reason = deriveHealthReason connection work runtime (if_daemonRestarting f) (if_leaseConflict f)
      in \<lparr>ip_agent_instance_id = if_agentInstanceId f, ip_agent_id = if_agentId f,
          ip_computer_id = if_computerId f, ip_connection = connection, ip_work = work,
          ip_runtime = runtime, ip_health_reason = reason,
          ip_concurrency_limit = if_concurrencyLimit f, ip_active_runs = length (if_activeRuns f),
          ip_last_seen_at = coalesce (if_runtimeLastSeenAt f) (if_lastSeenAt f),
          ip_age_ms = ageMs parse (coalesce (if_runtimeLastSeenAt f) (if_lastSeenAt f)) nowIso,
          ip_source = (''device+socket+heartbeat'', ''runs+tasks'', ''agent_runtimes''),
          ip_as_of = nowIso\<rparr>)"

record runtime_presence =
  rp_runtime :: string
  rp_status :: runtime_presence_state
  rp_last_seen_at :: "iso_time option"
  rp_age_ms :: "int option"

record computer_presence =
  cp_computer_id :: ident
  cp_connection :: connection_state
  cp_health_reason :: "health_reason option"
  cp_runtimes :: "runtime_presence list"
  cp_active_runs :: nat
  cp_queue_depth :: nat
  cp_last_heartbeat_at :: "iso_time option"
  cp_age_ms :: "int option"
  cp_as_of :: iso_time

definition synthesizeComputerPresence ::
  "(string \<Rightarrow> int option) \<Rightarrow> computer_facts \<Rightarrow> iso_time \<Rightarrow> presence_windows \<Rightarrow> computer_presence" where
  "synthesizeComputerPresence parse f nowIso windows =
     (let connection = deriveConnection parse (co_hasLiveConnection f) (co_deviceTrust f)
            (co_lastHeartbeatAt f) nowIso windows;
          runtimes = map (\<lambda>r. \<lparr>rp_runtime = rt_runtime r,
              rp_status = deriveRuntime parse (Some (rt_status r)) (rt_lastSeenAt r) None None 0 nowIso windows,
              rp_last_seen_at = rt_lastSeenAt r, rp_age_ms = ageMs parse (rt_lastSeenAt r) nowIso\<rparr>)
            (co_runtimes f);
          anyMissing = list_ex (\<lambda>r. rp_status r = RP_missing) runtimes;
          reason = deriveHealthReason connection WS_idle (if anyMissing then RP_missing else RP_available)
            (co_daemonRestarting f) False
      in \<lparr>cp_computer_id = co_computerId f, cp_connection = connection, cp_health_reason = reason,
          cp_runtimes = runtimes, cp_active_runs = co_activeRuns f, cp_queue_depth = co_queueDepth f,
          cp_last_heartbeat_at = co_lastHeartbeatAt f,
          cp_age_ms = ageMs parse (co_lastHeartbeatAt f) nowIso, cp_as_of = nowIso\<rparr>)"

lemmas presence_defs [model_defs] =
  derivePresenceState_def isRuntimeStale_def ageMs_def deriveConnection_def at_capacity_def coalesce_def
  deriveRuntime_def deriveWork_def deriveHealthReason_def facts_connection_def facts_runtime_def
  isSchedulable_def synthesizeAgentInstancePresence_def synthesizeComputerPresence_def

section \<open>Collaboration records\<close>

datatype actor_type = Act_user | Act_agent | Act_system | Act_bridge

datatype decision_status = Dec_proposed | Dec_accepted | Dec_rejected | Dec_superseded
datatype handoff_status = HO_open | HO_accepted | HO_completed | HO_cancelled | HO_expired
datatype blocker_status = Blk_open | Blk_mitigated | Blk_accepted_risk | Blk_resolved

datatype blocker_type =
    BT_approval | BT_dependency | BT_lease_conflict | BT_offline_agent | BT_stale_runtime | BT_policy
  | BT_budget | BT_failed_run | BT_missing_artifact | BT_human_input

datatype blocker_source_kind = BS_approval | BS_dag | BS_lease | BS_run | BS_presence | BS_manual

datatype handoff_priority = HP_low | HP_normal | HP_high

record base_links =
  bl_room_id :: ident
  bl_task_id :: "ident option"
  bl_run_id :: "ident option"
  bl_goal_id :: "ident option"
  bl_plan_id :: "ident option"

record decision_record = base_links +
  dec_id :: ident
  dec_organization_id :: ident
  dec_source_message_id :: "ident option"
  dec_status :: decision_status
  dec_actor_type :: actor_type
  dec_actor_id :: ident
  dec_summary :: string
  dec_rationale :: "string option"
  dec_alternatives :: "string list"
  dec_evidence_refs :: "string list"
  dec_impact_summary :: "string option"
  dec_superseded_by_id :: "ident option"
  dec_created_at :: iso_time
  dec_updated_at :: iso_time

record handoff_record = base_links +
  ho_id :: ident
  ho_organization_id :: ident
  ho_sender_type :: actor_type
  ho_sender_id :: ident
  ho_recipient_type :: actor_type
  ho_recipient_id :: ident
  ho_expected_action :: string
  ho_blocking_condition :: "string option"
  ho_priority :: "handoff_priority option"
  ho_due_at :: "iso_time option"
  ho_status :: handoff_status
  ho_next_action :: "string option"
  ho_latest_status :: "string option"
  ho_created_at :: iso_time
  ho_updated_at :: iso_time

record blocker_record = base_links +
  blk_id :: ident
  blk_organization_id :: ident
  blk_type :: blocker_type
  blk_owner_type :: actor_type
  blk_owner_id :: ident
  blk_source_kind :: "blocker_source_kind option"
  blk_source_id :: "ident option"
  blk_summary :: string
  blk_mitigation :: "string option"
  blk_next_action :: "string option"
  blk_status :: blocker_status
  blk_created_at :: iso_time
  blk_updated_at :: iso_time

definition blockerNeedsHuman :: "blocker_type \<Rightarrow> bool" where
  "blockerNeedsHuman t = List.member [BT_approval, BT_human_input, BT_policy, BT_budget] t"

definition isActiveBlocker :: "blocker_status \<Rightarrow> bool" where
  "isActiveBlocker s = (s = Blk_open \<or> s = Blk_mitigated)"

definition isOpenHandoff :: "handoff_status \<Rightarrow> bool" where
  "isOpenHandoff s = (s = HO_open \<or> s = HO_accepted)"

datatype resume_state = Safe_to_resume | Needs_human_decision | No_active_blockers

definition resumeStateFromBlockers :: "(blocker_type \<times> blocker_status) list \<Rightarrow> resume_state" where
  "resumeStateFromBlockers blockers =
     (let active = filter (\<lambda>b. isActiveBlocker (snd b)) blockers in
      if length active = 0 then No_active_blockers
      else if list_ex (\<lambda>b. blockerNeedsHuman (fst b)) active then Needs_human_decision
      else Safe_to_resume)"

record wait_edge =
  we_waiter_type :: actor_type
  we_waiter_id :: ident
  we_blocked_on_type :: actor_type
  we_blocked_on_id :: ident
  we_expected_action :: string
  we_handoff_id :: ident

definition waitEdgesFromHandoffs :: "handoff_record list \<Rightarrow> wait_edge list" where
  "waitEdgesFromHandoffs handoffs =
     map (\<lambda>h. \<lparr>we_waiter_type = ho_sender_type h, we_waiter_id = ho_sender_id h,
               we_blocked_on_type = ho_recipient_type h, we_blocked_on_id = ho_recipient_id h,
               we_expected_action = ho_expected_action h, we_handoff_id = ho_id h\<rparr>)
       (filter (\<lambda>h. isOpenHandoff (ho_status h)) handoffs)"

section \<open>Tokens\<close>

lemma lookup_no_underscore: "LOOKUP_SEGMENT s \<Longrightarrow> CHR ''_'' \<notin> set s"
  by (auto simp: LOOKUP_SEGMENT_def list_all_iff is_alnum_def Let_def)

text \<open>
  Property C38. The device token format is unambiguous: a string parses to a lookup and a secret
  exactly when both are of the allowed shape and the string is their formatted token; so every
  well-formed pair round-trips, even when the secret contains underscores, and nothing else parses.
\<close>

theorem device_token_roundtrip:
  "parseDeviceToken raw = Some \<lparr>pd_lookup = l, pd_secret = s\<rparr> \<longleftrightarrow>
     LOOKUP_SEGMENT l \<and> SECRET_SEGMENT s \<and> raw = formatDeviceToken l s"
proof
  assume "parseDeviceToken raw = Some \<lparr>pd_lookup = l, pd_secret = s\<rparr>"
  then obtain body sep where raw: "raw = DEVICE_TOKEN_PREFIX @ body"
    and sep: "index_of (CHR ''_'') body = Some sep"
    and l: "l = take sep body" "LOOKUP_SEGMENT l" and s: "s = drop (sep + 1) body" "SECRET_SEGMENT s"
    by (auto simp: parseDeviceToken_def Let_def starts_with_iff split: if_splits option.splits)
  have "sep < length body" "body ! sep = CHR ''_''" using index_of_Some [OF sep] by auto
  then have "body = take sep body @ CHR ''_'' # drop (Suc sep) body"
    by (metis id_take_nth_drop)
  also have "\<dots> = l @ ''_'' @ s" using l s by simp
  finally have "body = l @ ''_'' @ s" .
  then have "raw = formatDeviceToken l s" using raw by (simp add: formatDeviceToken_def)
  with l(2) s(2) show "LOOKUP_SEGMENT l \<and> SECRET_SEGMENT s \<and> raw = formatDeviceToken l s" by simp
next
  assume ok: "LOOKUP_SEGMENT l \<and> SECRET_SEGMENT s \<and> raw = formatDeviceToken l s"
  then have raw: "raw = DEVICE_TOKEN_PREFIX @ l @ CHR ''_'' # s" by (simp add: formatDeviceToken_def)
  have ne: "l \<noteq> []" "s \<noteq> []" using ok by (auto simp: LOOKUP_SEGMENT_def SECRET_SEGMENT_def)
  have idx: "index_of (CHR ''_'') (l @ CHR ''_'' # s) = Some (length l)"
    using ok lookup_no_underscore by (simp add: index_of_append)
  have "starts_with raw DEVICE_TOKEN_PREFIX" "drop (length DEVICE_TOKEN_PREFIX) raw = l @ CHR ''_'' # s"
    by (simp_all add: raw)
  then show "parseDeviceToken raw = Some \<lparr>pd_lookup = l, pd_secret = s\<rparr>"
    using ok idx ne by (simp add: parseDeviceToken_def)
qed

section \<open>Eligibility\<close>

text \<open>A window in which the tighter state is inside the looser one.\<close>

lemma derivePresenceState_online:
  "derivePresenceState parse seen now w = DP_online \<longleftrightarrow>
     (\<exists>t a b. seen = Some t \<and> parse t = Some a \<and> parse now = Some b \<and> b - a \<le> onlineWithinMs w)"
  by (auto simp: derivePresenceState_def Let_def split: option.splits)

lemma presence_connection_online [simp]: "presence_connection p = CS_online \<longleftrightarrow> p = DP_online"
  by (cases p) simp_all

text \<open>
  An instance may be scheduled exactly when its device is not revoked, it has a live
  connection and a heartbeat in the online window, its runtime row is neither missing nor disabled
  and was seen in the online window, and it has a free slot; what is schedulable is shown as
  online and available and never with a connection, runtime or heartbeat problem.
\<close>

theorem schedulable_spec:
  "(isSchedulable parse f now w \<longleftrightarrow>
      if_deviceTrust f \<noteq> Some DTr_revoked \<and> if_hasLiveConnection f
      \<and> derivePresenceState parse (if_lastSeenAt f) now w = DP_online
      \<and> (if_runtimeStatus f = Some AR_detected \<or> if_runtimeStatus f = Some AR_available)
      \<and> derivePresenceState parse (coalesce (if_runtimeLastSeenAt f) (if_lastSeenAt f)) now w = DP_online
      \<and> int (length (if_activeRuns f)) < if_concurrencyLimit f)
   \<and> (isSchedulable parse f now w \<longleftrightarrow>
      ip_connection (synthesizeAgentInstancePresence parse f now w) = CS_online
      \<and> ip_runtime (synthesizeAgentInstancePresence parse f now w) = RP_available)
   \<and> (isSchedulable parse f now w \<longrightarrow>
      ip_health_reason (synthesizeAgentInstancePresence parse f now w)
        \<notin> {Some HR_device_revoked, Some HR_runtime_missing, Some HR_heartbeat_timeout})"
proof -
  have conn: "facts_connection parse f now w = CS_online \<longleftrightarrow>
      if_deviceTrust f \<noteq> Some DTr_revoked \<and> if_hasLiveConnection f
      \<and> derivePresenceState parse (if_lastSeenAt f) now w = DP_online"
    by (simp add: facts_connection_def deriveConnection_def)
  have run: "facts_runtime parse f now w = RP_available \<longleftrightarrow>
      (if_runtimeStatus f = Some AR_detected \<or> if_runtimeStatus f = Some AR_available)
      \<and> derivePresenceState parse (coalesce (if_runtimeLastSeenAt f) (if_lastSeenAt f)) now w = DP_online
      \<and> int (length (if_activeRuns f)) < if_concurrencyLimit f"
    by (cases "if_runtimeStatus f"; cases "the (if_runtimeStatus f)")
      (auto simp: facts_runtime_def deriveRuntime_def at_capacity_def)
  have sched: "isSchedulable parse f now w \<longleftrightarrow>
      facts_connection parse f now w = CS_online \<and> facts_runtime parse f now w = RP_available"
    unfolding isSchedulable_def using run by auto
  show ?thesis
    using conn run unfolding sched
    by (auto simp: synthesizeAgentInstancePresence_def deriveHealthReason_def Let_def)
qed

definition demo_facts :: instance_facts where
  "demo_facts = \<lparr>if_agentInstanceId = ''i'', if_agentId = ''a'', if_computerId = ''c'',
     if_hasLiveConnection = True, if_deviceTrust = None, if_lastSeenAt = Some ''t'',
     if_runtimeLastSeenAt = None, if_runtimeStatus = Some AR_available, if_concurrencyLimit = 1,
     if_activeRuns = [], if_daemonRestarting = False, if_leaseConflict = False\<rparr>"

lemma schedulable_spec_witness:
  "isSchedulable (\<lambda>_. Some 0) demo_facts ''t'' \<lparr>onlineWithinMs = 10, staleWithinMs = 20\<rparr>
   \<and> ip_health_reason (synthesizeAgentInstancePresence (\<lambda>_. Some 0) demo_facts ''t''
        \<lparr>onlineWithinMs = 10, staleWithinMs = 20\<rparr>) \<notin> {Some HR_device_revoked, Some HR_runtime_missing, Some HR_heartbeat_timeout}"
proof -
  let ?w = "\<lparr>onlineWithinMs = 10, staleWithinMs = 20\<rparr>"
  have "isSchedulable (\<lambda>_. Some 0) demo_facts ''t'' ?w"
    by (simp add: demo_facts_def presence_defs)
  then show ?thesis
    using schedulable_spec [of "\<lambda>_. Some 0" demo_facts "''t''" ?w] by blast
qed

lemma spare_capacity_config: "hasSpareCapacity 0 (concurrencyLimitFromConfig c) \<and> 1 \<le> concurrencyLimitFromConfig c"
  by (auto simp: hasSpareCapacity_def concurrencyLimitFromConfig_def split: option.splits json.splits)

lemma resumeState_iff:
  "(resumeStateFromBlockers bs = No_active_blockers \<longleftrightarrow> (\<forall>b \<in> set bs. \<not> isActiveBlocker (snd b)))
   \<and> (resumeStateFromBlockers bs = Needs_human_decision \<longleftrightarrow>
        (\<exists>b \<in> set bs. isActiveBlocker (snd b) \<and> blockerNeedsHuman (fst b)))"
  by (auto simp: resumeStateFromBlockers_def Let_def filter_empty_conv list_ex_iff) force

end
