(* ===== verification/Kv_Store.thy ===== *)
theory Kv_Store
  imports Prelude
begin

text \<open>
  \<open>packages/storage/src/ports.ts\<close>, the key-value port, and \<open>kv/in-memory-kv-store.ts\<close>, its
  embedded adapter. The injected clock is the argument \<open>now\<close> of each operation. The port's
  contract, with \<open>compareAndSet\<close> as the lease and lock primitive, is a locale; the adapter is
  its interpretation.
\<close>

section \<open>The in-memory adapter\<close>

record kv_entry =
  kv_value :: string
  kv_expiresAt :: "int option"

type_synonym kv_map = "string \<Rightarrow> kv_entry option"

definition kv_expiry :: "int \<Rightarrow> int option \<Rightarrow> int option" where
  "kv_expiry now ttlMs = (case ttlMs of None \<Rightarrow> None | Some ttl \<Rightarrow> Some (now + ttl))"

definition kv_read :: "int \<Rightarrow> string \<Rightarrow> kv_map \<Rightarrow> string option \<times> kv_map" where
  "kv_read now key m =
     (case m key of
        None \<Rightarrow> (None, m)
      | Some entry \<Rightarrow>
          (case kv_expiresAt entry of
             Some e \<Rightarrow> if e \<le> now then (None, m(key := None)) else (Some (kv_value entry), m)
           | None \<Rightarrow> (Some (kv_value entry), m)))"

definition kv_get :: "int \<Rightarrow> string \<Rightarrow> kv_map \<Rightarrow> string option \<times> kv_map" where
  "kv_get now key m = kv_read now key m"

definition kv_set :: "int \<Rightarrow> string \<Rightarrow> string \<Rightarrow> int option \<Rightarrow> kv_map \<Rightarrow> kv_map" where
  "kv_set now key v ttlMs m = m(key \<mapsto> \<lparr>kv_value = v, kv_expiresAt = kv_expiry now ttlMs\<rparr>)"

definition kv_delete :: "string \<Rightarrow> kv_map \<Rightarrow> kv_map" where
  "kv_delete key m = m(key := None)"

definition kv_compareAndSet ::
  "int \<Rightarrow> string \<Rightarrow> string option \<Rightarrow> string \<Rightarrow> int option \<Rightarrow> kv_map \<Rightarrow> bool \<times> kv_map" where
  "kv_compareAndSet now key expected nxt ttlMs m =
     (case kv_read now key m of
        (current, m1) \<Rightarrow>
          if current \<noteq> expected then (False, m1)
          else (True, m1(key \<mapsto> \<lparr>kv_value = nxt, kv_expiresAt = kv_expiry now ttlMs\<rparr>)))"

lemmas kv_defs [model_defs] =
  kv_expiry_def kv_read_def kv_get_def kv_set_def kv_delete_def kv_compareAndSet_def

section \<open>The port\<close>

text \<open>
  \<open>view now s k\<close> is the value a client sees under \<open>k\<close> at time \<open>now\<close>. A value never changes by
  the passing of time except by expiring once and for all.
\<close>

locale kv_store =
  fixes view :: "int \<Rightarrow> 's \<Rightarrow> string \<Rightarrow> string option"
    and get :: "int \<Rightarrow> string \<Rightarrow> 's \<Rightarrow> string option \<times> 's"
    and put :: "int \<Rightarrow> string \<Rightarrow> string \<Rightarrow> int option \<Rightarrow> 's \<Rightarrow> 's"
    and del :: "string \<Rightarrow> 's \<Rightarrow> 's"
    and cas :: "int \<Rightarrow> string \<Rightarrow> string option \<Rightarrow> string \<Rightarrow> int option \<Rightarrow> 's \<Rightarrow> bool \<times> 's"
  assumes get_value: "fst (get now k s) = view now s k"
    and get_view: "now \<le> t \<Longrightarrow> view t (snd (get now k s)) = view t s"
    and put_view: "now \<le> t \<Longrightarrow> view t (put now k v ttl s) =
      (view t s)(k := (case ttl of None \<Rightarrow> Some v | Some d \<Rightarrow> if now + d \<le> t then None else Some v))"
    and del_view: "view t (del k s) = (view t s)(k := None)"
    and cas_result: "fst (cas now k expected v ttl s) \<longleftrightarrow> view now s k = expected"
    and cas_hit: "view now s k = expected \<Longrightarrow> now \<le> t \<Longrightarrow>
      view t (snd (cas now k expected v ttl s)) = view t (put now k v ttl s)"
    and cas_miss: "view now s k \<noteq> expected \<Longrightarrow> now \<le> t \<Longrightarrow> view t (snd (cas now k expected v ttl s)) = view t s"
    and expired_stays: "now \<le> t \<Longrightarrow> view t s k \<noteq> None \<Longrightarrow> view now s k = view t s k"
begin

text \<open>Attempts to take a lock: each owner tries to set the absent key to its name.\<close>

fun attempts :: "string \<Rightarrow> int \<Rightarrow> (int \<times> string) list \<Rightarrow> 's \<Rightarrow> (int \<times> string) list \<times> 's" where
  "attempts k d [] s = ([], s)"
| "attempts k d ((now, owner) # rest) s =
     (let r = cas now k None owner (Some d) s;
          r' = attempts k d rest (snd r)
      in ((if fst r then [(now, owner)] else []) @ fst r', snd r'))"

lemma held_excludes:
  assumes "view t s k \<noteq> None" "now \<le> t" "now' \<le> t"
  shows "\<not> fst (cas now k None v ttl s) \<and> view t (snd (cas now k None v ttl s)) k \<noteq> None"
proof -
  have "view now s k \<noteq> None" using expired_stays [OF assms(2,1)] assms(1) by simp
  then show ?thesis using assms cas_result cas_miss [of now s k None t] by auto
qed

text \<open>While the key is visible, every attempt fails and changes nothing.\<close>

lemma attempts_while_held:
  assumes "view t s k \<noteq> None" and "\<forall>(now, owner) \<in> set reqs. now \<le> t"
  shows "fst (attempts k d reqs s) = []"
  using assms
proof (induction reqs arbitrary: s)
  case (Cons r reqs)
  obtain now owner where r: "r = (now, owner)" by (cases r)
  then have le: "now \<le> t" using Cons.prems(2) by auto
  have "\<not> fst (cas now k None owner (Some d) s)"
    "view t (snd (cas now k None owner (Some d) s)) k \<noteq> None"
    using held_excludes [OF Cons.prems(1) le order_refl] by blast+
  then show ?case using Cons.IH Cons.prems(2) r by (simp add: Let_def)
qed simp

lemma lock_exclusive:
  assumes "fst (cas now k None owner (Some d) s)" and "\<forall>(t, o') \<in> set reqs. now \<le> t \<and> t < now + d"
  shows "fst (attempts k d reqs (snd (cas now k None owner (Some d) s))) = []"
proof (cases "0 < d")
  case True
  let ?s = "snd (cas now k None owner (Some d) s)"
  have "view now s k = None" using assms(1) by (simp add: cas_result)
  then have "view (now + d - 1) ?s k = Some owner"
    using True cas_hit [of now s k None "now + d - 1"] put_view [of now "now + d - 1" k] by simp
  then show ?thesis using assms(2) by (intro attempts_while_held [of "now + d - 1"]) auto
next
  case False
  then have "reqs = []" using assms(2) by (cases reqs) auto
  then show ?thesis by simp
qed

end

definition kv_view :: "int \<Rightarrow> kv_map \<Rightarrow> string \<Rightarrow> string option" where
  "kv_view now m k = fst (kv_read now k m)"

interpretation kv: kv_store kv_view kv_get kv_set kv_delete kv_compareAndSet
  by unfold_locales (auto simp: kv_view_def kv_defs fun_eq_iff split: option.splits if_splits prod.splits)

text \<open>
  Property C37. The compare-and-set of the in-memory store is a lock: once an owner has set an
  absent key with a time to live, every other attempt to take it before the time is over fails,
  in any number and order; after the time is over, or after a delete, the key is free again.
\<close>

theorem kv_lock_exclusive:
  assumes "fst (kv_compareAndSet now k None owner (Some d) m)"
  shows "(\<forall>reqs. (\<forall>(t, o') \<in> set reqs. now \<le> t \<and> t < now + d) \<longrightarrow>
            fst (kv.attempts k d reqs (snd (kv_compareAndSet now k None owner (Some d) m))) = [])
    \<and> (\<forall>t. now \<le> t \<longrightarrow> now + d \<le> t \<longrightarrow>
            fst (kv_compareAndSet t k None owner' ttl (snd (kv_compareAndSet now k None owner (Some d) m))))
    \<and> fst (kv_compareAndSet t' k None owner' ttl (kv_delete k m))"
proof -
  have free: "kv_view now m k = None" using assms by (simp add: kv.cas_result)
  have "kv_view t (snd (kv_compareAndSet now k None owner (Some d) m)) k = None" if "now \<le> t" "now + d \<le> t" for t
    using that free kv.cas_hit [of now m k None t] kv.put_view [of now t k] by simp
  then show ?thesis using kv.lock_exclusive [OF assms] by (simp add: kv.cas_result kv.del_view)
qed

lemma kv_lock_exclusive_witness:
  "fst (kv_compareAndSet 105 ''lease'' None ''b'' (Some 10)
      (snd (kv_compareAndSet 100 ''lease'' None ''a'' (Some 5) Map.empty)))
   \<and> fst (kv.attempts ''lease'' 5 [(101, ''b''), (104, ''c'')]
      (snd (kv_compareAndSet 100 ''lease'' None ''a'' (Some 5) Map.empty))) = []"
proof -
  have won: "fst (kv_compareAndSet 100 ''lease'' None ''a'' (Some 5) Map.empty)"
    by (simp add: kv_defs)
  have reqs: "\<forall>(t, o') \<in> set [(101, ''b''), (104, ''c'')]. (100::int) \<le> t \<and> t < 100 + 5" by simp
  have late: "(100::int) \<le> 105" "(100::int) + 5 \<le> 105" by simp_all
  note locked = kv_lock_exclusive [OF won, of "''b''" "Some 10" 0]
  from locked [THEN conjunct1, THEN spec, THEN mp, OF reqs]
    locked [THEN conjunct2, THEN conjunct1, THEN spec, THEN mp, THEN mp, OF late]
  show ?thesis by (rule conjI [rotated])
qed

end
