(* ===== verification/Skill.thy ===== *)
theory Skill
  imports Memory_State
begin

text \<open>
  \<open>packages/domain/src/skill.ts\<close>: the shape of a skill manifest and what its schema demands, the
  permission summary with its overall risk, and the capabilities enabled skills contribute. The
  locale comparison \<open>localeCompare\<close> is a parameter \<open>cmp\<close> with an integer result.
\<close>

section \<open>Manifests\<close>

datatype risk = Risk_low | Risk_medium | Risk_high

datatype permission_category =
    PC_filesystem | PC_network | PC_secrets | PC_external_service | PC_high_risk_action

definition PERMISSION_CATEGORIES :: "permission_category list" where
  "PERMISSION_CATEGORIES = [PC_filesystem, PC_network, PC_secrets, PC_external_service, PC_high_risk_action]"

record high_risk_action =
  hra_action :: string
  hra_risk :: risk

record approval_risk =
  apr_action :: string
  apr_risk :: risk
  apr_reason :: "string option"

text \<open>\<open>filesystem\<close> is the pair of read and write lists.\<close>

record skill_permissions =
  sp_filesystem :: "(string list \<times> string list) option"
  sp_network_outbound :: "string list option"
  sp_secrets :: "string list option"
  sp_external_services :: "string list option"
  sp_high_risk_actions :: "high_risk_action list option"

datatype mcp_transport = MCP_stdio | MCP_http | MCP_sse

record mcp_binding =
  mcp_server :: string
  mcp_transport :: mcp_transport
  mcp_command :: "string option"
  mcp_args :: "string list"
  mcp_url :: "string option"

definition valid_mcp_binding :: "mcp_binding \<Rightarrow> bool" where
  "valid_mcp_binding b \<longleftrightarrow>
     1 \<le> length (mcp_server b)
     \<and> (case mcp_command b of None \<Rightarrow> True | Some c \<Rightarrow> 1 \<le> length c)
     \<and> (case mcp_url b of None \<Rightarrow> True | Some u \<Rightarrow> 1 \<le> length u)
     \<and> \<not> (mcp_transport b = MCP_stdio \<and> mcp_command b = None)
     \<and> \<not> ((mcp_transport b = MCP_http \<or> mcp_transport b = MCP_sse) \<and> mcp_url b = None)"

record skill_manifest =
  sk_id :: ident
  sk_name :: string
  sk_version :: string
  sk_description :: string
  sk_capabilities :: "string list"
  sk_compatible_runtimes :: "string list"
  sk_permissions :: "skill_permissions option"
  sk_approval_risks :: "approval_risk list"
  sk_mcp :: "mcp_binding option"
  sk_evals :: "string list"

section \<open>The permission summary\<close>

record permission_summary =
  ps_fs_read :: "string list"
  ps_fs_write :: "string list"
  ps_outbound :: "string list"
  ps_secrets :: "string list"
  ps_external_services :: "string list"
  ps_high_risk_actions :: "high_risk_action list"
  ps_approval_risks :: "approval_risk list"
  ps_categories :: "permission_category list"
  ps_risk :: risk

fun RISK_ORDER :: "risk \<Rightarrow> nat" where
  "RISK_ORDER Risk_low = 0"
| "RISK_ORDER Risk_medium = 1"
| "RISK_ORDER Risk_high = 2"

definition maxRisk :: "risk \<Rightarrow> risk \<Rightarrow> risk" where
  "maxRisk a b = (if RISK_ORDER b \<le> RISK_ORDER a then a else b)"

fun risk_text :: "risk \<Rightarrow> string" where
  "risk_text Risk_low = ''low''"
| "risk_text Risk_medium = ''medium''"
| "risk_text Risk_high = ''high''"

text \<open>\<open>sort()\<close> without a comparator orders strings by code units.\<close>

definition sortedCopy :: "string list option \<Rightarrow> string list" where
  "sortedCopy values = sort_by (\<le>) (case values of None \<Rightarrow> [] | Some vs \<Rightarrow> vs)"

definition summarizeSkillPermissions :: "(string \<Rightarrow> string \<Rightarrow> int) \<Rightarrow> skill_manifest \<Rightarrow> permission_summary" where
  "summarizeSkillPermissions cmp manifest =
     (let permissions = sk_permissions manifest;
          fsRead = sortedCopy (Option.bind permissions (\<lambda>p. map_option fst (sp_filesystem p)));
          fsWrite = sortedCopy (Option.bind permissions (\<lambda>p. map_option snd (sp_filesystem p)));
          netOut = sortedCopy (Option.bind permissions sp_network_outbound);
          secrets = sortedCopy (Option.bind permissions sp_secrets);
          externalServices = sortedCopy (Option.bind permissions sp_external_services);
          highRiskActions = sort_by (\<lambda>a b. cmp (hra_action a) (hra_action b) \<le> 0)
            (case Option.bind permissions sp_high_risk_actions of None \<Rightarrow> [] | Some hs \<Rightarrow> hs);
          approvalRisks = sort_by (\<lambda>a b.
              (if apr_action a = apr_action b then cmp (risk_text (apr_risk a)) (risk_text (apr_risk b))
               else cmp (apr_action a) (apr_action b)) \<le> 0) (sk_approval_risks manifest);
          presence = (\<lambda>c. case c of
              PC_filesystem \<Rightarrow> 0 < length fsRead \<or> 0 < length fsWrite
            | PC_network \<Rightarrow> 0 < length netOut
            | PC_secrets \<Rightarrow> 0 < length secrets
            | PC_external_service \<Rightarrow> 0 < length externalServices
            | PC_high_risk_action \<Rightarrow> 0 < length highRiskActions);
          categories = filter presence PERMISSION_CATEGORIES;
          r0 = Risk_low;
          r1 = (if 0 < length fsWrite then maxRisk r0 Risk_medium else r0);
          r2 = (if presence PC_network then maxRisk r1 Risk_medium else r1);
          r3 = (if presence PC_secrets then maxRisk r2 Risk_high else r2);
          r4 = (if presence PC_external_service then maxRisk r3 Risk_high else r3);
          r5 = fold (\<lambda>e r. maxRisk r (hra_risk e)) highRiskActions r4;
          r6 = fold (\<lambda>e r. maxRisk r (apr_risk e)) approvalRisks r5
      in \<lparr>ps_fs_read = fsRead, ps_fs_write = fsWrite, ps_outbound = netOut, ps_secrets = secrets,
          ps_external_services = externalServices, ps_high_risk_actions = highRiskActions,
          ps_approval_risks = approvalRisks, ps_categories = categories, ps_risk = r6\<rparr>)"

section \<open>Contributed capabilities\<close>

record skill_install_state =
  si_manifest :: skill_manifest
  si_enabled :: bool

definition skillContributesCapabilities :: "skill_manifest \<Rightarrow> bool \<Rightarrow> string option \<Rightarrow> string list" where
  "skillContributesCapabilities manifest enabled runtimeId =
     (if \<not> enabled then []
      else if (case runtimeId of None \<Rightarrow> False
                | Some r \<Rightarrow> \<not> List.member (sk_compatible_runtimes manifest) r) then []
      else filter (\<lambda>c. List.member (set_list (sk_capabilities manifest)) c) CAPABILITIES)"

definition contributedCapabilities :: "skill_install_state list \<Rightarrow> string option \<Rightarrow> string list" where
  "contributedCapabilities installs runtimeId =
     (let present = fold (\<lambda>install acc.
            if \<not> si_enabled install then acc
            else if (case runtimeId of None \<Rightarrow> False
                      | Some r \<Rightarrow> \<not> List.member (sk_compatible_runtimes (si_manifest install)) r) then acc
            else acc \<union> set (sk_capabilities (si_manifest install))) installs {}
      in filter (\<lambda>c. c \<in> present) CAPABILITIES)"

section \<open>Correctness\<close>

lemma RISK_ORDER_max: "RISK_ORDER (maxRisk a b) = max (RISK_ORDER a) (RISK_ORDER b)"
  by (simp add: maxRisk_def max_def)

lemma fold_maxRisk:
  "RISK_ORDER (fold (\<lambda>e r. maxRisk r (f e)) xs r) = fold max (map (RISK_ORDER \<circ> f) xs) (RISK_ORDER r)"
  by (induction xs arbitrary: r) (simp_all add: RISK_ORDER_max max.commute)

lemma fold_max_le_iff: "fold max ns n \<le> (k::nat) \<longleftrightarrow> n \<le> k \<and> (\<forall>m \<in> set ns. m \<le> k)"
  by (induction ns arbitrary: n) auto

definition opt_list :: "'a list option \<Rightarrow> 'a list" where
  "opt_list v = (case v of None \<Rightarrow> [] | Some vs \<Rightarrow> vs)"

lemma sortedCopy_Nil [simp]: "sortedCopy v = [] \<longleftrightarrow> opt_list v = []"
  by (cases v) (auto simp: sortedCopy_def opt_list_def simp flip: length_0_conv)

text \<open>What a manifest declares, read off its permissions.\<close>

definition declares :: "skill_manifest \<Rightarrow> risk \<Rightarrow> bool" where
  "declares m r \<longleftrightarrow>
     (r = Risk_medium \<and> opt_list (Option.bind (sk_permissions m) (\<lambda>p. map_option snd (sp_filesystem p))) \<noteq> [])
     \<or> (r = Risk_medium \<and> opt_list (Option.bind (sk_permissions m) sp_network_outbound) \<noteq> [])
     \<or> (r = Risk_high \<and> opt_list (Option.bind (sk_permissions m) sp_secrets) \<noteq> [])
     \<or> (r = Risk_high \<and> opt_list (Option.bind (sk_permissions m) sp_external_services) \<noteq> [])
     \<or> (\<exists>h \<in> set (opt_list (Option.bind (sk_permissions m) sp_high_risk_actions)). hra_risk h = r)
     \<or> (\<exists>a \<in> set (sk_approval_risks m). apr_risk a = r)"

lemma risk_raise_le:
  "RISK_ORDER (if b then maxRisk r x else r) \<le> k \<longleftrightarrow> RISK_ORDER r \<le> k \<and> (b \<longrightarrow> RISK_ORDER x \<le> k)"
  by (simp add: RISK_ORDER_max)

lemma all_sources:
  "(a \<longrightarrow> P x) \<and> (b \<longrightarrow> P x) \<and> (c \<longrightarrow> P y) \<and> (d \<longrightarrow> P y) \<and> (\<forall>h \<in> H. P (f h)) \<and> (\<forall>z \<in> A. P (g z)) \<longleftrightarrow>
     (\<forall>r. (r = x \<and> a) \<or> (r = x \<and> b) \<or> (r = y \<and> c) \<or> (r = y \<and> d) \<or> (\<exists>h \<in> H. f h = r) \<or> (\<exists>z \<in> A. g z = r)
        \<longrightarrow> P r)"
  by blast

lemma RISK_ORDER_le2: "RISK_ORDER r \<le> 2"
  by (cases r) simp_all

lemma risk_le_iff:
  "RISK_ORDER (ps_risk (summarizeSkillPermissions cmp m)) \<le> k \<longleftrightarrow> (\<forall>r. declares m r \<longrightarrow> RISK_ORDER r \<le> k)"
proof -
  have "RISK_ORDER (ps_risk (summarizeSkillPermissions cmp m)) \<le> k \<longleftrightarrow>
     (opt_list (Option.bind (sk_permissions m) (\<lambda>p. map_option snd (sp_filesystem p))) \<noteq> [] \<longrightarrow> RISK_ORDER Risk_medium \<le> k)
     \<and> (opt_list (Option.bind (sk_permissions m) sp_network_outbound) \<noteq> [] \<longrightarrow> RISK_ORDER Risk_medium \<le> k)
     \<and> (opt_list (Option.bind (sk_permissions m) sp_secrets) \<noteq> [] \<longrightarrow> RISK_ORDER Risk_high \<le> k)
     \<and> (opt_list (Option.bind (sk_permissions m) sp_external_services) \<noteq> [] \<longrightarrow> RISK_ORDER Risk_high \<le> k)
     \<and> (\<forall>h \<in> set (opt_list (Option.bind (sk_permissions m) sp_high_risk_actions)). RISK_ORDER (hra_risk h) \<le> k)
     \<and> (\<forall>a \<in> set (sk_approval_risks m). RISK_ORDER (apr_risk a) \<le> k)"
    unfolding summarizeSkillPermissions_def Let_def permission_summary.select_convs
      permission_category.case fold_maxRisk fold_max_le_iff risk_raise_le length_greater_0_conv sortedCopy_Nil
      opt_list_def [of "Option.bind (sk_permissions m) sp_high_risk_actions", symmetric] set_map comp_def
      ball_simps set_sort_by
    by (simp only: RISK_ORDER.simps(1) le0 simp_thms conj_assoc)
  also have "\<dots> \<longleftrightarrow> (\<forall>r. declares m r \<longrightarrow> RISK_ORDER r \<le> k)"
    unfolding declares_def by (rule all_sources)
  finally show ?thesis .
qed

text \<open>
  The overall risk of a skill is exactly the highest its manifest declares: low when
  it declares nothing, at least medium for a write path or an outbound host, high for a secret or
  an external service, and never below the risk of a declared action; nothing raises it further.
\<close>

theorem skill_risk_exact:
  "(declares m (ps_risk (summarizeSkillPermissions cmp m)) \<or> ps_risk (summarizeSkillPermissions cmp m) = Risk_low)
   \<and> RISK_ORDER (ps_risk (summarizeSkillPermissions cmp m)) = Max (insert 0 (RISK_ORDER ` {r. declares m r}))"
proof -
  let ?r = "ps_risk (summarizeSkillPermissions cmp m)"
  have inj: "RISK_ORDER a = RISK_ORDER b \<longleftrightarrow> a = b" for a b by (cases a; cases b) simp_all
  have fin: "finite (insert 0 (RISK_ORDER ` {r. declares m r}))"
    by (rule finite_subset [of _ "{..2}"]) (auto simp: RISK_ORDER_le2)
  have max: "RISK_ORDER ?r = Max (insert 0 (RISK_ORDER ` {r. declares m r}))"
  proof (rule antisym)
    show "RISK_ORDER ?r \<le> Max (insert 0 (RISK_ORDER ` {r. declares m r}))"
      unfolding risk_le_iff using fin by (auto intro: Max_ge)
    show "Max (insert 0 (RISK_ORDER ` {r. declares m r})) \<le> RISK_ORDER ?r"
      using fin risk_le_iff [of cmp m "RISK_ORDER ?r"] by auto
  qed
  have "RISK_ORDER ?r \<in> insert 0 (RISK_ORDER ` {r. declares m r})"
    unfolding max using fin by (rule Max_in) simp
  then have "declares m ?r \<or> ?r = Risk_low"
  proof
    assume "RISK_ORDER ?r = 0"
    then show ?thesis by (cases ?r) simp_all
  qed (auto simp: inj)
  with max show ?thesis by simp
qed

lemma contributed_present:
  "fold (\<lambda>install acc.
            if \<not> si_enabled install then acc
            else if (case runtimeId of None \<Rightarrow> False
                      | Some r \<Rightarrow> \<not> List.member (sk_compatible_runtimes (si_manifest install)) r) then acc
            else acc \<union> set (sk_capabilities (si_manifest install))) installs S =
   S \<union> {c. \<exists>i \<in> set installs. si_enabled i
          \<and> (\<forall>r. runtimeId = Some r \<longrightarrow> r \<in> set (sk_compatible_runtimes (si_manifest i)))
          \<and> c \<in> set (sk_capabilities (si_manifest i))}"
  by (induction installs arbitrary: S) (auto split: option.splits)

text \<open>
  What the installed skills offer for a runtime is the union of what each enabled,
  compatible one offers alone: the capability list has no duplicates, follows the canonical order,
  and holds a capability exactly when some install contributes it.
\<close>

theorem contributedCapabilities_union:
  "set (contributedCapabilities installs rt) =
     (\<Union>i \<in> set installs. set (skillContributesCapabilities (si_manifest i) (si_enabled i) rt))
   \<and> contributedCapabilities installs rt =
       filter (\<lambda>c. c \<in> set (contributedCapabilities installs rt)) CAPABILITIES
   \<and> distinct (contributedCapabilities installs rt)"
proof -
  have eq: "contributedCapabilities installs rt = filter (\<lambda>c. \<exists>i \<in> set installs. si_enabled i
          \<and> (\<forall>r. rt = Some r \<longrightarrow> r \<in> set (sk_compatible_runtimes (si_manifest i)))
          \<and> c \<in> set (sk_capabilities (si_manifest i))) CAPABILITIES"
    by (simp add: contributedCapabilities_def contributed_present)
  have "set (skillContributesCapabilities m en rt) = {c \<in> set CAPABILITIES. en
      \<and> (\<forall>r. rt = Some r \<longrightarrow> r \<in> set (sk_compatible_runtimes m)) \<and> c \<in> set (sk_capabilities m)}" for m en
    by (auto simp: skillContributesCapabilities_def split: option.splits)
  moreover have "distinct CAPABILITIES" by (simp add: CAPABILITIES_def)
  moreover have "filter P CAPABILITIES = filter (\<lambda>c. c \<in> set (filter P CAPABILITIES)) CAPABILITIES" for P
    by (rule filter_cong) auto
  ultimately show ?thesis unfolding eq by auto
qed

definition demo_manifest :: skill_manifest where
  "demo_manifest = \<lparr>sk_id = ''s'', sk_name = ''s'', sk_version = ''1.0.0'', sk_description = '''', sk_capabilities = [],
     sk_compatible_runtimes = [''r''], sk_permissions = None,
     sk_approval_risks = [\<lparr>apr_action = ''push'', apr_risk = Risk_medium, apr_reason = None\<rparr>],
     sk_mcp = None, sk_evals = []\<rparr>"

lemma skill_risk_exact_witness:
  "RISK_ORDER (ps_risk (summarizeSkillPermissions (\<lambda>_ _. 0) demo_manifest)) = 1"
proof -
  have "{r. declares demo_manifest r} = {Risk_medium}"
    by (auto simp: declares_def demo_manifest_def opt_list_def)
  then show ?thesis using skill_risk_exact [of demo_manifest "\<lambda>_ _. 0"] by simp
qed

end
