(* ===== verification/Workspace.thy ===== *)
theory Workspace
  imports Lease_Path
begin

text \<open>
  The lexical rules for where an agent may work: \<open>packages/protocol/src/workspace-allocation.ts\<close>
  (the root of a run's worktree), \<open>workspace-guard.ts\<close> (containment in allowed roots) and the key
  resolution of \<open>packages/storage/src/blob/filesystem-blob-store.ts\<close>. Node's \<open>posix.resolve\<close> and
  \<open>win32.isAbsolute\<close> are modelled as documented. Strings hold code units below 256, so they are
  well-formed and their UTF-8 length is one byte below 128 and two from there on.
\<close>

section \<open>Paths of the host library\<close>

definition is_sep :: "char \<Rightarrow> bool" where
  "is_sep c = (c = slash \<or> c = backslash)"

text \<open>\<open>split(/[\\/]/)\<close>.\<close>

definition split_seps :: "string \<Rightarrow> string list" where
  "split_seps s = split_on slash (toPosix s)"

definition utf8_length :: "string \<Rightarrow> nat" where
  "utf8_length s = sum_list (map (\<lambda>c. if (of_char c :: nat) < 128 then 1 else 2) s)"

definition posix_isAbsolute :: "string \<Rightarrow> bool" where
  "posix_isAbsolute p = starts_with p ''/''"

fun win32_isAbsolute :: "string \<Rightarrow> bool" where
  "win32_isAbsolute [] = False"
| "win32_isAbsolute (c # rest) =
     (is_sep c \<or> (is_letter c \<and> (case rest of d # e # _ \<Rightarrow> d = CHR '':'' \<and> is_sep e | _ \<Rightarrow> False)))"

text \<open>\<open>..\<close> at the root of an absolute path stays at the root.\<close>

fun clamp_segments :: "string list \<Rightarrow> string list \<Rightarrow> string list" where
  "clamp_segments stack [] = stack"
| "clamp_segments stack (seg # rest) =
     clamp_segments (if seg = ''.'' then stack else if seg = ''..'' then butlast stack else stack @ [seg]) rest"

definition posix_resolve :: "string \<Rightarrow> string \<Rightarrow> string" where
  "posix_resolve cwd p =
     ''/'' @ join ''/'' (clamp_segments [] (segments (if posix_isAbsolute p then p else cwd @ ''/'' @ p)))"

section \<open>Allocation of worktree roots\<close>

datatype allocation_error_code =
    Invalid_assignment | Invalid_configuration | Unsupported_os | Invalid_base_path
  | Invalid_identifier | Path_too_long

datatype allocation_error = Workspace_allocation_error allocation_error_code string

record worktree_base =
  wb_basePath :: string

text \<open>An absent setting is \<open>None\<close>; a present one is any persisted JSON value.\<close>

record allocation_input =
  al_workspaceRoot :: "string option"
  al_branchBacked :: bool
  al_targetComputerOs :: string
  al_agentInstanceId :: ident
  al_runId :: ident
  al_worktreeBase :: "json option"

datatype path_kind = Posix | Win

definition MAX_ID_ASCII_LENGTH :: nat where "MAX_ID_ASCII_LENGTH = 64"
definition POSIX_MAX_PATH_BYTES :: nat where "POSIX_MAX_PATH_BYTES = 4095"
definition WINDOWS_MAX_PATH_UNITS :: nat where "WINDOWS_MAX_PATH_UNITS = 259"

definition pathKind :: "string \<Rightarrow> allocation_error + path_kind" where
  "pathKind os =
     (if os = ''darwin'' \<or> os = ''macos'' \<or> os = ''linux'' then Inr Posix
      else if os = ''win32'' \<or> os = ''windows'' then Inr Win
      else Inl (Workspace_allocation_error Unsupported_os
        ''Per-run worktrees require a supported target computer OS''))"

definition invalidBase :: "string \<Rightarrow> allocation_error + 'a" where
  "invalidBase reason = Inl (Workspace_allocation_error Invalid_base_path reason)"

definition forbidden_in_base :: "char \<Rightarrow> bool" where
  "forbidden_in_base c = (let n = (of_char c :: nat) in n \<le> 31 \<or> n = 127 \<or> c = CHR '';'' \<or> c = CHR '','')"

text \<open>\<open>/^[A-Za-z]:[\\/]/\<close> and \<open>/^(?:\\\\|\/\/)[^\\/]+[\\/][^\\/]+(?:[\\/]|$)/\<close>.\<close>

fun drive_root :: "string \<Rightarrow> bool" where
  "drive_root (c # d # e # _) = (is_letter c \<and> d = CHR '':'' \<and> is_sep e)"
| "drive_root _ = False"

definition unc_root :: "string \<Rightarrow> bool" where
  "unc_root base =
     ((starts_with base [backslash, backslash] \<or> starts_with base ''//'') \<and>
      (let rest = drop 2 base; after = dropWhile (\<lambda>c. \<not> is_sep c) rest
       in takeWhile (\<lambda>c. \<not> is_sep c) rest \<noteq> [] \<and> after \<noteq> []
          \<and> takeWhile (\<lambda>c. \<not> is_sep c) (tl after) \<noteq> []))"

text \<open>\<open>/[<>:"|?*]/\<close>; the device names, compared without case.\<close>

definition unsupported_component_char :: "char \<Rightarrow> bool" where
  "unsupported_component_char c =
     (c = CHR ''<'' \<or> c = CHR ''>'' \<or> c = CHR '':'' \<or> c = CHR 0x22 \<or> c = CHR ''|'' \<or> c = CHR ''?'' \<or> c = CHR ''*'')"

definition is_device_name :: "string \<Rightarrow> bool" where
  "is_device_name stem =
     (let s = to_lower stem in
      List.member [''con'', ''prn'', ''aux'', ''nul'', ''clock$'', ''conin$'', ''conout$''] s
      \<or> (length s = 4 \<and> (starts_with s ''com'' \<or> starts_with s ''lpt'')
         \<and> List.member (''123456789'' @ [CHR 0xB9, CHR 0xB2, CHR 0xB3]) (last s)))"

definition device_stem :: "string \<Rightarrow> string" where
  "device_stem part = rev (dropWhile (\<lambda>c. c = CHR '' '') (rev (hd (split_on (CHR ''.'') part))))"

fun check_windows_parts :: "string list \<Rightarrow> allocation_error + unit" where
  "check_windows_parts [] = Inr ()"
| "check_windows_parts (part # rest) =
     (if 255 < length part \<or> list_ex unsupported_component_char part
         \<or> (part \<noteq> [] \<and> (last part = CHR ''.'' \<or> last part = CHR '' ''))
      then invalidBase ''Windows worktree base contains an unsupported component''
      else if is_device_name (device_stem part)
      then invalidBase ''Windows device names are not supported in a worktree base''
      else check_windows_parts rest)"

definition non_empty_parts :: "string list \<Rightarrow> string list" where
  "non_empty_parts parts = filter (\<lambda>p. p \<noteq> []) parts"

definition base_components :: "string \<Rightarrow> path_kind \<Rightarrow> allocation_error + string list" where
  "base_components base kind =
     (case kind of
        Posix \<Rightarrow>
          if \<not> posix_isAbsolute base \<or> starts_with base ''//'' \<or> backslash \<in> set base
          then invalidBase ''Worktree base must be a fully qualified POSIX path with one leading slash and no Windows separators''
          else if POSIX_MAX_PATH_BYTES < utf8_length base
          then invalidBase ''POSIX worktree base exceeds the version 1 byte limit''
          else
            (let components = non_empty_parts (split_on slash base) in
             if list_ex (\<lambda>part. 255 < utf8_length part) components
             then invalidBase ''POSIX worktree base component exceeds the version 1 byte limit''
             else Inr components)
      | Win \<Rightarrow>
          if (\<not> drive_root base \<and> \<not> unc_root base) \<or> \<not> win32_isAbsolute base
          then invalidBase ''Worktree base must be a fully qualified Windows drive or UNC share path''
          else if WINDOWS_MAX_PATH_UNITS < length base
          then invalidBase ''Windows worktree base exceeds the version 1 UTF-16 limit''
          else
            (let components = non_empty_parts (split_seps (drop (if drive_root base then 3 else 2) base)) in
             case check_windows_parts components of Inl e \<Rightarrow> Inl e | Inr _ \<Rightarrow> Inr components))"

definition validateBase :: "string \<Rightarrow> path_kind \<Rightarrow> allocation_error + unit" where
  "validateBase base kind =
     (if list_ex forbidden_in_base base
      then invalidBase ''Worktree base contains malformed Unicode, control characters, or unsupported configuration delimiters''
      else case base_components base kind of
        Inl e \<Rightarrow> Inl e
      | Inr components \<Rightarrow>
          if list_ex (\<lambda>part. part = ''.'' \<or> part = ''..'') components
          then invalidBase ''Worktree base must not contain dot or parent-traversal segments''
          else Inr ())"

definition validateWorktreeBaseConfiguration :: "json \<Rightarrow> string \<Rightarrow> allocation_error + worktree_base" where
  "validateWorktreeBaseConfiguration v os =
     (case v of
        JObj config \<Rightarrow>
          if length config = 3
             \<and> list_all (\<lambda>k. List.member [''version'', ''strategy'', ''basePath''] k) (map fst config)
             \<and> map_of config ''version'' = Some (JNum 1)
             \<and> map_of config ''strategy'' = Some (JStr ''per-run'')
          then (case map_of config ''basePath'' of
                  Some (JStr base) \<Rightarrow>
                    (case pathKind os of
                       Inl e \<Rightarrow> Inl e
                     | Inr kind \<Rightarrow>
                         (case validateBase base kind of Inl e \<Rightarrow> Inl e | Inr _ \<Rightarrow> Inr \<lparr>wb_basePath = base\<rparr>))
                | _ \<Rightarrow> Inl (Workspace_allocation_error Invalid_configuration
                    ''Worktree base setting requires exactly version 1, per-run strategy and basePath''))
          else Inl (Workspace_allocation_error Invalid_configuration
            ''Worktree base setting requires exactly version 1, per-run strategy and basePath'')
      | _ \<Rightarrow> Inl (Workspace_allocation_error Invalid_configuration
            ''Worktree base setting must be a versioned object''))"

definition id_char :: "char \<Rightarrow> bool" where
  "id_char c = (let n = (of_char c :: nat) in
     (48 \<le> n \<and> n \<le> 57) \<or> (65 \<le> n \<and> n \<le> 90) \<or> (97 \<le> n \<and> n \<le> 122) \<or> n = 95 \<or> n = 45)"

definition hex_digit :: "nat \<Rightarrow> char" where
  "hex_digit n = char_of (if n < 10 then 48 + n else 87 + n)"

definition hex_encode :: "string \<Rightarrow> string" where
  "hex_encode s = concat (map (\<lambda>c. let n = (of_char c :: nat) in [hex_digit (n div 16), hex_digit (n mod 16)]) s)"

definition encodedId :: "ident \<Rightarrow> string \<Rightarrow> allocation_error + string" where
  "encodedId i pfx =
     (if MAX_ID_ASCII_LENGTH < length i
         \<or> \<not> (starts_with i (pfx @ ''_'') \<and> length (pfx @ ''_'') < length i
               \<and> list_all id_char (drop (length (pfx @ ''_'')) i))
      then Inl (Workspace_allocation_error Invalid_identifier
        (pfx @ '' identifier must be a prefixed ASCII segment of at most 64 characters''))
      else Inr (hex_encode i))"

definition path_separator :: "path_kind \<Rightarrow> string" where
  "path_separator kind = (case kind of Win \<Rightarrow> [backslash] | Posix \<Rightarrow> ''/'')"

definition has_trailing_separator :: "path_kind \<Rightarrow> string \<Rightarrow> bool" where
  "has_trailing_separator kind base =
     (case kind of
        Win \<Rightarrow> base \<noteq> [] \<and> is_sep (last base)
      | Posix \<Rightarrow> ends_with base ''/'')"

definition allocateWorkspaceRoot :: "allocation_input \<Rightarrow> allocation_error + string option" where
  "allocateWorkspaceRoot inp =
     (if \<not> al_branchBacked inp then Inr (al_workspaceRoot inp)
      else case al_worktreeBase inp of
        None \<Rightarrow> Inr (al_workspaceRoot inp)
      | Some setting \<Rightarrow>
          (case validateWorktreeBaseConfiguration setting (al_targetComputerOs inp) of
             Inl e \<Rightarrow> Inl e
           | Inr config \<Rightarrow>
          (case pathKind (al_targetComputerOs inp) of
             Inl e \<Rightarrow> Inl e
           | Inr kind \<Rightarrow>
          (case encodedId (al_agentInstanceId inp) ''ai'' of
             Inl e \<Rightarrow> Inl e
           | Inr ai \<Rightarrow>
          (case encodedId (al_runId inp) ''run'' of
             Inl e \<Rightarrow> Inl e
           | Inr run \<Rightarrow>
               (let separator = path_separator kind;
                    suffix = join separator [''artoo-runs'', ''i-'' @ ai, ''r-'' @ run];
                    wroot = wb_basePath config
                      @ (if has_trailing_separator kind (wb_basePath config) then [] else separator) @ suffix
                in if (kind = Win \<and> WINDOWS_MAX_PATH_UNITS < length wroot)
                      \<or> (kind = Posix \<and> POSIX_MAX_PATH_BYTES < utf8_length wroot)
                   then Inl (Workspace_allocation_error Path_too_long
                     ''Allocated worktree root exceeds the version 1 target path limit'')
                   else Inr (Some wroot)))))))"

lemmas allocation_defs [model_defs] =
  pathKind_def invalidBase_def validateBase_def base_components_def validateWorktreeBaseConfiguration_def
  encodedId_def allocateWorkspaceRoot_def path_separator_def has_trailing_separator_def

section \<open>Distinct runs get distinct roots\<close>

lemma of_char_lt_256: "(of_char c :: nat) < 256"
  by (metis nat_of_char_less_256)

lemma hex_digit_lower: "n < 16 \<Longrightarrow> lower_char (hex_digit n) = hex_digit n"
  by (auto simp: lower_char_def hex_digit_def Let_def of_char_of)

lemma hex_digit_code: "n < 16 \<Longrightarrow> (of_char (hex_digit n) :: nat) = (if n < 10 then 48 + n else 87 + n)"
  by (auto simp: hex_digit_def of_char_of)

lemma hex_digit_inj:
  assumes "a < 16" "b < 16" "hex_digit a = hex_digit b"
  shows "a = b"
proof -
  have "(of_char (hex_digit a) :: nat) = of_char (hex_digit b)" using assms(3) by simp
  then show ?thesis using assms(1,2) by (simp add: hex_digit_code split: if_splits)
qed

lemma hex_digit_not_sep: "n < 16 \<Longrightarrow> \<not> is_sep (hex_digit n)"
proof
  assume n: "n < 16" and "is_sep (hex_digit n)"
  then have "(of_char (hex_digit n) :: nat) = 47 \<or> (of_char (hex_digit n) :: nat) = 92"
    by (auto simp: is_sep_def)
  with n show False by (auto simp: hex_digit_code split: if_splits)
qed

lemma hex_encode_Cons:
  "hex_encode (c # s) = hex_digit ((of_char c :: nat) div 16) # hex_digit ((of_char c :: nat) mod 16) # hex_encode s"
  by (simp add: hex_encode_def Let_def)

lemma hex_encode_Nil [simp]: "hex_encode [] = []"
  by (simp add: hex_encode_def)

lemma hex_encode_inj: "hex_encode s = hex_encode t \<Longrightarrow> s = t"
proof (induction s arbitrary: t)
  case Nil
  then show ?case by (cases t) (simp_all add: hex_encode_Cons)
next
  case (Cons c s)
  then obtain d t' where t: "t = d # t'" by (cases t) (simp_all add: hex_encode_Cons)
  have lt: "(of_char x :: nat) div 16 < 16" for x
    using of_char_lt_256 [of x] by (simp add: less_mult_imp_div_less)
  from Cons.prems have "hex_digit ((of_char c :: nat) div 16) = hex_digit ((of_char d :: nat) div 16)"
    "hex_digit ((of_char c :: nat) mod 16) = hex_digit ((of_char d :: nat) mod 16)" "hex_encode s = hex_encode t'"
    by (simp_all add: t hex_encode_Cons)
  then have "(of_char c :: nat) div 16 = of_char d div 16" "(of_char c :: nat) mod 16 = of_char d mod 16" "s = t'"
    using hex_digit_inj lt Cons.IH by (auto intro: hex_digit_inj)
  then have "(of_char c :: nat) = of_char d" by (metis div_mult_mod_eq)
  with \<open>s = t'\<close> t show ?case by simp
qed

lemma hex_encode_chars: "c \<in> set (hex_encode s) \<Longrightarrow> \<not> is_sep c \<and> lower_char c = c"
proof (induction s)
  case (Cons x s)
  have "(of_char x :: nat) div 16 < 16" "(of_char x :: nat) mod 16 < 16"
    using of_char_lt_256 [of x] by (simp_all add: less_mult_imp_div_less)
  then show ?case using Cons hex_digit_not_sep hex_digit_lower by (auto simp: hex_encode_Cons)
qed simp

lemma to_lower_append [simp]: "to_lower (a @ b) = to_lower a @ to_lower b"
  by (simp add: to_lower_def)

lemma hex_lower: "to_lower (hex_encode s) = hex_encode s"
  using hex_encode_chars by (simp add: to_lower_fix_iff)

definition run_suffix :: "path_kind \<Rightarrow> ident \<Rightarrow> ident \<Rightarrow> string" where
  "run_suffix kind ai run =
     join (path_separator kind) [''artoo-runs'', ''i-'' @ hex_encode ai, ''r-'' @ hex_encode run]"

lemma run_suffix_lower: "to_lower (run_suffix kind ai run) = run_suffix kind ai run"
proof -
  have "to_lower ''artoo-runs'' = ''artoo-runs''" "to_lower ''i-'' = ''i-''" "to_lower ''r-'' = ''r-''"
    "to_lower (path_separator kind) = path_separator kind"
    by (simp_all add: path_separator_def split: path_kind.split) code_simp+
  then show ?thesis by (simp add: run_suffix_def hex_lower del: append_Cons)
qed

lemma run_suffix_inj:
  assumes "run_suffix kind a r = run_suffix kind a' r'"
  shows "a = a' \<and> r = r'"
proof -
  obtain c where sep: "path_separator kind = [c]" "is_sep c"
    by (cases kind) (simp_all add: path_separator_def is_sep_def)
  have free: "c \<notin> set (hex_encode s)" for s using hex_encode_chars sep by blast
  from assms have "hex_encode a @ c # ''r-'' @ hex_encode r = hex_encode a' @ c # ''r-'' @ hex_encode r'"
    by (simp add: run_suffix_def sep)
  then have "hex_encode a = hex_encode a' \<and> ''r-'' @ hex_encode r = ''r-'' @ hex_encode r'"
    using free by (intro append_sep_inj)
  then show ?thesis by (auto dest: hex_encode_inj)
qed

lemma allocate_shape:
  assumes "allocateWorkspaceRoot inp = Inr (Some w)" "al_branchBacked inp" "al_worktreeBase inp = Some setting"
  shows "\<exists>base kind. validateWorktreeBaseConfiguration setting (al_targetComputerOs inp) = Inr \<lparr>wb_basePath = base\<rparr>
    \<and> pathKind (al_targetComputerOs inp) = Inr kind
    \<and> w = base @ (if has_trailing_separator kind base then [] else path_separator kind)
          @ run_suffix kind (al_agentInstanceId inp) (al_runId inp)"
proof -
  from assms obtain config kind ai run where
    conf: "validateWorktreeBaseConfiguration setting (al_targetComputerOs inp) = Inr config"
    and kind: "pathKind (al_targetComputerOs inp) = Inr kind"
    and ai: "encodedId (al_agentInstanceId inp) ''ai'' = Inr ai" and run: "encodedId (al_runId inp) ''run'' = Inr run"
    and w: "w = wb_basePath config @ (if has_trailing_separator kind (wb_basePath config) then [] else path_separator kind)
        @ join (path_separator kind) [''artoo-runs'', ''i-'' @ ai, ''r-'' @ run]"
    by (auto simp: allocateWorkspaceRoot_def Let_def split: sum.splits if_splits)
  have "ai = hex_encode (al_agentInstanceId inp)" "run = hex_encode (al_runId inp)"
    using ai run by (auto simp: encodedId_def split: if_splits)
  then show ?thesis using conf kind w
    by (intro exI [of _ "wb_basePath config"] exI [of _ kind]) (simp add: run_suffix_def)
qed

text \<open>
  Property C35. Two assignments of one setting on one computer get the same worktree root, even on a
  file system that ignores case, only when they are the same run of the same agent instance; and
  the root keeps the configured base, to the letter, as its beginning.
\<close>

theorem allocation_injective:
  assumes "allocateWorkspaceRoot i1 = Inr (Some w1)" "allocateWorkspaceRoot i2 = Inr (Some w2)"
    and "al_branchBacked i1" "al_branchBacked i2"
    and "al_worktreeBase i1 = Some setting" "al_worktreeBase i2 = Some setting"
    and "al_targetComputerOs i1 = os" "al_targetComputerOs i2 = os"
  shows "(to_lower w1 = to_lower w2 \<longleftrightarrow> al_agentInstanceId i1 = al_agentInstanceId i2 \<and> al_runId i1 = al_runId i2)
    \<and> (\<exists>base. validateWorktreeBaseConfiguration setting os = Inr \<lparr>wb_basePath = base\<rparr> \<and> starts_with w1 base)"
proof -
  obtain base kind where base: "validateWorktreeBaseConfiguration setting os = Inr \<lparr>wb_basePath = base\<rparr>"
    and kind: "pathKind os = Inr kind"
    and w1: "w1 = base @ (if has_trailing_separator kind base then [] else path_separator kind)
          @ run_suffix kind (al_agentInstanceId i1) (al_runId i1)"
    using allocate_shape [OF assms(1,3,5)] assms(7) by auto
  have w2: "w2 = base @ (if has_trailing_separator kind base then [] else path_separator kind)
          @ run_suffix kind (al_agentInstanceId i2) (al_runId i2)"
    using allocate_shape [OF assms(2,4,6)] assms(8) base kind by auto
  have "to_lower w1 = to_lower w2 \<longleftrightarrow>
      run_suffix kind (al_agentInstanceId i1) (al_runId i1) = run_suffix kind (al_agentInstanceId i2) (al_runId i2)"
    by (simp add: w1 w2 run_suffix_lower)
  moreover have "starts_with w1 base" by (simp add: w1)
  moreover have "run_suffix kind (al_agentInstanceId i1) (al_runId i1) = run_suffix kind (al_agentInstanceId i2) (al_runId i2)
      \<longleftrightarrow> al_agentInstanceId i1 = al_agentInstanceId i2 \<and> al_runId i1 = al_runId i2"
    by (metis run_suffix_inj)
  ultimately show ?thesis using base by simp
qed

definition demo_allocation :: "ident \<Rightarrow> allocation_input" where
  "demo_allocation r = \<lparr>al_workspaceRoot = None, al_branchBacked = True, al_targetComputerOs = ''linux'',
     al_agentInstanceId = ''ai_1'', al_runId = r,
     al_worktreeBase = Some (JObj [(''version'', JNum 1), (''strategy'', JStr ''per-run''), (''basePath'', JStr ''/w'')])\<rparr>"

lemma utf8_length_le: "utf8_length s \<le> 2 * length s"
  by (induction s) (simp_all add: utf8_length_def)

lemma demo_hex: "hex_encode ''ai_1'' = ''61695f31''" "hex_encode ''run_A'' = ''72756e5f41''"
  "hex_encode ''run_a'' = ''72756e5f61''"
  by (simp_all add: hex_encode_def hex_digit_def char_of_eq_iff take_bit_eq_mod)

lemma demo_ids:
  "encodedId ''ai_1'' ''ai'' = Inr ''61695f31''" "encodedId ''run_A'' ''run'' = Inr ''72756e5f41''"
  "encodedId ''run_a'' ''run'' = Inr ''72756e5f61''"
  by (simp_all add: encodedId_def demo_hex MAX_ID_ASCII_LENGTH_def starts_with_def id_char_def)

lemma demo_config:
  "validateWorktreeBaseConfiguration (JObj [(''version'', JNum 1), (''strategy'', JStr ''per-run''), (''basePath'', JStr ''/w'')]) ''linux''
     = Inr \<lparr>wb_basePath = ''/w''\<rparr>"
  by (simp add: allocation_defs forbidden_in_base_def posix_isAbsolute_def starts_with_def utf8_length_def
      POSIX_MAX_PATH_BYTES_def non_empty_parts_def)

lemma allocation_injective_witness:
  "allocateWorkspaceRoot (demo_allocation ''run_A'') = Inr (Some ''/w/artoo-runs/i-61695f31/r-72756e5f41'')
   \<and> to_lower ''/w/artoo-runs/i-61695f31/r-72756e5f41'' \<noteq> to_lower ''/w/artoo-runs/i-61695f31/r-72756e5f61''"
proof -
  have a: "allocateWorkspaceRoot (demo_allocation ''run_A'') = Inr (Some ''/w/artoo-runs/i-61695f31/r-72756e5f41'')"
    and b: "allocateWorkspaceRoot (demo_allocation ''run_a'') = Inr (Some ''/w/artoo-runs/i-61695f31/r-72756e5f61'')"
    using utf8_length_le [of "''/w/artoo-runs/i-61695f31/r-72756e5f41''"] utf8_length_le [of "''/w/artoo-runs/i-61695f31/r-72756e5f61''"]
    by (simp_all add: allocateWorkspaceRoot_def demo_allocation_def demo_ids demo_config pathKind_def
        path_separator_def has_trailing_separator_def ends_with_def starts_with_def POSIX_MAX_PATH_BYTES_def)
  have set1: "al_worktreeBase (demo_allocation ''run_A'') = Some (JObj [(''version'', JNum 1), (''strategy'', JStr ''per-run''), (''basePath'', JStr ''/w'')])"
    and set2: "al_worktreeBase (demo_allocation ''run_a'') = Some (JObj [(''version'', JNum 1), (''strategy'', JStr ''per-run''), (''basePath'', JStr ''/w'')])"
    by (simp_all add: demo_allocation_def)
  have "to_lower ''/w/artoo-runs/i-61695f31/r-72756e5f41'' = to_lower ''/w/artoo-runs/i-61695f31/r-72756e5f61'' \<longleftrightarrow>
      al_agentInstanceId (demo_allocation ''run_A'') = al_agentInstanceId (demo_allocation ''run_a'')
      \<and> al_runId (demo_allocation ''run_A'') = al_runId (demo_allocation ''run_a'')"
    using allocation_injective [OF a b _ _ set1 set2, of "''linux''"] by (simp add: demo_allocation_def)
  then show ?thesis using a by (simp add: demo_allocation_def)
qed

section \<open>Containment\<close>

text \<open>The host's \<open>resolve\<close> and separator are the injected path API.\<close>

definition caseFold :: "char \<Rightarrow> string \<Rightarrow> string" where
  "caseFold sep v = (if sep = backslash then to_lower v else v)"

definition isPathWithinScope :: "(string \<Rightarrow> string) \<Rightarrow> char \<Rightarrow> string \<Rightarrow> string list \<Rightarrow> bool" where
  "isPathWithinScope resolve sep target allowedRoots =
     (let resolvedTarget = caseFold sep (resolve target) in
      list_ex (\<lambda>r. let resolvedRoot = caseFold sep (resolve r) in
          if resolvedTarget = resolvedRoot then True
          else
            (let rootWithSep = (if ends_with resolvedRoot [sep] then resolvedRoot else resolvedRoot @ [sep])
             in starts_with resolvedTarget rootWithSep)) allowedRoots)"

text \<open>\<open>WorkspaceScopeError\<close>.\<close>

datatype workspace_scope_error = Workspace_scope_error string "string list"

definition assertWorkspaceScope ::
  "(string \<Rightarrow> string) \<Rightarrow> char \<Rightarrow> string \<Rightarrow> string list \<Rightarrow> workspace_scope_error + unit" where
  "assertWorkspaceScope resolve sep target allowedRoots =
     (if \<not> isPathWithinScope resolve sep target allowedRoots
      then Inl (Workspace_scope_error target allowedRoots) else Inr ())"

datatype blob_key_error = Blob_null_byte string | Blob_escapes_root string

definition resolveKey :: "string \<Rightarrow> string \<Rightarrow> blob_key_error + string" where
  "resolveKey store key =
     (if nul \<in> set key then Inl (Blob_null_byte key)
      else if posix_isAbsolute key \<or> win32_isAbsolute key \<or> has_drive key then Inl (Blob_escapes_root key)
      else if list_ex (\<lambda>segment. segment = ''..'') (split_seps key) then Inl (Blob_escapes_root key)
      else
        (let target = posix_resolve store key in
         if target \<noteq> store \<and> \<not> starts_with target (store @ ''/'') then Inl (Blob_escapes_root key)
         else Inr target))"

lemma clamp_proper:
  "\<forall>s \<in> set stack. proper_segment s \<Longrightarrow> \<forall>s \<in> set segs. s \<noteq> '''' \<and> slash \<notin> set s
     \<Longrightarrow> \<forall>s \<in> set (clamp_segments stack segs). proper_segment s"
proof (induction stack segs rule: clamp_segments.induct)
  case (2 stack seg rest)
  have "\<forall>s \<in> set (if seg = ''.'' then stack else if seg = ''..'' then butlast stack else stack @ [seg]). proper_segment s"
  proof (cases "seg = ''..''")
    case True
    then show ?thesis using 2(2) by (auto dest: in_set_butlastD)
  next
    case False
    have "seg = ''.'' \<or> proper_segment seg" using 2(3) False by (simp add: proper_segment_def)
    then show ?thesis using False 2(2) by auto
  qed
  moreover have "\<forall>s \<in> set rest. s \<noteq> '''' \<and> slash \<notin> set s"
    using 2(3) by simp
  ultimately show ?case unfolding clamp_segments.simps(2) by (rule 2(1))
qed simp

text \<open>The segments of a resolved path, from the root.\<close>

definition resolved_segments :: "string \<Rightarrow> string \<Rightarrow> string list" where
  "resolved_segments cwd p = clamp_segments [] (segments (if posix_isAbsolute p then p else cwd @ ''/'' @ p))"

lemma resolved_proper: "\<forall>s \<in> set (resolved_segments cwd p). proper_segment s"
  unfolding resolved_segments_def by (rule clamp_proper) (use segments_plain in auto)

lemma posix_resolve_segments: "posix_resolve cwd p = ''/'' @ join ''/'' (resolved_segments cwd p)"
  by (simp add: posix_resolve_def resolved_segments_def)

lemma join_append: "join sep (xs @ ys) = (if xs = [] then join sep ys else if ys = [] then join sep xs else join sep xs @ sep @ join sep ys)"
proof (induction xs)
  case (Cons x xs)
  then show ?case by (cases xs; cases ys) auto
qed simp

lemma join_nonempty: "\<forall>s \<in> set xs. proper_segment s \<Longrightarrow> xs \<noteq> [] \<Longrightarrow> join ''/'' xs \<noteq> '''' \<and> \<not> ends_with (join ''/'' xs) ''/''"
proof (induction xs rule: rev_induct)
  case (snoc x xs)
  then have x: "x \<noteq> ''''" "slash \<notin> set x" by (auto simp: proper_segment_def)
  have "join ''/'' (xs @ [x]) = (if xs = [] then x else join ''/'' xs @ ''/'' @ x)" by (simp add: join_append)
  moreover have "last x \<noteq> slash" using x by (metis last_in_set)
  ultimately show ?case using x
    by (cases x rule: rev_cases) (auto simp: ends_with_def starts_with_def)
qed simp

text \<open>Being the same resolved path or below it, as segments.\<close>

lemma below_iff_prefix:
  assumes "\<forall>s \<in> set xs. proper_segment s" "\<forall>s \<in> set ys. proper_segment s" "xs \<noteq> []"
  shows "join ''/'' ys = join ''/'' xs \<or> starts_with (join ''/'' ys) (join ''/'' xs @ ''/'') \<longleftrightarrow> prefix xs ys"
proof
  assume lhs: "join ''/'' ys = join ''/'' xs \<or> starts_with (join ''/'' ys) (join ''/'' xs @ ''/'')"
  show "prefix xs ys"
  proof (cases "join ''/'' ys = join ''/'' xs")
    case True
    then show ?thesis using segments_join assms by (metis prefix_order.refl)
  next
    case False
    then obtain r where "join ''/'' ys = join ''/'' xs @ slash # r" using lhs by (auto simp: starts_with_iff)
    then have "segments (join ''/'' ys) = segments (join ''/'' xs) @ segments r" by (simp add: segments_append)
    then show ?thesis using segments_join assms by simp
  qed
next
  assume "prefix xs ys"
  then obtain zs where "ys = xs @ zs" by (auto elim: prefixE)
  then show "join ''/'' ys = join ''/'' xs \<or> starts_with (join ''/'' ys) (join ''/'' xs @ ''/'')"
    using assms(3) by (cases zs) (simp_all add: join_append starts_with_iff)
qed

text \<open>
  On a POSIX host the workspace guard admits a target exactly when, as segments, one
  of the allowed roots is a prefix of it after both are resolved; so neither a sibling whose name
  merely begins like a root nor a path that climbs out of it with \<open>..\<close> is admitted.
\<close>

theorem scope_guard_iff:
  "isPathWithinScope (posix_resolve cwd) slash target roots \<longleftrightarrow>
     (\<exists>r \<in> set roots. prefix (resolved_segments cwd r) (resolved_segments cwd target))"
proof -
  have "(posix_resolve cwd target = posix_resolve cwd r
      \<or> starts_with (posix_resolve cwd target)
          (if ends_with (posix_resolve cwd r) ''/'' then posix_resolve cwd r else posix_resolve cwd r @ ''/''))
    \<longleftrightarrow> prefix (resolved_segments cwd r) (resolved_segments cwd target)" for r
  proof (cases "resolved_segments cwd r = []")
    case True
    then show ?thesis by (simp add: posix_resolve_segments ends_with_def starts_with_def)
  next
    case False
    let ?x = "join ''/'' (resolved_segments cwd r)"
    have "\<not> ends_with ?x ''/''" "?x \<noteq> ''''" using join_nonempty [OF resolved_proper False] by auto
    then have "\<not> ends_with (''/'' @ ?x) ''/''"
      by (cases ?x rule: rev_cases) (auto simp: ends_with_def starts_with_def)
    then show ?thesis
      using below_iff_prefix [OF resolved_proper resolved_proper False]
      by (simp add: posix_resolve_segments starts_with_def)
  qed
  note below = this
  have "isPathWithinScope (posix_resolve cwd) slash target roots \<longleftrightarrow>
     (\<exists>r \<in> set roots. posix_resolve cwd target = posix_resolve cwd r
      \<or> starts_with (posix_resolve cwd target)
          (if ends_with (posix_resolve cwd r) ''/'' then posix_resolve cwd r else posix_resolve cwd r @ ''/''))"
    by (simp add: isPathWithinScope_def caseFold_def Let_def list_ex_iff) (rule bex_cong [OF refl], auto)
  then show ?thesis unfolding below .
qed

lemma clamp_append: "clamp_segments stack (xs @ ys) = clamp_segments (clamp_segments stack xs) ys"
  by (induction stack xs rule: clamp_segments.induct) simp_all

lemma clamp_proper_id: "\<forall>s \<in> set segs. proper_segment s \<Longrightarrow> clamp_segments stack segs = stack @ segs"
  by (induction stack segs rule: clamp_segments.induct) (simp_all add: proper_segment_def)

lemma clamp_extends: "''..'' \<notin> set segs \<Longrightarrow> prefix stack (clamp_segments stack segs)"
proof (induction stack segs rule: clamp_segments.induct)
  case (2 stack seg rest)
  have "prefix stack (if seg = ''.'' then stack else if seg = ''..'' then butlast stack else stack @ [seg])"
    using 2(2) by auto
  moreover have "''..'' \<notin> set rest" using 2(2) by simp
  ultimately show ?case using 2(1) unfolding clamp_segments.simps(2) by (blast intro: prefix_order.trans)
qed simp

lemma split_on_map:
  assumes "f c = c"
  shows "split_on c (map f s) = concat (map (\<lambda>p. split_on c (map f p)) (split_on c s))"
proof (induction s)
  case (Cons x xs)
  obtain y ys where y: "split_on c xs = y # ys" by (cases "split_on c xs") simp_all
  obtain z zs where z: "split_on c (map f y) = z # zs" by (cases "split_on c (map f y)") simp_all
  show ?case using Cons assms by (simp add: y z)
qed simp

lemma split_seps_segment:
  assumes "p \<in> set (split_on slash s)" "backslash \<notin> set p"
  shows "p \<in> set (split_seps s)"
proof -
  have "toPosix p = p" using assms(2) by (auto simp: toPosix_def intro!: map_idI)
  moreover have "slash \<notin> set p" using assms(1) by (rule split_on_no_sep)
  ultimately have "p \<in> set (split_on slash (toPosix p))" by (simp add: split_on_plain)
  then show ?thesis
    using assms(1) split_on_map [of "\<lambda>c. if c = backslash then slash else c" slash s]
    unfolding split_seps_def toPosix_def by auto
qed

text \<open>
  Property C36. The blob store confines its keys: for a store directory that is a resolved absolute
  path other than the root, a key is accepted exactly when it has no null byte, is not absolute on
  either platform, names no drive and has no \<open>..\<close> between separators of either kind; the file it
  names then lies in the store, so the final containment check refuses nothing more.
\<close>

theorem blob_key_confined:
  assumes "store = posix_resolve cwd dir" "store \<noteq> ''/''"
  shows "resolveKey store key = Inr target \<longleftrightarrow>
     nul \<notin> set key \<and> \<not> posix_isAbsolute key \<and> \<not> win32_isAbsolute key \<and> \<not> has_drive key
     \<and> ''..'' \<notin> set (split_seps key)
     \<and> target = posix_resolve store key \<and> prefix (segments store) (segments target)"
proof -
  let ?S = "resolved_segments cwd dir"
  have store: "store = ''/'' @ join ''/'' ?S" and proper: "\<forall>s \<in> set ?S. proper_segment s"
    using assms(1) posix_resolve_segments resolved_proper by simp_all
  then have ne: "?S \<noteq> []" using assms(2) by (cases ?S) simp_all
  have segs: "segments store = ?S"
    using segments_append [of "''''" "join ''/'' ?S"] segments_join [OF proper] store
    by (simp add: segments_def)
  have abs: "posix_isAbsolute store" by (simp add: store posix_isAbsolute_def starts_with_def)
  have inside: "prefix ?S (resolved_segments store key) \<and> segments (posix_resolve store key) = resolved_segments store key
      \<and> (posix_resolve store key = store \<or> starts_with (posix_resolve store key) (store @ ''/''))"
    if rel: "\<not> posix_isAbsolute key" and up: "''..'' \<notin> set (split_seps key)"
  proof -
    have "''..'' \<notin> set (segments key)"
      using up split_seps_segment [of "''..''" key] by (auto simp: segments_def)
    then have "prefix ?S (clamp_segments ?S (segments key))" by (rule clamp_extends)
    moreover have "resolved_segments store key = clamp_segments ?S (segments key)"
      using rel clamp_proper_id [OF proper, of "[]"]
      by (simp add: resolved_segments_def [of store] segments_append segs clamp_append)
    ultimately have pre: "prefix ?S (resolved_segments store key)" by simp
    moreover have "segments (posix_resolve store key) = resolved_segments store key"
      using segments_append [of "''''"] segments_join [OF resolved_proper] by (simp add: posix_resolve_segments segments_def)
    moreover have "posix_resolve store key = store \<or> starts_with (posix_resolve store key) (store @ ''/'')"
      using below_iff_prefix [OF proper resolved_proper ne, of store key] pre
      by (auto simp: posix_resolve_segments store starts_with_def)
    ultimately show ?thesis by simp
  qed
  show ?thesis
    using inside segs by (auto simp: resolveKey_def Let_def list_ex_iff)
qed

lemma blob_key_confined_witness:
  "posix_resolve ''/'' ''srv/blobs'' = ''/srv/blobs'' \<and> resolveKey ''/srv/blobs'' ''logs/1.txt'' = Inr ''/srv/blobs/logs/1.txt''
   \<and> prefix (segments ''/srv/blobs'') (segments ''/srv/blobs/logs/1.txt'')"
proof -
  have dir: "''/srv/blobs'' = posix_resolve ''/'' ''srv/blobs''" and target: "posix_resolve ''/srv/blobs'' ''logs/1.txt'' = ''/srv/blobs/logs/1.txt''"
    by (simp_all add: posix_resolve_def posix_isAbsolute_def starts_with_def segments_def)
  have key: "resolveKey ''/srv/blobs'' ''logs/1.txt'' = Inr ''/srv/blobs/logs/1.txt''"
    by (simp add: resolveKey_def target posix_isAbsolute_def is_sep_def split_seps_def toPosix_def starts_with_def is_letter_def)
  have ne: "''/srv/blobs'' \<noteq> ''/''" by simp
  from blob_key_confined [OF dir ne, THEN iffD1, OF key]
  have "prefix (segments ''/srv/blobs'') (segments ''/srv/blobs/logs/1.txt'')" by blast
  with dir key show ?thesis by simp
qed

section \<open>Run-event deduplication\<close>

text \<open>
  \<open>packages/protocol/src/ingest.ts\<close>. The composite key is the text of a JSON array of two strings
  and a number, which determines the triple; the set of keys is kept as the list of triples.
\<close>

record run_event_key =
  rek_node_id :: ident
  rek_run_id :: ident
  rek_sequence :: int

definition dedupe_isDuplicate :: "run_event_key list \<Rightarrow> run_event_key \<Rightarrow> bool" where
  "dedupe_isDuplicate seen key = List.member seen key"

definition dedupe_record :: "run_event_key list \<Rightarrow> run_event_key \<Rightarrow> bool \<times> run_event_key list" where
  "dedupe_record seen key = (if List.member seen key then (False, seen) else (True, key # seen))"

fun record_all :: "run_event_key list \<Rightarrow> run_event_key list \<Rightarrow> run_event_key list \<times> run_event_key list" where
  "record_all seen [] = ([], seen)"
| "record_all seen (k # ks) =
     (case dedupe_record seen k of (new, seen') \<Rightarrow>
        (case record_all seen' ks of (fresh, seen'') \<Rightarrow> ((if new then [k] else []) @ fresh, seen'')))"

lemma record_all_fresh:
  "distinct (fst (record_all seen ks)) \<and> set (fst (record_all seen ks)) = set ks - set seen
     \<and> set (snd (record_all seen ks)) = set seen \<union> set ks"
proof (induction ks arbitrary: seen)
  case (Cons k ks)
  show ?case
    using Cons.IH [of seen] Cons.IH [of "k # seen"]
    by (cases "k \<in> set seen") (auto simp: dedupe_record_def split: prod.splits)
qed simp

end
