(* ===== verification/Server_Monad.thy ===== *)
theory Server_Monad
  imports Prelude
begin

text \<open>
  The monad the server's services are written in: a state is passed along, and an operation ends
  with a value or with the error it throws. A thrown error keeps the state reached; only
  \<open>transaction\<close>, defined over the database, takes it back. The rules are those of a small Hoare
  logic with a postcondition for results and one for errors.
\<close>

type_synonym ('s, 'e, 'a) ex = "'s \<Rightarrow> ('e + 'a) \<times> 's"

definition ret :: "'a \<Rightarrow> ('s, 'e, 'a) ex" where
  "ret a = (\<lambda>s. (Inr a, s))"

definition throw :: "'e \<Rightarrow> ('s, 'e, 'a) ex" where
  "throw e = (\<lambda>s. (Inl e, s))"

definition bind :: "('s, 'e, 'a) ex \<Rightarrow> ('a \<Rightarrow> ('s, 'e, 'b) ex) \<Rightarrow> ('s, 'e, 'b) ex" where
  "bind m f = (\<lambda>s. case m s of (Inl e, s') \<Rightarrow> (Inl e, s') | (Inr a, s') \<Rightarrow> f a s')"

definition gets :: "('s \<Rightarrow> 'a) \<Rightarrow> ('s, 'e, 'a) ex" where
  "gets f = (\<lambda>s. (Inr (f s), s))"

definition modify :: "('s \<Rightarrow> 's) \<Rightarrow> ('s, 'e, unit) ex" where
  "modify f = (\<lambda>s. (Inr (), f s))"

definition skip :: "('s, 'e, unit) ex" where
  "skip = ret ()"

definition guard :: "bool \<Rightarrow> 'e \<Rightarrow> ('s, 'e, unit) ex" where
  "guard ok e = (if ok then skip else throw e)"

definition lift_sum :: "('f \<Rightarrow> 'e) \<Rightarrow> 'f + 'a \<Rightarrow> ('s, 'e, 'a) ex" where
  "lift_sum f r = (case r of Inl e \<Rightarrow> throw (f e) | Inr a \<Rightarrow> ret a)"

text \<open>\<open>for (const x of xs) { ... }\<close>.\<close>

fun for_each :: "'a list \<Rightarrow> ('a \<Rightarrow> ('s, 'e, unit) ex) \<Rightarrow> ('s, 'e, unit) ex" where
  "for_each [] f = skip"
| "for_each (x # xs) f = bind (f x) (\<lambda>_. for_each xs f)"

text \<open>The same loop with an accumulator (the arrays the loops push to).\<close>

fun for_fold :: "'a list \<Rightarrow> 'b \<Rightarrow> ('b \<Rightarrow> 'a \<Rightarrow> ('s, 'e, 'b) ex) \<Rightarrow> ('s, 'e, 'b) ex" where
  "for_fold [] acc f = ret acc"
| "for_fold (x # xs) acc f = bind (f acc x) (\<lambda>acc'. for_fold xs acc' f)"

lemmas monad_defs [model_defs] =
  ret_def throw_def bind_def gets_def modify_def skip_def guard_def lift_sum_def

text \<open>Running the basic operations.\<close>

lemma bind_basic [simp]:
  "bind (ret a) f = f a" "bind (throw e) g = throw e" "bind skip h = h ()"
  by (simp_all add: bind_def ret_def throw_def skip_def)

lemma run_basic: "ret a s = (Inr a, s)" "throw e s = (Inl e, s)" "skip s = (Inr (), s)"
  by (simp_all add: ret_def throw_def skip_def)

lemma bind_Inr: "bind m f w = (Inr b, w') \<longleftrightarrow> (\<exists>a w1. m w = (Inr a, w1) \<and> f a w1 = (Inr b, w'))"
  by (auto simp: bind_def split: prod.splits sum.splits)

lemma bind_Inl: "bind m f w = (Inl e, w') \<longleftrightarrow>
    m w = (Inl e, w') \<or> (\<exists>a w1. m w = (Inr a, w1) \<and> f a w1 = (Inl e, w'))"
  by (auto simp: bind_def split: prod.splits sum.splits)

lemma bind_run: "m w = (Inr a, w1) \<Longrightarrow> bind m f w = f a w1"
  by (simp add: bind_def)

lemma bind_guard: "bind (guard b e) f w = (if b then f () w else (Inl e, w))"
  by (simp add: bind_def guard_def skip_def ret_def throw_def)

section \<open>Triples\<close>

definition triple ::
  "('s \<Rightarrow> bool) \<Rightarrow> ('s, 'e, 'a) ex \<Rightarrow> ('a \<Rightarrow> 's \<Rightarrow> bool) \<Rightarrow> ('e \<Rightarrow> 's \<Rightarrow> bool) \<Rightarrow> bool" where
  "triple P m Q E \<longleftrightarrow> (\<forall>s. P s \<longrightarrow> (case m s of (Inr a, s') \<Rightarrow> Q a s' | (Inl e, s') \<Rightarrow> E e s'))"

named_theorems triple_rules \<open>rules applied backwards to prove a triple\<close>

lemma tripleI:
  assumes "\<And>s a s'. P s \<Longrightarrow> m s = (Inr a, s') \<Longrightarrow> Q a s'"
    and "\<And>s e s'. P s \<Longrightarrow> m s = (Inl e, s') \<Longrightarrow> E e s'"
  shows "triple P m Q E"
  unfolding triple_def
proof (intro allI impI)
  fix s assume "P s"
  then show "case m s of (Inr a, s') \<Rightarrow> Q a s' | (Inl e, s') \<Rightarrow> E e s'"
    using assms by (cases "m s"; cases "fst (m s)") auto
qed

lemma tripleD: "triple P m Q E \<Longrightarrow> P s \<Longrightarrow> m s = (Inr a, s') \<Longrightarrow> Q a s'"
  by (auto simp: triple_def)

lemma tripleD_err: "triple P m Q E \<Longrightarrow> P s \<Longrightarrow> m s = (Inl e, s') \<Longrightarrow> E e s'"
  by (auto simp: triple_def)

lemma triple_conseq:
  assumes "triple P' m Q' E'" "\<And>s. P s \<Longrightarrow> P' s" "\<And>a s. Q' a s \<Longrightarrow> Q a s" "\<And>e s. E' e s \<Longrightarrow> E e s"
  shows "triple P m Q E"
proof (rule tripleI)
  fix s a s' assume "P s" "m s = (Inr a, s')"
  then show "Q a s'" using tripleD [OF assms(1) assms(2)] assms(3) by simp
next
  fix s e s' assume "P s" "m s = (Inl e, s')"
  then show "E e s'" using tripleD_err [OF assms(1) assms(2)] assms(4) by simp
qed

lemma triple_pre: "triple P' m Q E \<Longrightarrow> (\<And>s. P s \<Longrightarrow> P' s) \<Longrightarrow> triple P m Q E"
  by (erule triple_conseq)

lemma triple_ret [triple_rules]: "(\<And>s. P s \<Longrightarrow> Q a s) \<Longrightarrow> triple P (ret a) Q E"
  by (simp add: triple_def ret_def)

lemma triple_throw [triple_rules]: "(\<And>s. P s \<Longrightarrow> E e s) \<Longrightarrow> triple P (throw e) Q E"
  by (simp add: triple_def throw_def)

lemma triple_bind:
  assumes "triple P m R E" "\<And>a. triple (R a) (f a) Q E"
  shows "triple P (bind m f) Q E"
proof (rule tripleI)
  fix s b s' assume "P s" and run: "bind m f s = (Inr b, s')"
  then obtain a s1 where "m s = (Inr a, s1)" "f a s1 = (Inr b, s')"
    by (auto simp: bind_def split: prod.splits sum.splits)
  then show "Q b s'" using assms \<open>P s\<close> by (meson tripleD)
next
  fix s e s' assume "P s" and run: "bind m f s = (Inl e, s')"
  then consider "m s = (Inl e, s')" | a s1 where "m s = (Inr a, s1)" "f a s1 = (Inl e, s')"
    by (auto simp: bind_def split: prod.splits sum.splits)
  then show "E e s'" using assms \<open>P s\<close> by cases (meson tripleD tripleD_err)+
qed

lemma triple_gets [triple_rules]: "(\<And>s. P s \<Longrightarrow> Q (f s) s) \<Longrightarrow> triple P (gets f) Q E"
  by (simp add: triple_def gets_def)

lemma triple_modify [triple_rules]: "(\<And>s. P s \<Longrightarrow> Q () (f s)) \<Longrightarrow> triple P (modify f) Q E"
  by (simp add: triple_def modify_def)

lemma triple_if [triple_rules]:
  "(b \<Longrightarrow> triple P m Q E) \<Longrightarrow> (\<not> b \<Longrightarrow> triple P m' Q E) \<Longrightarrow> triple P (if b then m else m') Q E"
  by simp

lemma triple_option [triple_rules]:
  "(v = None \<Longrightarrow> triple P m Q E) \<Longrightarrow> (\<And>x. v = Some x \<Longrightarrow> triple P (f x) Q E)
     \<Longrightarrow> triple P (case v of None \<Rightarrow> m | Some x \<Rightarrow> f x) Q E"
  by (cases v) simp_all

lemma triple_sum [triple_rules]:
  "(\<And>e. v = Inl e \<Longrightarrow> triple P (g e) Q E) \<Longrightarrow> (\<And>x. v = Inr x \<Longrightarrow> triple P (f x) Q E)
     \<Longrightarrow> triple P (case v of Inl e \<Rightarrow> g e | Inr x \<Rightarrow> f x) Q E"
  by (cases v) simp_all

section \<open>Preserved invariants\<close>

definition keeps :: "('s \<Rightarrow> bool) \<Rightarrow> ('s, 'e, 'a) ex \<Rightarrow> bool" where
  "keeps I m \<longleftrightarrow> (\<forall>s. I s \<longrightarrow> I (snd (m s)))"

named_theorems keeps_rules \<open>operations that preserve an invariant\<close>

lemma keepsI: "(\<And>s. I s \<Longrightarrow> I (snd (m s))) \<Longrightarrow> keeps I m"
  by (simp add: keeps_def)

lemma keepsD: "keeps I m \<Longrightarrow> I s \<Longrightarrow> I (snd (m s))"
  by (simp add: keeps_def)

lemma keeps_triple: "keeps I m \<longleftrightarrow> triple I m (\<lambda>_. I) (\<lambda>_. I)"
proof -
  have "I (snd (m s)) \<longleftrightarrow> (case m s of (Inr a, s') \<Rightarrow> I s' | (Inl e, s') \<Rightarrow> I s')" for s
    by (cases "m s"; cases "fst (m s)") simp_all
  then show ?thesis by (simp add: keeps_def triple_def)
qed

lemma keeps_ret [keeps_rules]: "keeps I (ret a)"
  by (simp add: keeps_def ret_def)

lemma keeps_throw [keeps_rules]: "keeps I (throw e)"
  by (simp add: keeps_def throw_def)

lemma keeps_skip [keeps_rules]: "keeps I skip"
  by (simp add: skip_def keeps_ret)

lemma keeps_guard [keeps_rules]: "keeps I (guard b e)"
  by (simp add: guard_def keeps_throw keeps_skip)

lemma keeps_gets [keeps_rules]: "keeps I (gets f)"
  by (simp add: keeps_def gets_def)

lemma keeps_lift_sum [keeps_rules]: "keeps I (lift_sum f r)"
  by (simp add: lift_sum_def keeps_ret keeps_throw split: sum.split)

lemma keeps_modify: "(\<And>s. I s \<Longrightarrow> I (f s)) \<Longrightarrow> keeps I (modify f)"
  by (simp add: keeps_def modify_def)

lemma keeps_bind [keeps_rules]: "keeps I m \<Longrightarrow> (\<And>a. keeps I (f a)) \<Longrightarrow> keeps I (bind m f)"
  unfolding keeps_triple by (rule triple_bind)

lemma keeps_if [keeps_rules]: "(b \<Longrightarrow> keeps I m) \<Longrightarrow> (\<not> b \<Longrightarrow> keeps I m') \<Longrightarrow> keeps I (if b then m else m')"
  by simp

lemma keeps_option [keeps_rules]:
  "(v = None \<Longrightarrow> keeps I m) \<Longrightarrow> (\<And>x. v = Some x \<Longrightarrow> keeps I (f x))
     \<Longrightarrow> keeps I (case v of None \<Rightarrow> m | Some x \<Rightarrow> f x)"
  by (cases v) simp_all

lemma keeps_sum [keeps_rules]:
  "(\<And>e. v = Inl e \<Longrightarrow> keeps I (g e)) \<Longrightarrow> (\<And>x. v = Inr x \<Longrightarrow> keeps I (f x))
     \<Longrightarrow> keeps I (case v of Inl e \<Rightarrow> g e | Inr x \<Rightarrow> f x)"
  by (cases v) simp_all

lemma keeps_Let [keeps_rules]: "keeps I (f x) \<Longrightarrow> keeps I (let y = x in f y)"
  by simp

lemma keeps_for_each [keeps_rules]: "(\<And>x. x \<in> set xs \<Longrightarrow> keeps I (f x)) \<Longrightarrow> keeps I (for_each xs f)"
  by (induction xs) (simp_all add: keeps_skip keeps_bind)

lemma keeps_for_fold [keeps_rules]: "(\<And>acc x. x \<in> set xs \<Longrightarrow> keeps I (f acc x)) \<Longrightarrow> keeps I (for_fold xs acc f)"
  by (induction xs arbitrary: acc) (simp_all add: keeps_ret keeps_bind)

text \<open>A loop by its own invariant over what has been done and what remains.\<close>

lemma triple_for_fold:
  assumes "\<And>pre x post acc. xs = pre @ x # post \<Longrightarrow> triple (J pre acc) (f acc x) (J (pre @ [x])) E"
  shows "triple (J [] acc) (for_fold xs acc f) (J xs) E"
proof -
  have "triple (J pre acc) (for_fold post acc f) (J xs) E" if "xs = pre @ post" for pre post acc
    using that
  proof (induction post arbitrary: pre acc)
    case Nil
    then show ?case by (auto intro: triple_ret)
  next
    case (Cons x post)
    have "triple (J pre acc) (f acc x) (J (pre @ [x])) E" using assms Cons.prems by blast
    moreover have "triple (J (pre @ [x]) a) (for_fold post a f) (J xs) E" for a
      using Cons.IH [of "pre @ [x]"] Cons.prems by simp
    ultimately show ?case by (simp add: triple_bind)
  qed
  from this [of "[]" xs acc] show ?thesis by simp
qed

text \<open>A loop that returned, by its invariant.\<close>

lemma for_fold_returns:
  assumes "for_fold xs acc f w = (Inr r, w')" and "J [] acc w"
    and "\<And>pre x post acc w acc' w'. xs = pre @ x # post \<Longrightarrow> J pre acc w \<Longrightarrow> f acc x w = (Inr acc', w')
           \<Longrightarrow> J (pre @ [x]) acc' w'"
  shows "J xs r w'"
proof -
  have "triple (J [] acc) (for_fold xs acc f) (J xs) (\<lambda>_ _. True)"
    by (rule triple_for_fold, rule tripleI) (auto dest: assms(3))
  from tripleD [OF this assms(2,1)] show ?thesis .
qed

lemma triple_for_each:
  assumes "\<And>pre x post. xs = pre @ x # post \<Longrightarrow> triple (J pre) (f x) (\<lambda>_. J (pre @ [x])) E"
  shows "triple (J []) (for_each xs f) (\<lambda>_. J xs) E"
proof -
  have "triple (J pre) (for_each post f) (\<lambda>_. J xs) E" if "xs = pre @ post" for pre post
    using that
  proof (induction post arbitrary: pre)
    case Nil
    then show ?case by (auto simp: skip_def intro: triple_ret)
  next
    case (Cons x post)
    have "triple (J pre) (f x) (\<lambda>_. J (pre @ [x])) E" using assms Cons.prems by blast
    moreover have "triple (J (pre @ [x])) (for_each post f) (\<lambda>_. J xs) E"
      using Cons.IH [of "pre @ [x]"] Cons.prems by simp
    ultimately show ?case by (simp add: triple_bind)
  qed
  from this [of "[]" xs] show ?thesis by simp
qed

end
