(* ===== verification/Tables.thy ===== *)
theory Tables
  imports Server_Monad Lease_Path Presence Skill
begin

text \<open>
  What the server's services share: the prefixes of identifiers (\<open>packages/domain/src/ids.ts\<close>),
  the errors a service throws (\<open>apps/server/src/errors.ts\<close>), the rows of the tables of
  \<open>packages/db/src/schema.ts\<close> that the modelled services use, and the context and state they run in.

  A table is the list of its rows in insertion order, and a select keeps that order. Column types
  with a check constraint are datatypes. A timestamp column stores what PostgreSQL makes of the
  text it is given and hands back its own text; both are the parameter \<open>cx_ts\<close> of the context,
  and a text that is no timestamp is refused.
\<close>

section \<open>Identifiers and errors\<close>

definition formatId :: "string \<Rightarrow> string \<Rightarrow> ident" where
  "formatId pfx body = pfx @ ''_'' @ body"

datatype id_prefix =
    IP_event | IP_task | IP_run | IP_room | IP_message | IP_approval | IP_artifact | IP_dependency
  | IP_lease | IP_contextPack | IP_schedulerDecision | IP_agent | IP_agentInstance | IP_computer
  | IP_project | IP_organization | IP_user | IP_integrationJob | IP_modelProfile | IP_effortProfile
  | IP_memory | IP_skillInstall | IP_device | IP_deviceToken | IP_pairingCode | IP_userIdentity
  | IP_session | IP_oauthFlow | IP_decision | IP_handoff | IP_blocker | IP_goal | IP_plan
  | IP_checkpoint

fun ID_PREFIXES :: "id_prefix \<Rightarrow> string" where
  "ID_PREFIXES IP_event = ''evt''"
| "ID_PREFIXES IP_task = ''task''"
| "ID_PREFIXES IP_run = ''run''"
| "ID_PREFIXES IP_room = ''room''"
| "ID_PREFIXES IP_message = ''msg''"
| "ID_PREFIXES IP_approval = ''approval''"
| "ID_PREFIXES IP_artifact = ''artifact''"
| "ID_PREFIXES IP_dependency = ''dep''"
| "ID_PREFIXES IP_lease = ''lease''"
| "ID_PREFIXES IP_contextPack = ''ctx''"
| "ID_PREFIXES IP_schedulerDecision = ''sched''"
| "ID_PREFIXES IP_agent = ''agent''"
| "ID_PREFIXES IP_agentInstance = ''ai''"
| "ID_PREFIXES IP_computer = ''computer''"
| "ID_PREFIXES IP_project = ''proj''"
| "ID_PREFIXES IP_organization = ''org''"
| "ID_PREFIXES IP_user = ''user''"
| "ID_PREFIXES IP_integrationJob = ''integration''"
| "ID_PREFIXES IP_modelProfile = ''model''"
| "ID_PREFIXES IP_effortProfile = ''effort''"
| "ID_PREFIXES IP_memory = ''mem''"
| "ID_PREFIXES IP_skillInstall = ''skill''"
| "ID_PREFIXES IP_device = ''device''"
| "ID_PREFIXES IP_deviceToken = ''dtok''"
| "ID_PREFIXES IP_pairingCode = ''pair''"
| "ID_PREFIXES IP_userIdentity = ''uid''"
| "ID_PREFIXES IP_session = ''sess''"
| "ID_PREFIXES IP_oauthFlow = ''oauth''"
| "ID_PREFIXES IP_decision = ''dec''"
| "ID_PREFIXES IP_handoff = ''ho''"
| "ID_PREFIXES IP_blocker = ''blk''"
| "ID_PREFIXES IP_goal = ''goal''"
| "ID_PREFIXES IP_plan = ''plan''"
| "ID_PREFIXES IP_checkpoint = ''ckpt''"

type_synonym json_object = "(string \<times> json) list"

datatype api_error_code =
    AE_validation_error | AE_not_found | AE_permission_denied | AE_ai_consent_required
  | AE_ai_sharing_unconfigured | AE_conflict | AE_invalid_state | AE_runtime_unavailable
  | AE_computer_offline | AE_approval_required | AE_rate_limited | AE_internal_error

text \<open>
  What a service can throw: an \<open>AppError\<close> with its HTTP status and details, the domain's
  \<open>InvalidTransitionError\<close> or \<open>InvalidGoalTransitionError\<close>, an \<open>IdempotencyConflictError\<close>, an error of the database driver, or
  a plain \<open>Error\<close>.
\<close>

datatype server_error =
    App_error api_error_code string nat json_object
  | Transition_error invalid_transition
  | Goal_transition_error invalid_goal_transition
  | Idempotency_conflict string string
  | Db_error string
  | Plain_error string

definition validation :: "string \<Rightarrow> json_object \<Rightarrow> server_error" where
  "validation message details = App_error AE_validation_error message 400 details"

definition notFound :: "string \<Rightarrow> json_object \<Rightarrow> server_error" where
  "notFound message details = App_error AE_not_found message 404 details"

definition conflict_error :: "string \<Rightarrow> json_object \<Rightarrow> server_error" where
  "conflict_error message details = App_error AE_conflict message 409 details"

definition invalidState :: "string \<Rightarrow> json_object \<Rightarrow> server_error" where
  "invalidState message details = App_error AE_invalid_state message 409 details"

definition permissionDenied :: "string \<Rightarrow> json_object \<Rightarrow> server_error" where
  "permissionDenied message details = App_error AE_permission_denied message 403 details"

definition rateLimited :: "string \<Rightarrow> json_object \<Rightarrow> server_error" where
  "rateLimited message details = App_error AE_rate_limited message 429 details"

section \<open>Rows\<close>

datatype assignee_type = Asg_user | Asg_agent | Asg_agent_team
datatype effort = Eff_low | Eff_medium | Eff_high | Eff_max
datatype lease_status = LS_held | LS_released | LS_expired
datatype lease_holder_type = LH_run | LH_task | LH_agent | LH_system
datatype artifact_type =
    AT_patch | AT_pull_request | AT_file | AT_screenshot | AT_report | AT_log_bundle | AT_url
  | AT_test_result | AT_contract

record task_row =
  tk_id :: ident
  tk_organizationId :: ident
  tk_projectId :: ident
  tk_parentTaskId :: "ident option"
  tk_executionPolicyTaskId :: "ident option"
  tk_roomId :: "ident option"
  tk_goalId :: "ident option"
  tk_sourcePlanId :: "ident option"
  tk_sourcePlanSpecRef :: "string option"
  tk_title :: string
  tk_description :: string
  tk_status :: task_status
  tk_priority :: priority
  tk_assigneeType :: "assignee_type option"
  tk_assigneeId :: "ident option"
  tk_requiredCapabilities :: "string list"
  tk_preferredModelProfileId :: "ident option"
  tk_preferredEffort :: "effort option"
  tk_acceptanceCriteria :: "string list"
  tk_createdByType :: created_by_type
  tk_createdById :: ident
  tk_createdAt :: iso_time
  tk_updatedAt :: iso_time

record dependency_row =
  dp_id :: ident
  dp_organizationId :: ident
  dp_fromTaskId :: ident
  dp_toTaskId :: ident
  dp_type :: dependency_type
  dp_createdAt :: iso_time

record lease_row =
  fl_id :: ident
  fl_organizationId :: ident
  fl_projectId :: ident
  fl_taskId :: ident
  fl_runId :: "ident option"
  fl_holderType :: lease_holder_type
  fl_holderId :: ident
  fl_path :: string
  fl_mode :: lease_mode
  fl_status :: lease_status
  fl_acquiredAt :: iso_time
  fl_expiresAt :: "iso_time option"
  fl_releasedAt :: "iso_time option"
  fl_createdAt :: iso_time

record run_row =
  rn_id :: ident
  rn_organizationId :: ident
  rn_taskId :: ident
  rn_computerId :: ident
  rn_agentInstanceId :: ident
  rn_runtimeId :: string
  rn_schedulerDecisionId :: "ident option"
  rn_modelProfileId :: "ident option"
  rn_effortProfileId :: "ident option"
  rn_status :: run_status
  rn_contextPackId :: "ident option"
  rn_startedAt :: "iso_time option"
  rn_endedAt :: "iso_time option"
  rn_failureReason :: "string option"
  rn_sequence :: int
  rn_workspaceRoot :: "string option"
  rn_workspaceBranch :: "string option"
  rn_workspaceAllocation :: "json option"
  rn_createdAt :: iso_time
  rn_requestedByUserId :: "ident option"
  rn_aiDataSharingConsentId :: "ident option"
  rn_aiDataSharingPolicyVersion :: "string option"

record artifact_row =
  at_id :: ident
  at_organizationId :: ident
  at_taskId :: ident
  at_runId :: "ident option"
  at_type :: artifact_type
  at_uri :: string
  at_metadata :: json_object
  at_checksum :: "string option"
  at_createdAt :: iso_time

text \<open>\<open>EventInput\<close>, and the row it becomes once the database has given it a position.\<close>

record event_input =
  ev_id :: ident
  ev_organizationId :: ident
  ev_projectId :: "ident option"
  ev_type :: string
  ev_schemaVersion :: string
  ev_actorType :: actor_type
  ev_actorId :: ident
  ev_taskId :: "ident option"
  ev_roomId :: "ident option"
  ev_runId :: "ident option"
  ev_goalId :: "ident option"
  ev_correlationId :: ident
  ev_idempotencyKey :: "string option"
  ev_sequence :: "int option"
  ev_payload :: json_object
  ev_occurredAt :: iso_time

record event_row = event_input +
  ev_position :: nat

record idempotency_row =
  ik_scope :: string
  ik_key :: string
  ik_requestHash :: string
  ik_responseJson :: json
  ik_eventIds :: "ident list"
  ik_createdAt :: iso_time
  ik_expiresAt :: "iso_time option"

datatype room_type = RT_dm | RT_project | RT_sprint | RT_task | RT_agent_team | RT_incident | RT_goal
datatype decision_status = DS_proposed | DS_accepted | DS_rejected | DS_superseded
datatype integration_status = IQ_queued | IQ_integrating | IQ_done | IQ_failed

record project_row =
  pj_id :: ident
  pj_organizationId :: ident
  pj_name :: string
  pj_defaultWorkspace :: "string option"
  pj_createdAt :: iso_time

record room_row =
  rm_id :: ident
  rm_organizationId :: ident
  rm_projectId :: "ident option"
  rm_taskId :: "ident option"
  rm_goalId :: "ident option"
  rm_type :: room_type
  rm_name :: string
  rm_description :: string
  rm_createdAt :: iso_time

record message_row =
  msg_id :: ident
  msg_position :: nat
  msg_organizationId :: ident
  msg_roomId :: ident
  msg_taskId :: "ident option"
  msg_runId :: "ident option"
  msg_threadRootId :: "ident option"
  msg_replyCount :: int
  msg_clientRequestId :: "string option"
  msg_clientRequestHash :: "string option"
  msg_actorType :: actor_type
  msg_actorId :: ident
  msg_kind :: string
  msg_body :: string
  msg_payload :: json_object
  msg_moderatedAt :: "iso_time option"
  msg_moderatedByUserId :: "ident option"
  msg_createdAt :: iso_time

record approval_row =
  ap_id :: ident
  ap_organizationId :: ident
  ap_taskId :: ident
  ap_runId :: "ident option"
  ap_requestedByType :: created_by_type
  ap_requestedById :: ident
  ap_action :: string
  ap_risk :: risk
  ap_summary :: string
  ap_payloadRef :: "string option"
  ap_status :: approval_status
  ap_resolvedBy :: "ident option"
  ap_resolvedAt :: "iso_time option"
  ap_expiresAt :: "iso_time option"
  ap_createdAt :: iso_time

record decision_row =
  dr_id :: ident
  dr_organizationId :: ident
  dr_roomId :: ident
  dr_taskId :: "ident option"
  dr_runId :: "ident option"
  dr_goalId :: "ident option"
  dr_planId :: "ident option"
  dr_sourceMessageId :: "ident option"
  dr_status :: decision_status
  dr_actorType :: actor_type
  dr_actorId :: ident
  dr_summary :: string
  dr_rationale :: "string option"
  dr_alternatives :: "string list"
  dr_evidenceRefs :: "string list"
  dr_impactSummary :: "string option"
  dr_supersededById :: "ident option"
  dr_createdAt :: iso_time
  dr_updatedAt :: iso_time

record handoff_row =
  hf_id :: ident
  hf_organizationId :: ident
  hf_roomId :: ident
  hf_taskId :: "ident option"
  hf_runId :: "ident option"
  hf_goalId :: "ident option"
  hf_planId :: "ident option"
  hf_senderType :: actor_type
  hf_senderId :: ident
  hf_recipientType :: actor_type
  hf_recipientId :: ident
  hf_expectedAction :: string
  hf_blockingCondition :: "string option"
  hf_priority :: "handoff_priority option"
  hf_dueAt :: "iso_time option"
  hf_status :: handoff_status
  hf_nextAction :: "string option"
  hf_latestStatus :: "string option"
  hf_createdAt :: iso_time
  hf_updatedAt :: iso_time

record blocker_row =
  bk_id :: ident
  bk_organizationId :: ident
  bk_roomId :: ident
  bk_taskId :: "ident option"
  bk_runId :: "ident option"
  bk_goalId :: "ident option"
  bk_planId :: "ident option"
  bk_type :: blocker_type
  bk_ownerType :: actor_type
  bk_ownerId :: ident
  bk_sourceKind :: "blocker_source_kind option"
  bk_sourceId :: "ident option"
  bk_summary :: string
  bk_mitigation :: "string option"
  bk_nextAction :: "string option"
  bk_status :: blocker_status
  bk_createdAt :: iso_time
  bk_updatedAt :: iso_time

text \<open>
  The JSON columns of goals, plans and checkpoints are only ever written with values their schema
  has parsed, so they are of the schema's type.
\<close>

record goal_row =
  gl_id :: ident
  gl_organizationId :: ident
  gl_projectId :: ident
  gl_roomId :: "ident option"
  gl_ownerUserId :: ident
  gl_title :: string
  gl_objective :: string
  gl_priority :: priority
  gl_status :: goal_status
  gl_acceptanceCriteria :: "string list"
  gl_stopConditions :: stop_conditions
  gl_budgets :: goal_budgets
  gl_currentPlanId :: "ident option"
  gl_runningSince :: "iso_time option"
  gl_elapsedCostUsd :: "rat option"
  gl_retryCount :: int
  gl_createdAt :: iso_time
  gl_updatedAt :: iso_time

record plan_row =
  pl_id :: ident
  pl_organizationId :: ident
  pl_goalId :: ident
  pl_version :: int
  pl_authorType :: actor_type
  pl_authorId :: ident
  pl_rationale :: string
  pl_status :: plan_status
  pl_taskSpecs :: "task_spec list"
  pl_materializedAt :: "iso_time option"
  pl_materializationEventId :: "ident option"
  pl_createdAt :: iso_time
  pl_acceptedAt :: "iso_time option"

record checkpoint_row =
  ck_id :: ident
  ck_organizationId :: ident
  ck_goalId :: ident
  ck_planId :: "ident option"
  ck_type :: checkpoint_type
  ck_triggerEventId :: "ident option"
  ck_stateRefs :: checkpoint_refs
  ck_summary :: string
  ck_createdAt :: iso_time

record usage_row =
  us_runId :: ident
  us_organizationId :: ident
  us_inputTokens :: "int option"
  us_outputTokens :: "int option"
  us_cachedInputTokens :: "int option"
  us_costUsd :: "rat option"
  us_currency :: "string option"
  us_providerSessionId :: "string option"
  us_updatedAt :: iso_time

record ingest_row =
  ri_nodeId :: ident
  ri_runId :: ident
  ri_sequence :: int
  ri_eventId :: ident
  ri_bodyIdentity :: "string option"
  ri_createdAt :: iso_time

record integration_row =
  iq_id :: ident
  iq_organizationId :: ident
  iq_projectId :: ident
  iq_taskId :: ident
  iq_runId :: "ident option"
  iq_status :: integration_status
  iq_sequence :: int
  iq_artifactRef :: "ident option"
  iq_enqueuedAt :: iso_time
  iq_startedAt :: "iso_time option"
  iq_endedAt :: "iso_time option"
  iq_createdAt :: iso_time

record database =
  d_projects :: "project_row list"
  d_rooms :: "room_row list"
  d_tasks :: "task_row list"
  d_deps :: "dependency_row list"
  d_leases :: "lease_row list"
  d_runs :: "run_row list"
  d_artifacts :: "artifact_row list"
  d_messages :: "message_row list"
  d_approvals :: "approval_row list"
  d_decisions :: "decision_row list"
  d_handoffs :: "handoff_row list"
  d_blockers :: "blocker_row list"
  d_goals :: "goal_row list"
  d_plans :: "plan_row list"
  d_checkpoints :: "checkpoint_row list"
  d_usage :: "usage_row list"
  d_ingest :: "ingest_row list"
  d_integration :: "integration_row list"
  d_events :: "event_row list"
  d_idempotency :: "idempotency_row list"

definition empty_db :: database where
  "empty_db = \<lparr>d_projects = [], d_rooms = [], d_tasks = [], d_deps = [], d_leases = [], d_runs = [],
     d_artifacts = [], d_messages = [], d_approvals = [], d_decisions = [], d_handoffs = [], d_blockers = [],
     d_goals = [], d_plans = [], d_checkpoints = [], d_usage = [], d_ingest = [], d_integration = [],
     d_events = [], d_idempotency = []\<rparr>"

text \<open>
  The state a service runs in: the tables, how often the clock and the id generator have been
  asked, and the last positions handed out by the sequences of the log and of the messages.
\<close>

record world =
  w_db :: database
  w_clock :: nat
  w_ids :: nat
  w_seq :: nat
  w_mseq :: nat

text \<open>
  \<open>ServerContext\<close>, as far as the services read it: the successive readings of the clock and the
  successive bodies of the id generator, the organization and the acting user, the database's
  treatment of timestamps, and \<open>Date.parse\<close> of them (\<open>None\<close> is \<open>NaN\<close>).
\<close>

record server_context =
  cx_now :: "nat \<Rightarrow> iso_time"
  cx_ulid :: "nat \<Rightarrow> string"
  cx_organizationId :: ident
  cx_actorUserId :: ident
  cx_ts :: "iso_time \<Rightarrow> iso_time option"
  cx_millis :: "iso_time \<Rightarrow> int option"

type_synonym 'a srv = "(world, server_error, 'a) ex"

end
