(* ===== verification/Database.thy ===== *)
theory Database
  imports Tables
begin

text \<open>
  What every service does with the database: the transaction, selects, updates and inserts, the
  event log (\<open>packages/db/src/event-writer.ts\<close> and the server's \<open>events.ts\<close>) and the idempotency
  store (\<open>packages/db/src/idempotency.ts\<close>). Primary keys, unique constraints and the foreign keys
  between the modelled tables are checked by the inserts. A transaction that throws leaves the
  tables as they were; the clock, the id generator and the sequence behind the log's positions
  keep what they have handed out.
\<close>

section \<open>Clock, ids, queries\<close>

definition nowIso :: "server_context \<Rightarrow> iso_time srv" where
  "nowIso ctx = (\<lambda>w. (Inr (cx_now ctx (w_clock w)), w\<lparr>w_clock := w_clock w + 1\<rparr>))"

definition generate :: "server_context \<Rightarrow> id_prefix \<Rightarrow> ident srv" where
  "generate ctx p =
     (\<lambda>w. (Inr (formatId (ID_PREFIXES p) (cx_ulid ctx (w_ids w))), w\<lparr>w_ids := w_ids w + 1\<rparr>))"

text \<open>\<open>select().from(table).where(P)\<close>, \<open>update(table).set(f).where(P)\<close>, and the insert of one row.\<close>

definition sel :: "(database \<Rightarrow> 'r list) \<Rightarrow> ('r \<Rightarrow> bool) \<Rightarrow> 'r list srv" where
  "sel table P = gets (\<lambda>w. filter P (table (w_db w)))"

definition in_db :: "(database \<Rightarrow> database) \<Rightarrow> unit srv" where
  "in_db f = modify (\<lambda>w. w\<lparr>w_db := f (w_db w)\<rparr>)"

definition set_rows :: "('r \<Rightarrow> bool) \<Rightarrow> ('r \<Rightarrow> 'r) \<Rightarrow> 'r list \<Rightarrow> 'r list" where
  "set_rows P f rows = map (\<lambda>r. if P r then f r else r) rows"

definition refuse_if :: "(database \<Rightarrow> bool) \<Rightarrow> string \<Rightarrow> unit srv" where
  "refuse_if bad message = bind (gets (\<lambda>w. bad (w_db w))) (\<lambda>b. guard (\<not> b) (Db_error message))"

definition ts_value :: "server_context \<Rightarrow> iso_time \<Rightarrow> iso_time srv" where
  "ts_value ctx t =
     (case cx_ts ctx t of None \<Rightarrow> throw (Db_error ''invalid timestamp'') | Some t' \<Rightarrow> ret t')"

definition ts_nullable :: "server_context \<Rightarrow> iso_time option \<Rightarrow> iso_time option srv" where
  "ts_nullable ctx t =
     (case t of None \<Rightarrow> ret None | Some v \<Rightarrow> bind (ts_value ctx v) (\<lambda>v'. ret (Some v')))"

text \<open>\<open>client.transaction(fn)\<close>.\<close>

definition transaction :: "'a srv \<Rightarrow> 'a srv" where
  "transaction m =
     (\<lambda>w. case m w of (Inr a, w') \<Rightarrow> (Inr a, w') | (Inl e, w') \<Rightarrow> (Inl e, w'\<lparr>w_db := w_db w\<rparr>))"

text \<open>The inserts, with the constraints of the schema.\<close>

definition insert_lease :: "server_context \<Rightarrow> lease_row \<Rightarrow> unit srv" where
  "insert_lease ctx row =
     bind (ts_value ctx (fl_acquiredAt row)) (\<lambda>acquired.
     bind (ts_nullable ctx (fl_expiresAt row)) (\<lambda>expires.
     bind (ts_nullable ctx (fl_releasedAt row)) (\<lambda>released.
     bind (ts_value ctx (fl_createdAt row)) (\<lambda>created.
     bind (refuse_if (\<lambda>db. fl_id row \<in> fl_id ` set (d_leases db)) ''file_leases_pkey'') (\<lambda>_.
     bind (refuse_if (\<lambda>db. fl_taskId row \<notin> tk_id ` set (d_tasks db)) ''file_leases_task_id_fk'') (\<lambda>_.
     bind (refuse_if (\<lambda>db. case fl_runId row of None \<Rightarrow> False | Some r \<Rightarrow> r \<notin> rn_id ` set (d_runs db))
             ''file_leases_run_id_fk'') (\<lambda>_.
     in_db (d_leases_update (\<lambda>rows. rows @
       [row\<lparr>fl_acquiredAt := acquired, fl_expiresAt := expires, fl_releasedAt := released,
            fl_createdAt := created\<rparr>]))))))))) "

definition insert_dependency :: "server_context \<Rightarrow> dependency_row \<Rightarrow> unit srv" where
  "insert_dependency ctx row =
     bind (ts_value ctx (dp_createdAt row)) (\<lambda>created.
     bind (refuse_if (\<lambda>db. dp_id row \<in> dp_id ` set (d_deps db)) ''task_dependencies_pkey'') (\<lambda>_.
     bind (refuse_if (\<lambda>db. \<exists>d \<in> set (d_deps db). dp_fromTaskId d = dp_fromTaskId row
                 \<and> dp_toTaskId d = dp_toTaskId row \<and> dp_type d = dp_type row) ''task_deps_unique'') (\<lambda>_.
     bind (refuse_if (\<lambda>db. dp_fromTaskId row \<notin> tk_id ` set (d_tasks db)) ''task_dependencies_from_fk'') (\<lambda>_.
     bind (refuse_if (\<lambda>db. dp_toTaskId row \<notin> tk_id ` set (d_tasks db)) ''task_dependencies_to_fk'') (\<lambda>_.
     in_db (d_deps_update (\<lambda>rows. rows @ [row\<lparr>dp_createdAt := created\<rparr>])))))))"

definition insert_idempotency :: "server_context \<Rightarrow> idempotency_row \<Rightarrow> unit srv" where
  "insert_idempotency ctx row =
     bind (ts_value ctx (ik_createdAt row)) (\<lambda>created.
     bind (ts_nullable ctx (ik_expiresAt row)) (\<lambda>expires.
     bind (refuse_if (\<lambda>db. \<exists>k \<in> set (d_idempotency db). ik_scope k = ik_scope row \<and> ik_key k = ik_key row)
             ''idempotency_keys_pk'') (\<lambda>_.
     in_db (d_idempotency_update (\<lambda>rows. rows @ [row\<lparr>ik_createdAt := created, ik_expiresAt := expires\<rparr>])))))"

section \<open>The event log\<close>

record event_ref =
  ef_id :: ident
  ef_position :: nat
  ef_type :: string
  ef_occurredAt :: iso_time

text \<open>
  \<open>appendEvent\<close>. The sequence is advanced before the primary key is checked, and is not rolled
  back with the transaction.
\<close>

definition nextval :: "nat srv" where
  "nextval = (\<lambda>w. (Inr (w_seq w + 1), w\<lparr>w_seq := w_seq w + 1\<rparr>))"

definition appendEvent :: "server_context \<Rightarrow> event_input \<Rightarrow> event_ref srv" where
  "appendEvent ctx input =
     bind (ts_value ctx (ev_occurredAt input)) (\<lambda>occurred.
     bind nextval (\<lambda>pos.
     bind (refuse_if (\<lambda>db. ev_id input \<in> ev_id ` set (d_events db)) ''event_log_pkey'') (\<lambda>_.
     bind (in_db (d_events_update (\<lambda>rows. rows @
       [event_input.extend (input\<lparr>ev_occurredAt := occurred\<rparr>) \<lparr>ev_position = pos\<rparr>]))) (\<lambda>_.
     ret \<lparr>ef_id = ev_id input, ef_position = pos, ef_type = ev_type input, ef_occurredAt = occurred\<rparr>))))"

text \<open>\<open>EventSpec\<close>, and an object literal that sets the four required fields and leaves the rest out.\<close>

record event_spec =
  es_type :: string
  es_actorType :: actor_type
  es_actorId :: ident
  es_correlationId :: ident
  es_projectId :: "ident option"
  es_taskId :: "ident option"
  es_roomId :: "ident option"
  es_runId :: "ident option"
  es_goalId :: "ident option"
  es_sequence :: "int option"
  es_payload :: json_object

definition event_of :: "string \<Rightarrow> actor_type \<Rightarrow> ident \<Rightarrow> ident \<Rightarrow> event_spec" where
  "event_of ty actorType actorId correlationId =
     \<lparr>es_type = ty, es_actorType = actorType, es_actorId = actorId, es_correlationId = correlationId,
      es_projectId = None, es_taskId = None, es_roomId = None, es_runId = None, es_goalId = None,
      es_sequence = None, es_payload = []\<rparr>"

definition EVENT_SCHEMA_VERSION :: string where
  "EVENT_SCHEMA_VERSION = ''2026-06-11''"

definition buildEvent :: "server_context \<Rightarrow> event_spec \<Rightarrow> event_input srv" where
  "buildEvent ctx spec =
     bind (generate ctx IP_event) (\<lambda>i.
     bind (nowIso ctx) (\<lambda>now.
     ret \<lparr>ev_id = i, ev_organizationId = cx_organizationId ctx, ev_projectId = es_projectId spec,
          ev_type = es_type spec, ev_schemaVersion = EVENT_SCHEMA_VERSION,
          ev_actorType = es_actorType spec, ev_actorId = es_actorId spec, ev_taskId = es_taskId spec,
          ev_roomId = es_roomId spec, ev_runId = es_runId spec, ev_goalId = es_goalId spec,
          ev_correlationId = es_correlationId spec, ev_idempotencyKey = None,
          ev_sequence = es_sequence spec, ev_payload = es_payload spec, ev_occurredAt = now\<rparr>))"

text \<open>\<open>await appendEvent(tx, buildEvent(ctx, spec))\<close>.\<close>

definition emit :: "server_context \<Rightarrow> event_spec \<Rightarrow> unit srv" where
  "emit ctx spec = bind (buildEvent ctx spec) (\<lambda>input. bind (appendEvent ctx input) (\<lambda>_. skip))"

text \<open>\<open>const e = buildEvent(ctx, spec); await appendEvent(tx, e)\<close>, where the event's id is used.\<close>

definition emit_id :: "server_context \<Rightarrow> event_spec \<Rightarrow> ident srv" where
  "emit_id ctx spec = bind (buildEvent ctx spec) (\<lambda>input. bind (appendEvent ctx input) (\<lambda>_. ret (ev_id input)))"

section \<open>Idempotent writes\<close>

record idempotent_params =
  ip_scope :: string
  ip_key :: string
  ip_requestHash :: string
  ip_now :: iso_time

record idempotent_result =
  ir_replayed :: bool
  ir_response :: json
  ir_eventIds :: "ident list"

definition runIdempotent ::
  "server_context \<Rightarrow> idempotent_params \<Rightarrow> (json \<times> event_input list) srv \<Rightarrow> idempotent_result srv" where
  "runIdempotent ctx params fn =
     transaction (
       bind (sel d_idempotency (\<lambda>k. ik_scope k = ip_scope params \<and> ik_key k = ip_key params)) (\<lambda>existing.
       case first existing of
         Some prior \<Rightarrow>
           bind (guard (ik_requestHash prior = ip_requestHash params)
                  (Idempotency_conflict (ip_scope params) (ip_key params))) (\<lambda>_.
           ret \<lparr>ir_replayed = True, ir_response = ik_responseJson prior, ir_eventIds = ik_eventIds prior\<rparr>)
       | None \<Rightarrow>
           bind fn (\<lambda>(response, events).
           bind (for_fold events [] (\<lambda>ids event.
                   bind (appendEvent ctx event) (\<lambda>row. ret (ids @ [ef_id row])))) (\<lambda>eventIds.
           bind (insert_idempotency ctx
                  \<lparr>ik_scope = ip_scope params, ik_key = ip_key params, ik_requestHash = ip_requestHash params,
                   ik_responseJson = response, ik_eventIds = eventIds, ik_createdAt = ip_now params,
                   ik_expiresAt = None\<rparr>) (\<lambda>_.
           ret \<lparr>ir_replayed = False, ir_response = response, ir_eventIds = eventIds\<rparr>)))))"

lemmas db_defs [model_defs] =
  nowIso_def generate_def sel_def in_db_def set_rows_def refuse_if_def ts_value_def ts_nullable_def
  nextval_def appendEvent_def buildEvent_def emit_def emit_id_def

lemma refuse_if_result: "refuse_if bad m w = (if bad (w_db w) then (Inl (Db_error m), w) else (Inr (), w))"
  by (simp add: refuse_if_def bind_def gets_def guard_def throw_def skip_def ret_def)

lemma ts_value_result:
  "ts_value ctx t w = (case cx_ts ctx t of
       None \<Rightarrow> (Inl (Db_error ''invalid timestamp''), w) | Some t' \<Rightarrow> (Inr t', w))"
  by (simp add: ts_value_def run_basic split: option.split)

lemma ts_nullable_result:
  "ts_nullable ctx t w = (case t of
       None \<Rightarrow> (Inr None, w)
     | Some v \<Rightarrow> (case cx_ts ctx v of None \<Rightarrow> (Inl (Db_error ''invalid timestamp''), w) | Some v' \<Rightarrow> (Inr (Some v'), w)))"
  by (simp add: ts_nullable_def ts_value_def run_basic split: option.split)

section \<open>Operations that write nothing but the log\<close>

text \<open>The tables without the event log.\<close>

definition core :: "world \<Rightarrow> database" where
  "core w = (w_db w)\<lparr>d_events := []\<rparr>"

lemma core_simps [simp]:
  "d_tasks (core w) = d_tasks (w_db w)"
  "d_deps (core w) = d_deps (w_db w)"
  "d_leases (core w) = d_leases (w_db w)"
  "d_runs (core w) = d_runs (w_db w)"
  "d_artifacts (core w) = d_artifacts (w_db w)"
  "d_idempotency (core w) = d_idempotency (w_db w)"
  "d_projects (core w) = d_projects (w_db w)"
  "d_rooms (core w) = d_rooms (w_db w)"
  "d_messages (core w) = d_messages (w_db w)"
  "d_approvals (core w) = d_approvals (w_db w)"
  "d_decisions (core w) = d_decisions (w_db w)"
  "d_handoffs (core w) = d_handoffs (w_db w)"
  "d_blockers (core w) = d_blockers (w_db w)"
  "d_goals (core w) = d_goals (w_db w)"
  "d_plans (core w) = d_plans (w_db w)"
  "d_checkpoints (core w) = d_checkpoints (w_db w)"
  "d_usage (core w) = d_usage (w_db w)"
  "d_ingest (core w) = d_ingest (w_db w)"
  "d_integration (core w) = d_integration (w_db w)"
  "core (w\<lparr>w_clock := a\<rparr>) = core w"
  "core (w\<lparr>w_ids := b\<rparr>) = core w"
  "core (w\<lparr>w_seq := c\<rparr>) = core w"
  "core (w\<lparr>w_mseq := d\<rparr>) = core w"
  by (simp_all add: core_def)

definition quiet :: "'a srv \<Rightarrow> bool" where
  "quiet m \<longleftrightarrow> (\<forall>c. keeps (\<lambda>w. core w = c) m)"

named_theorems quiet_rules \<open>operations that write nothing but the event log\<close>

lemma quietI: "(\<And>w. core (snd (m w)) = core w) \<Longrightarrow> quiet m"
  by (auto simp: quiet_def keeps_def)

lemma quietD: "quiet m \<Longrightarrow> core (snd (m w)) = core w"
  by (auto simp: quiet_def keeps_def)

lemma quiet_run: "quiet m \<Longrightarrow> m w = (r, w') \<Longrightarrow> core w' = core w"
  using quietD [of m w] by simp

lemma quiet_keeps: "quiet m \<Longrightarrow> keeps (\<lambda>w. J (core w)) m"
  by (rule keepsI) (simp add: quietD)

lemma quiet_triple: "quiet m \<Longrightarrow> triple (\<lambda>w. J (core w)) m (\<lambda>_ w. J (core w)) (\<lambda>_ w. J (core w))"
  using quiet_keeps [of m J] by (simp add: keeps_triple)

lemma quiet_ret [quiet_rules]: "quiet (ret a)"
  and quiet_throw [quiet_rules]: "quiet (throw e)"
  and quiet_skip [quiet_rules]: "quiet skip"
  and quiet_guard [quiet_rules]: "quiet (guard b e)"
  and quiet_gets [quiet_rules]: "quiet (gets f)"
  and quiet_lift_sum [quiet_rules]: "quiet (lift_sum g r)"
  by (simp_all add: quiet_def keeps_rules)

lemma quiet_bind [quiet_rules]: "quiet m \<Longrightarrow> (\<And>a. quiet (f a)) \<Longrightarrow> quiet (bind m f)"
  by (simp add: quiet_def keeps_bind)

lemma quiet_if [quiet_rules]: "(b \<Longrightarrow> quiet m) \<Longrightarrow> (\<not> b \<Longrightarrow> quiet m') \<Longrightarrow> quiet (if b then m else m')"
  by simp

lemma quiet_option [quiet_rules]:
  "(v = None \<Longrightarrow> quiet m) \<Longrightarrow> (\<And>x. v = Some x \<Longrightarrow> quiet (f x))
     \<Longrightarrow> quiet (case v of None \<Rightarrow> m | Some x \<Rightarrow> f x)"
  by (cases v) simp_all

lemma quiet_for_each [quiet_rules]: "(\<And>x. x \<in> set xs \<Longrightarrow> quiet (f x)) \<Longrightarrow> quiet (for_each xs f)"
  by (simp add: quiet_def keeps_for_each)

lemma quiet_for_fold [quiet_rules]: "(\<And>acc x. x \<in> set xs \<Longrightarrow> quiet (f acc x)) \<Longrightarrow> quiet (for_fold xs acc f)"
  by (simp add: quiet_def keeps_for_fold)

lemma quiet_nowIso [quiet_rules]: "quiet (nowIso ctx)"
  by (rule quietI) (simp add: nowIso_def)

lemma quiet_generate [quiet_rules]: "quiet (generate ctx p)"
  by (rule quietI) (simp add: generate_def)

lemma quiet_nextval [quiet_rules]: "quiet nextval"
  by (rule quietI) (simp add: nextval_def)

lemma quiet_sel [quiet_rules]: "quiet (sel table P)"
  by (simp add: sel_def quiet_rules)

lemma quiet_refuse_if [quiet_rules]: "quiet (refuse_if bad m)"
  by (simp add: refuse_if_def quiet_rules)

lemma quiet_ts_value [quiet_rules]: "quiet (ts_value ctx t)"
  unfolding ts_value_def by (intro quiet_rules)

lemma quiet_ts_nullable [quiet_rules]: "quiet (ts_nullable ctx t)"
  unfolding ts_nullable_def by (intro quiet_rules)

lemma quiet_log [quiet_rules]: "quiet (in_db (d_events_update f))"
  by (rule quietI) (simp add: in_db_def modify_def core_def)

lemma quiet_appendEvent [quiet_rules]: "quiet (appendEvent ctx input)"
  unfolding appendEvent_def by (intro quiet_rules)

lemma quiet_buildEvent [quiet_rules]: "quiet (buildEvent ctx spec)"
  unfolding buildEvent_def by (intro quiet_rules)

lemma quiet_emit [quiet_rules]: "quiet (emit ctx spec)"
  unfolding emit_def by (intro quiet_rules)

lemma quiet_emit_id [quiet_rules]: "quiet (emit_id ctx spec)"
  unfolding emit_id_def by (intro quiet_rules)

text \<open>What a query returns, and what a write does, in terms of the tables at that point.\<close>

lemma triple_sel:
  assumes "\<And>db. table (db\<lparr>d_events := []\<rparr>) = table db"
    and "\<And>w. P w \<Longrightarrow> Q (filter p (table (core w))) w"
  shows "triple P (sel table p) Q E"
  using assms by (auto simp: sel_def core_def intro: triple_gets)

lemma triple_in_db: "(\<And>w. P w \<Longrightarrow> Q () (w\<lparr>w_db := f (w_db w)\<rparr>)) \<Longrightarrow> triple P (in_db f) Q E"
  by (simp add: in_db_def triple_modify)

lemma transaction_ok: "transaction m w = (Inr a, w') \<longleftrightarrow> m w = (Inr a, w')"
  by (cases "m w"; cases "fst (m w)") (auto simp: transaction_def)

lemma transaction_error: "transaction m w = (Inl e, w') \<Longrightarrow> w_db w' = w_db w"
  by (cases "m w"; cases "fst (m w)") (auto simp: transaction_def)

lemma triple_transaction:
  assumes "triple (\<lambda>w. P w \<and> w_db w = db) m Q E"
    and "\<And>e w. E e w \<Longrightarrow> E' e (w\<lparr>w_db := db\<rparr>)"
  shows "triple (\<lambda>w. P w \<and> w_db w = db) (transaction m) Q E'"
proof (rule tripleI)
  fix w a w' assume "P w \<and> w_db w = db" "transaction m w = (Inr a, w')"
  then show "Q a w'" using assms(1) by (auto simp: transaction_ok dest: tripleD)
next
  fix w e w' assume pre: "P w \<and> w_db w = db" and run: "transaction m w = (Inl e, w')"
  then obtain w1 where "m w = (Inl e, w1)" "w' = w1\<lparr>w_db := db\<rparr>"
    by (cases "m w"; cases "fst (m w)") (auto simp: transaction_def)
  then show "E' e w'" using tripleD_err [OF assms(1) pre] assms(2) by blast
qed

lemma transaction_cases: "snd (transaction m w) = snd (m w) \<or> snd (transaction m w) = (snd (m w))\<lparr>w_db := w_db w\<rparr>"
  by (cases "m w"; cases "fst (m w)") (simp_all add: transaction_def)

lemma core_rollback [simp]: "core (w'\<lparr>w_db := w_db w\<rparr>) = core w"
  by (simp add: core_def)

lemma keeps_transaction [keeps_rules]: "keeps (\<lambda>w. J (core w)) m \<Longrightarrow> keeps (\<lambda>w. J (core w)) (transaction m)"
proof (rule keepsI)
  fix w assume m: "keeps (\<lambda>w. J (core w)) m" and J: "J (core w)"
  from transaction_cases [of m w] show "J (core (snd (transaction m w)))"
  proof
    assume "snd (transaction m w) = snd (m w)"
    then show ?thesis using keepsD [OF m J] by simp
  next
    assume "snd (transaction m w) = (snd (m w))\<lparr>w_db := w_db w\<rparr>"
    then show ?thesis using J by simp
  qed
qed

lemma keeps_transaction_any:
  assumes "keeps J m" and "\<And>w w'. J w \<Longrightarrow> J w' \<Longrightarrow> J (w'\<lparr>w_db := w_db w\<rparr>)"
  shows "keeps J (transaction m)"
proof (rule keepsI)
  fix w assume J: "J w"
  then have "J (snd (m w))" using assms(1) by (simp add: keeps_def)
  then show "J (snd (transaction m w))"
    using assms(2) [OF J] by (cases "m w"; cases "fst (m w)") (auto simp: transaction_def)
qed

section \<open>The order of the log\<close>

text \<open>
  Positions strictly increase along the log, none is beyond the sequence, and event ids are unique.
\<close>

definition log_ok :: "world \<Rightarrow> bool" where
  "log_ok w \<longleftrightarrow> sorted_wrt (<) (map ev_position (d_events (w_db w)))
     \<and> (\<forall>e \<in> set (d_events (w_db w)). ev_position e \<le> w_seq w)
     \<and> distinct (map ev_id (d_events (w_db w)))"

lemma log_ok_simps [simp]:
  "log_ok (w\<lparr>w_clock := a\<rparr>) = log_ok w"
  "log_ok (w\<lparr>w_ids := b\<rparr>) = log_ok w"
  "log_ok (w\<lparr>w_mseq := c\<rparr>) = log_ok w"
  by (simp_all add: log_ok_def)

text \<open>
  A rollback takes rows back but not the sequence, so an operation keeps the order only together
  with the fact that the sequence never goes back.
\<close>

definition log_from :: "nat \<Rightarrow> world \<Rightarrow> bool" where
  "log_from n w \<longleftrightarrow> log_ok w \<and> n \<le> w_seq w"

definition orderly :: "'a srv \<Rightarrow> bool" where
  "orderly m \<longleftrightarrow> (\<forall>n. keeps (log_from n) m)"

named_theorems orderly_rules \<open>operations that keep the order of the log\<close>

lemma orderlyI: "(\<And>n w. log_from n w \<Longrightarrow> log_from n (snd (m w))) \<Longrightarrow> orderly m"
  by (simp add: orderly_def keeps_def)

lemma orderlyD: "orderly m \<Longrightarrow> log_from n w \<Longrightarrow> log_from n (snd (m w))"
  by (simp add: orderly_def keeps_def)

lemma orderly_log_ok: "orderly m \<Longrightarrow> log_ok w \<Longrightarrow> log_ok (snd (m w)) \<and> w_seq w \<le> w_seq (snd (m w))"
  using orderlyD [of m "w_seq w" w] by (simp add: log_from_def)

lemma orderly_ret [orderly_rules]: "orderly (ret a)"
  and orderly_throw [orderly_rules]: "orderly (throw e)"
  and orderly_skip [orderly_rules]: "orderly skip"
  and orderly_guard [orderly_rules]: "orderly (guard b e)"
  and orderly_gets [orderly_rules]: "orderly (gets f)"
  and orderly_lift_sum [orderly_rules]: "orderly (lift_sum g r)"
  by (simp_all add: orderly_def keeps_rules)

lemma orderly_bind [orderly_rules]: "orderly m \<Longrightarrow> (\<And>a. orderly (f a)) \<Longrightarrow> orderly (bind m f)"
  by (simp add: orderly_def keeps_bind)

lemma orderly_if [orderly_rules]: "(b \<Longrightarrow> orderly m) \<Longrightarrow> (\<not> b \<Longrightarrow> orderly m') \<Longrightarrow> orderly (if b then m else m')"
  by simp

lemma orderly_option [orderly_rules]:
  "(v = None \<Longrightarrow> orderly m) \<Longrightarrow> (\<And>x. v = Some x \<Longrightarrow> orderly (f x))
     \<Longrightarrow> orderly (case v of None \<Rightarrow> m | Some x \<Rightarrow> f x)"
  by (cases v) simp_all

lemma orderly_for_each [orderly_rules]: "(\<And>x. x \<in> set xs \<Longrightarrow> orderly (f x)) \<Longrightarrow> orderly (for_each xs f)"
  by (simp add: orderly_def keeps_for_each)

lemma orderly_for_fold [orderly_rules]:
  "(\<And>acc x. x \<in> set xs \<Longrightarrow> orderly (f acc x)) \<Longrightarrow> orderly (for_fold xs acc f)"
  by (simp add: orderly_def keeps_for_fold)

lemma orderly_nowIso [orderly_rules]: "orderly (nowIso ctx)"
  by (rule orderlyI) (simp add: nowIso_def log_from_def)

lemma orderly_generate [orderly_rules]: "orderly (generate ctx p)"
  by (rule orderlyI) (simp add: generate_def log_from_def)

lemma orderly_sel [orderly_rules]: "orderly (sel table P)"
  by (simp add: sel_def orderly_gets)

lemma orderly_in_db: "(\<And>db. d_events (f db) = d_events db) \<Longrightarrow> orderly (in_db f)"
  by (rule orderlyI) (simp add: in_db_def modify_def log_ok_def log_from_def)

lemma orderly_writes [orderly_rules]:
  "orderly (in_db (d_tasks_update f))" "orderly (in_db (d_deps_update g))"
  "orderly (in_db (d_leases_update h))" "orderly (in_db (d_runs_update k))"
  "orderly (in_db (d_artifacts_update l))" "orderly (in_db (d_idempotency_update m))"
  by (rule orderly_in_db; simp)+

lemma orderly_refuse_if [orderly_rules]: "orderly (refuse_if bad m)"
  unfolding refuse_if_def by (intro orderly_rules)

lemma orderly_ts_value [orderly_rules]: "orderly (ts_value ctx t)"
  unfolding ts_value_def by (intro orderly_rules)

lemma orderly_ts_nullable [orderly_rules]: "orderly (ts_nullable ctx t)"
  unfolding ts_nullable_def by (intro orderly_rules)

text \<open>What an append returns and leaves.\<close>

definition logged :: "event_input \<Rightarrow> iso_time \<Rightarrow> nat \<Rightarrow> event_row" where
  "logged input t pos = event_input.extend (input\<lparr>ev_occurredAt := t\<rparr>) \<lparr>ev_position = pos\<rparr>"

lemma logged_simps [simp]: "ev_id (logged i t p) = ev_id i" "ev_position (logged i t p) = p"
  by (simp_all add: logged_def event_input.defs)

lemma appendEvent_result:
  "appendEvent ctx input w =
     (case cx_ts ctx (ev_occurredAt input) of
        None \<Rightarrow> (Inl (Db_error ''invalid timestamp''), w)
      | Some t \<Rightarrow>
          (if ev_id input \<in> ev_id ` set (d_events (w_db w))
           then (Inl (Db_error ''event_log_pkey''), w\<lparr>w_seq := w_seq w + 1\<rparr>)
           else (Inr \<lparr>ef_id = ev_id input, ef_position = w_seq w + 1, ef_type = ev_type input, ef_occurredAt = t\<rparr>,
                 w\<lparr>w_seq := w_seq w + 1,
                    w_db := (w_db w)\<lparr>d_events := d_events (w_db w) @ [logged input t (w_seq w + 1)]\<rparr>\<rparr>)))"
  by (simp add: appendEvent_def ts_value_def bind_def throw_def ret_def nextval_def refuse_if_result
      in_db_def modify_def logged_def split: option.split)

lemma log_from_seq: "log_from n w \<Longrightarrow> log_from n (w\<lparr>w_seq := Suc (w_seq w)\<rparr>)"
  by (auto simp: log_from_def log_ok_def)

lemma log_from_append:
  "log_from n w \<Longrightarrow> ev_id input \<notin> ev_id ` set (d_events (w_db w)) \<Longrightarrow>
   log_from n (w\<lparr>w_seq := Suc (w_seq w),
      w_db := (w_db w)\<lparr>d_events := d_events (w_db w) @ [logged input t (Suc (w_seq w))]\<rparr>\<rparr>)"
  by (auto simp: log_from_def log_ok_def sorted_wrt_append le_imp_less_Suc le_SucI)

lemma orderly_appendEvent [orderly_rules]: "orderly (appendEvent ctx input)"
  by (rule orderlyI) (auto simp: appendEvent_result log_from_append log_from_seq split: option.split)

lemma orderly_buildEvent [orderly_rules]: "orderly (buildEvent ctx spec)"
  unfolding buildEvent_def by (intro orderly_rules)

lemma orderly_emit [orderly_rules]: "orderly (emit ctx spec)"
  unfolding emit_def by (intro orderly_rules)

lemma orderly_emit_id [orderly_rules]: "orderly (emit_id ctx spec)"
  unfolding emit_id_def by (intro orderly_rules)

lemma orderly_transaction [orderly_rules]:
  assumes "orderly m" shows "orderly (transaction m)"
proof (rule orderlyI)
  fix n w assume from_n: "log_from n w"
  obtain r w1 where run: "m w = (r, w1)" by fastforce
  have w1: "log_from n w1" "w_seq w \<le> w_seq w1"
    using orderlyD [OF assms from_n] orderly_log_ok [OF assms, of w] run from_n
    by (simp_all add: log_from_def)
  have "log_from n (w1\<lparr>w_db := w_db w\<rparr>)" using from_n w1 by (auto simp: log_from_def log_ok_def)
  then show "log_from n (snd (transaction m w))"
    using run w1(1) by (cases r) (simp_all add: transaction_def)
qed

section \<open>Idempotent writes are exactly once\<close>

lemma orderly_insert_idempotency [orderly_rules]: "orderly (insert_idempotency ctx row)"
  unfolding insert_idempotency_def by (intro orderly_rules)

lemma orderly_runIdempotent [orderly_rules]: "orderly fn \<Longrightarrow> orderly (runIdempotent ctx params fn)"
  unfolding runIdempotent_def by (intro orderly_rules) (auto intro!: orderly_rules split: prod.splits)

lemma bind_sel: "bind (sel table P) f w = f (filter P (table (w_db w))) w"
  by (simp add: bind_def sel_def gets_def)

lemma bind_nowIso: "bind (nowIso ctx) f w = f (cx_now ctx (w_clock w)) (w\<lparr>w_clock := w_clock w + 1\<rparr>)"
  by (simp add: nowIso_def bind_def)

lemma append_loop:
  "for_fold events ids (\<lambda>ids event. bind (appendEvent ctx event) (\<lambda>row. ret (ids @ [ef_id row]))) w = (Inr r, w')
   \<Longrightarrow> r = ids @ map ev_id events
     \<and> (\<exists>rows. d_events (w_db w') = d_events (w_db w) @ rows \<and> map ev_id rows = map ev_id events)"
proof (induction events arbitrary: ids w)
  case Nil
  then show ?case by (simp add: ret_def)
next
  case (Cons e es)
  from Cons.prems obtain row w1 where run: "appendEvent ctx e w = (Inr row, w1)"
    and rest: "for_fold es (ids @ [ef_id row])
        (\<lambda>ids event. bind (appendEvent ctx event) (\<lambda>row. ret (ids @ [ef_id row]))) w1 = (Inr r, w')"
    by (auto simp: bind_Inr ret_def)
  from run obtain t where head: "ef_id row = ev_id e"
    and w1: "d_events (w_db w1) = d_events (w_db w) @ [logged e t (w_seq w + 1)]"
    by (auto simp: appendEvent_result split: option.splits if_splits)
  from Cons.IH [OF rest] obtain rows where
    "r = (ids @ [ef_id row]) @ map ev_id es" "d_events (w_db w') = d_events (w_db w1) @ rows"
    "map ev_id rows = map ev_id es" by blast
  then show ?case using head w1 by (auto intro!: exI [of _ "logged e t (w_seq w + 1) # rows"])
qed

text \<open>The key a call is looked up by, and the outcome of a first call.\<close>

definition same_key :: "idempotent_params \<Rightarrow> idempotency_row \<Rightarrow> bool" where
  "same_key params k \<longleftrightarrow> ik_scope k = ip_scope params \<and> ik_key k = ip_key params"

lemma runIdempotent_found:
  assumes "first (filter (same_key params) (d_idempotency (w_db w))) = Some prior"
  shows "runIdempotent ctx params fn w =
     (if ik_requestHash prior = ip_requestHash params
      then (Inr \<lparr>ir_replayed = True, ir_response = ik_responseJson prior, ir_eventIds = ik_eventIds prior\<rparr>, w)
      else (Inl (Idempotency_conflict (ip_scope params) (ip_key params)), w))"
  using assms
  by (simp add: runIdempotent_def transaction_def bind_sel bind_guard ret_def flip: same_key_def)

lemma runIdempotent_first:
  assumes none: "first (filter (same_key params) (d_idempotency (w_db w))) = None"
    and run: "runIdempotent ctx params fn w = (Inr r, w')"
  obtains response events w1 rows t
  where "fn w = (Inr (response, events), w1)"
    and "r = \<lparr>ir_replayed = False, ir_response = response, ir_eventIds = map ev_id events\<rparr>"
    and "d_events (w_db w') = d_events (w_db w1) @ rows" "map ev_id rows = map ev_id events"
    and "filter (same_key params) (d_idempotency (w_db w')) =
       [\<lparr>ik_scope = ip_scope params, ik_key = ip_key params, ik_requestHash = ip_requestHash params,
         ik_responseJson = response, ik_eventIds = map ev_id events, ik_createdAt = t, ik_expiresAt = None\<rparr>]"
proof -
  from run none obtain response events w1 ids w2 where fn: "fn w = (Inr (response, events), w1)"
    and loop: "for_fold events [] (\<lambda>ids event. bind (appendEvent ctx event) (\<lambda>row. ret (ids @ [ef_id row]))) w1 = (Inr ids, w2)"
    and ins: "insert_idempotency ctx
                  \<lparr>ik_scope = ip_scope params, ik_key = ip_key params, ik_requestHash = ip_requestHash params,
                   ik_responseJson = response, ik_eventIds = ids, ik_createdAt = ip_now params,
                   ik_expiresAt = None\<rparr> w2 = (Inr (), w')"
    and r: "r = \<lparr>ir_replayed = False, ir_response = response, ir_eventIds = ids\<rparr>"
    by (auto simp: runIdempotent_def transaction_ok bind_sel bind_Inr ret_def simp flip: same_key_def)
  from append_loop [OF loop] obtain rows where ids: "ids = map ev_id events"
    and rows: "d_events (w_db w2) = d_events (w_db w1) @ rows" "map ev_id rows = map ev_id events" by auto
  define row where "row t = \<lparr>ik_scope = ip_scope params, ik_key = ip_key params,
      ik_requestHash = ip_requestHash params, ik_responseJson = response, ik_eventIds = ids,
      ik_createdAt = t, ik_expiresAt = None\<rparr>" for t
  from ins obtain t where w': "d_idempotency (w_db w') = d_idempotency (w_db w2) @ [row t]"
      "d_events (w_db w') = d_events (w_db w2)"
    and fresh: "\<forall>k \<in> set (d_idempotency (w_db w2)). \<not> same_key params k"
    by (auto simp: insert_idempotency_def ts_value_def ts_nullable_def bind_def ret_def throw_def
        refuse_if_result in_db_def modify_def same_key_def row_def split: option.splits if_splits)
  have "filter (same_key params) (d_idempotency (w_db w2)) = []"
    using fresh by (simp add: filter_empty_conv)
  then show ?thesis
    using that [of response events w1 rows t] fn r ids rows w' by (simp add: same_key_def row_def)
qed

text \<open>
  Property C26. A write with an idempotency key takes effect once. After a call that returned, any
  later call with the same scope and key, whatever it would do and whatever keys were stored in
  between, changes nothing at all: with the same request hash it returns the first call's response
  and event ids, with another it is a conflict.
\<close>

theorem idempotent_replay:
  assumes "runIdempotent ctx params fn w = (Inr r, w')"
    and "d_idempotency (w_db w'') = d_idempotency (w_db w') @ later"
    and "ip_scope params' = ip_scope params" "ip_key params' = ip_key params"
  shows "runIdempotent ctx' params' fn' w'' =
     (if ip_requestHash params' = ip_requestHash params
      then (Inr \<lparr>ir_replayed = True, ir_response = ir_response r, ir_eventIds = ir_eventIds r\<rparr>, w'')
      else (Inl (Idempotency_conflict (ip_scope params) (ip_key params)), w''))"
proof -
  have "\<exists>k. first (filter (same_key params) (d_idempotency (w_db w'))) = Some k
      \<and> ik_requestHash k = ip_requestHash params \<and> ik_responseJson k = ir_response r \<and> ik_eventIds k = ir_eventIds r"
  proof (cases "first (filter (same_key params) (d_idempotency (w_db w)))")
    case None
    show ?thesis by (rule runIdempotent_first [OF None assms(1)]) simp
  next
    case (Some prior)
    then show ?thesis using assms(1) by (auto simp: runIdempotent_found split: if_splits)
  qed
  then obtain k where k: "first (filter (same_key params) (d_idempotency (w_db w'))) = Some k"
      "ik_requestHash k = ip_requestHash params" "ik_responseJson k = ir_response r" "ik_eventIds k = ir_eventIds r"
    by blast
  have "same_key params' = same_key params" using assms(3,4) by (simp add: same_key_def fun_eq_iff)
  then have "first (filter (same_key params') (d_idempotency (w_db w''))) = Some k"
    using k(1) assms(2) by (cases "filter (same_key params) (d_idempotency (w_db w'))") simp_all
  from runIdempotent_found [OF this, of ctx' fn'] show ?thesis using k assms(3,4) by simp
qed

definition demo_ctx :: server_context where
  "demo_ctx = \<lparr>cx_now = (\<lambda>_. ''2026-06-11T10:00:00.000Z''), cx_ulid = (\<lambda>n. replicate n (CHR ''Z'')),
     cx_organizationId = ''org_1'', cx_actorUserId = ''user_1'', cx_ts = Some, cx_millis = (\<lambda>t. Some (int (length t)))\<rparr>"

definition demo_world :: world where
  "demo_world = \<lparr>w_db = empty_db, w_clock = 0, w_ids = 0, w_seq = 0, w_mseq = 0\<rparr>"

definition demo_params :: idempotent_params where
  "demo_params = \<lparr>ip_scope = ''task:t1'', ip_key = ''k'', ip_requestHash = ''h'', ip_now = ''2026-06-11''\<rparr>"

definition demo_event :: event_input where
  "demo_event = \<lparr>ev_id = ''evt_1'', ev_organizationId = ''org_1'', ev_projectId = None, ev_type = ''task.updated'',
     ev_schemaVersion = EVENT_SCHEMA_VERSION, ev_actorType = Act_user, ev_actorId = ''user_1'',
     ev_taskId = None, ev_roomId = None, ev_runId = None, ev_goalId = None, ev_correlationId = ''t1'',
     ev_idempotencyKey = None, ev_sequence = None, ev_payload = [], ev_occurredAt = ''2026-06-11''\<rparr>"

definition demo_write :: "(json \<times> event_input list) srv" where
  "demo_write = ret (JStr ''ok'', [demo_event])"

lemma demo_run:
  "fst (runIdempotent demo_ctx demo_params demo_write demo_world) =
     Inr \<lparr>ir_replayed = False, ir_response = JStr ''ok'', ir_eventIds = [''evt_1'']\<rparr>"
  by code_simp

lemma idempotent_replay_witness:
  "let w' = snd (runIdempotent demo_ctx demo_params demo_write demo_world)
   in runIdempotent demo_ctx demo_params (throw (Plain_error ''again'')) w' =
        (Inr \<lparr>ir_replayed = True, ir_response = JStr ''ok'', ir_eventIds = [''evt_1'']\<rparr>, w')"
proof -
  let ?run = "runIdempotent demo_ctx demo_params demo_write demo_world"
  have "?run = (Inr \<lparr>ir_replayed = False, ir_response = JStr ''ok'', ir_eventIds = [''evt_1'']\<rparr>, snd ?run)"
    by (rule prod_eqI) (simp_all add: demo_run)
  from idempotent_replay [OF this, of "snd ?run" "[]" demo_params demo_ctx "throw (Plain_error ''again'')"]
  show ?thesis by (simp add: Let_def)
qed

text \<open>
  Property C39. An idempotent write keeps the event log in order and is atomic. If the writer passed
  to it keeps the log's order (positions strictly increasing, ids unique), so does the whole call.
  A call that throws leaves every table as it was; a replay leaves everything as it was; a first
  call appends exactly the events the writer returned, in their order, after what the writer itself
  wrote, and answers with their ids.
\<close>

theorem idempotent_log:
  assumes "orderly fn" "log_ok w" "runIdempotent ctx params fn w = (r, w')"
  shows "log_ok w' \<and> (case r of
      Inl e \<Rightarrow> w_db w' = w_db w
    | Inr res \<Rightarrow>
        (if ir_replayed res then w' = w
         else (\<exists>w1 events rows. fn w = (Inr (ir_response res, events), w1) \<and> ir_eventIds res = map ev_id events
                \<and> d_events (w_db w') = d_events (w_db w1) @ rows \<and> map ev_id rows = map ev_id events)))"
proof (rule conjI)
  show "log_ok w'"
    using orderly_log_ok [OF orderly_runIdempotent [OF assms(1)] assms(2), of ctx params] assms(3) by simp
next
  show "case r of
      Inl e \<Rightarrow> w_db w' = w_db w
    | Inr res \<Rightarrow>
        (if ir_replayed res then w' = w
         else (\<exists>w1 events rows. fn w = (Inr (ir_response res, events), w1) \<and> ir_eventIds res = map ev_id events
                \<and> d_events (w_db w') = d_events (w_db w1) @ rows \<and> map ev_id rows = map ev_id events))"
  proof (cases r)
    case (Inl e)
    then show ?thesis using assms(3) by (auto simp: runIdempotent_def dest: transaction_error)
  next
    case (Inr res)
    show ?thesis
    proof (cases "first (filter (same_key params) (d_idempotency (w_db w)))")
      case None
      show ?thesis
        by (rule runIdempotent_first [OF None assms(3) [unfolded Inr]]) (auto simp: Inr)
    next
      case (Some prior)
      then show ?thesis using assms(3) Inr by (auto simp: runIdempotent_found split: if_splits)
    qed
  qed
qed

lemma idempotent_log_witness:
  "log_ok (snd (runIdempotent demo_ctx demo_params demo_write demo_world))"
proof -
  have "orderly demo_write" by (simp add: demo_write_def orderly_ret)
  moreover have "log_ok demo_world" by (simp add: log_ok_def demo_world_def empty_db_def)
  ultimately show ?thesis
    using idempotent_log [of demo_write demo_world demo_ctx demo_params] surjective_pairing by blast
qed

end
