(* ===== verification/Transition_Service.thy ===== *)
theory Transition_Service
  imports Database
begin

text \<open>
  \<open>apps/server/src/services/transition-service.ts\<close>: the guarded compare-and-set updates by which
  every service moves a task or a run along its state machine.
\<close>

record task_transition_params =
  tp_taskId :: ident
  tp_from :: task_status
  tp_trigger :: task_trigger
  tp_now :: iso_time
  tp_events :: "(task_status \<Rightarrow> event_input list srv) option"

record 'st transition_result =
  tres_changed :: bool
  tres_to :: 'st

text \<open>
  The callers' callbacks return an array literal of \<open>buildEvent\<close> calls, which are evaluated before
  the first event is appended.
\<close>

definition build_all :: "server_context \<Rightarrow> event_spec list \<Rightarrow> event_input list srv" where
  "build_all ctx specs =
     for_fold specs [] (\<lambda>acc spec. bind (buildEvent ctx spec) (\<lambda>e. ret (acc @ [e])))"

text \<open>\<open>update(tasks).set(f).where(P).returning({ id })\<close>, and the same for runs.\<close>

definition update_tasks :: "(task_row \<Rightarrow> bool) \<Rightarrow> (task_row \<Rightarrow> task_row) \<Rightarrow> ident list srv" where
  "update_tasks P f =
     bind (sel d_tasks P) (\<lambda>rows.
     bind (in_db (d_tasks_update (set_rows P f))) (\<lambda>_. ret (map tk_id rows)))"

definition update_runs :: "(run_row \<Rightarrow> bool) \<Rightarrow> (run_row \<Rightarrow> run_row) \<Rightarrow> ident list srv" where
  "update_runs P f =
     bind (sel d_runs P) (\<lambda>rows.
     bind (in_db (d_runs_update (set_rows P f))) (\<lambda>_. ret (map rn_id rows)))"

definition task_matches :: "server_context \<Rightarrow> ident \<Rightarrow> task_status \<Rightarrow> task_row \<Rightarrow> bool" where
  "task_matches ctx i s t \<longleftrightarrow> tk_id t = i \<and> tk_status t = s \<and> tk_organizationId t = cx_organizationId ctx"

definition transitionTask :: "server_context \<Rightarrow> task_transition_params \<Rightarrow> task_status transition_result srv" where
  "transitionTask ctx params =
     bind (lift_sum Transition_error (applyTaskTransition (tp_from params) (tp_trigger params))) (\<lambda>to.
     bind (ts_value ctx (tp_now params)) (\<lambda>now.
     bind (update_tasks (task_matches ctx (tp_taskId params) (tp_from params))
             (\<lambda>t. t\<lparr>tk_status := to, tk_updatedAt := now\<rparr>)) (\<lambda>updated.
     let changed = 0 < length updated in
     bind (case tp_events params of
             None \<Rightarrow> skip
           | Some events \<Rightarrow>
               if changed
               then bind (events to) (\<lambda>es. for_each es (\<lambda>event. bind (appendEvent ctx event) (\<lambda>_. skip)))
               else skip) (\<lambda>_.
     ret \<lparr>tres_changed = changed, tres_to = to\<rparr>))))"

record run_patch =
  rp_endedAt :: "iso_time option"
  rp_startedAt :: "iso_time option"
  rp_failureReason :: "string option"

record run_transition_params =
  rp_runId :: ident
  rp_from :: run_status
  rp_trigger :: run_trigger
  rp_patch :: run_patch

definition no_patch :: run_patch where
  "no_patch = \<lparr>rp_endedAt = None, rp_startedAt = None, rp_failureReason = None\<rparr>"

text \<open>A column the patch leaves out keeps its value.\<close>

definition patched :: "'a option \<Rightarrow> 'a option \<Rightarrow> 'a option" where
  "patched p old = (case p of None \<Rightarrow> old | Some _ \<Rightarrow> p)"

definition run_matches :: "server_context \<Rightarrow> ident \<Rightarrow> run_status \<Rightarrow> run_row \<Rightarrow> bool" where
  "run_matches ctx i s r \<longleftrightarrow> rn_id r = i \<and> rn_status r = s \<and> rn_organizationId r = cx_organizationId ctx"

definition transitionRun :: "server_context \<Rightarrow> run_transition_params \<Rightarrow> run_status transition_result srv" where
  "transitionRun ctx params =
     bind (lift_sum Transition_error (applyRunTransition (rp_from params) (rp_trigger params))) (\<lambda>to.
     bind (ts_nullable ctx (rp_endedAt (rp_patch params))) (\<lambda>ended.
     bind (ts_nullable ctx (rp_startedAt (rp_patch params))) (\<lambda>started.
     bind (update_runs (run_matches ctx (rp_runId params) (rp_from params))
             (\<lambda>r. r\<lparr>rn_status := to, rn_endedAt := patched ended (rn_endedAt r),
                    rn_startedAt := patched started (rn_startedAt r),
                    rn_failureReason := patched (rp_failureReason (rp_patch params)) (rn_failureReason r)\<rparr>)) (\<lambda>updated.
     ret \<lparr>tres_changed = 0 < length updated, tres_to = to\<rparr>))))"

section \<open>What they change\<close>

lemma quiet_build_all [quiet_rules]: "quiet (build_all ctx specs)"
  unfolding build_all_def by (intro quiet_rules)

lemma orderly_build_all [orderly_rules]: "orderly (build_all ctx specs)"
  unfolding build_all_def by (intro orderly_rules)

lemma set_rows_none: "\<forall>r \<in> set rows. \<not> P r \<Longrightarrow> set_rows P f rows = rows"
  by (simp add: set_rows_def map_idI)

lemma update_tasks_run:
  "update_tasks P f w = (Inr (map tk_id (filter P (d_tasks (w_db w)))),
     w\<lparr>w_db := (w_db w)\<lparr>d_tasks := set_rows P f (d_tasks (w_db w))\<rparr>\<rparr>)"
  by (simp add: update_tasks_def sel_def gets_def in_db_def modify_def bind_def ret_def)

lemma update_runs_run:
  "update_runs P f w = (Inr (map rn_id (filter P (d_runs (w_db w)))),
     w\<lparr>w_db := (w_db w)\<lparr>d_runs := set_rows P f (d_runs (w_db w))\<rparr>\<rparr>)"
  by (simp add: update_runs_def sel_def gets_def in_db_def modify_def bind_def ret_def)

lemma world_update_same [simp]: "w\<lparr>w_db := w_db w\<rparr> = w"
  by simp

lemma task_transition_moves: "applyTaskTransition s t = Inr s' \<Longrightarrow> s' \<noteq> s"
proof -
  assume "applyTaskTransition s t = Inr s'"
  then obtain r where "r \<in> set TASK_TRANSITIONS" "tr_from r = s" "tr_to r = s'"
    using task_sm.app_row by blast
  then show ?thesis by (auto simp: task_machine_defs)
qed

lemma run_transition_moves: "applyRunTransition s t = Inr s' \<Longrightarrow> s' \<noteq> s"
proof -
  assume "applyRunTransition s t = Inr s'"
  then obtain r where "r \<in> set RUN_TRANSITIONS" "tr_from r = s" "tr_to r = s'"
    using run_sm.app_row by blast
  then show ?thesis by (auto simp: run_machine_defs)
qed

text \<open>The callback's part of a transition, run only on a change.\<close>

definition transition_events ::
  "server_context \<Rightarrow> task_transition_params \<Rightarrow> task_status \<Rightarrow> bool \<Rightarrow> unit srv" where
  "transition_events ctx params to changed =
     (case tp_events params of
        None \<Rightarrow> skip
      | Some events \<Rightarrow>
          if changed
          then bind (events to) (\<lambda>es. for_each es (\<lambda>event. bind (appendEvent ctx event) (\<lambda>_. skip)))
          else skip)"

lemma transition_events_unchanged [simp]: "transition_events ctx params to False = skip"
  by (simp add: transition_events_def split: option.split)

text \<open>The callbacks of the callers only build events.\<close>

definition logs_only :: "task_transition_params \<Rightarrow> bool" where
  "logs_only params \<longleftrightarrow> (\<forall>f to. tp_events params = Some f \<longrightarrow> quiet (f to))"

lemma quiet_transition_events: "logs_only params \<Longrightarrow> quiet (transition_events ctx params to changed)"
  unfolding transition_events_def by (intro quiet_rules) (simp add: logs_only_def)

lemma transitionTask_result:
  "transitionTask ctx params w =
     (case applyTaskTransition (tp_from params) (tp_trigger params) of
        Inl e \<Rightarrow> (Inl (Transition_error e), w)
      | Inr to \<Rightarrow>
          (case cx_ts ctx (tp_now params) of
             None \<Rightarrow> (Inl (Db_error ''invalid timestamp''), w)
           | Some now \<Rightarrow>
               (let P = task_matches ctx (tp_taskId params) (tp_from params);
                    changed = (filter P (d_tasks (w_db w)) \<noteq> []);
                    w1 = w\<lparr>w_db := (w_db w)\<lparr>d_tasks :=
                      set_rows P (\<lambda>t. t\<lparr>tk_status := to, tk_updatedAt := now\<rparr>) (d_tasks (w_db w))\<rparr>\<rparr>
                in bind (transition_events ctx params to changed)
                     (\<lambda>_. ret \<lparr>tres_changed = changed, tres_to = to\<rparr>) w1)))"
  by (auto simp: transitionTask_def transition_events_def lift_sum_def ts_value_def update_tasks_run
      bind_run Let_def run_basic split: sum.split option.split)

lemma transitionTask_unmatched:
  assumes "\<forall>t \<in> set (d_tasks (w_db w)). \<not> task_matches ctx (tp_taskId params) (tp_from params) t"
  shows "snd (transitionTask ctx params w) = w
    \<and> (\<forall>res. fst (transitionTask ctx params w) = Inr res \<longrightarrow> \<not> tres_changed res)"
  using assms
  by (auto simp: transitionTask_result set_rows_none filter_empty_conv Let_def run_basic
      split: sum.splits option.splits)

lemma transitionTask_tables:
  assumes run: "transitionTask ctx params w = (Inr res, w')"
    and quiet: "logs_only params"
  obtains now where "applyTaskTransition (tp_from params) (tp_trigger params) = Inr (tres_to res)"
    and "cx_ts ctx (tp_now params) = Some now"
    and "tres_changed res \<longleftrightarrow> (\<exists>t \<in> set (d_tasks (w_db w)). task_matches ctx (tp_taskId params) (tp_from params) t)"
    and "core w' = (core w)\<lparr>d_tasks := set_rows (task_matches ctx (tp_taskId params) (tp_from params))
            (\<lambda>t. t\<lparr>tk_status := tres_to res, tk_updatedAt := now\<rparr>) (d_tasks (w_db w))\<rparr>"
    and "\<not> tres_changed res \<Longrightarrow> w' = w"
proof -
  let ?P = "task_matches ctx (tp_taskId params) (tp_from params)"
  let ?changed = "filter ?P (d_tasks (w_db w)) \<noteq> []"
  from run obtain to now where app: "applyTaskTransition (tp_from params) (tp_trigger params) = Inr to"
    and now: "cx_ts ctx (tp_now params) = Some now"
    and rest: "bind (transition_events ctx params to ?changed)
        (\<lambda>_. ret \<lparr>tres_changed = ?changed, tres_to = to\<rparr>)
        (w\<lparr>w_db := (w_db w)\<lparr>d_tasks := set_rows ?P (\<lambda>t. t\<lparr>tk_status := to, tk_updatedAt := now\<rparr>) (d_tasks (w_db w))\<rparr>\<rparr>)
        = (Inr res, w')"
    by (auto simp: transitionTask_result Let_def split: sum.splits option.splits)
  from rest have res: "res = \<lparr>tres_changed = ?changed, tres_to = to\<rparr>"
    by (auto simp: bind_Inr run_basic)
  have "quiet (bind (transition_events ctx params to ?changed) (\<lambda>_. ret \<lparr>tres_changed = ?changed, tres_to = to\<rparr>))"
    by (intro quiet_rules quiet_transition_events [OF quiet])
  from quiet_run [OF this rest]
  have "core w' = (core w)\<lparr>d_tasks := set_rows ?P (\<lambda>t. t\<lparr>tk_status := to, tk_updatedAt := now\<rparr>) (d_tasks (w_db w))\<rparr>"
    by (simp add: core_def)
  moreover have "w' = w" if "\<not> ?changed"
    using rest that by (simp add: run_basic set_rows_none filter_empty_conv)
  ultimately show ?thesis
    using that [of now] app now res by (auto simp: filter_empty_conv)
qed


definition demo_task :: "ident \<Rightarrow> task_status \<Rightarrow> task_row" where
  "demo_task i s = \<lparr>tk_id = i, tk_organizationId = ''org_1'', tk_projectId = ''proj_1'', tk_parentTaskId = None,
     tk_executionPolicyTaskId = None, tk_roomId = None, tk_goalId = None, tk_sourcePlanId = None,
     tk_sourcePlanSpecRef = None, tk_title = i, tk_description = '''', tk_status = s, tk_priority = P2,
     tk_assigneeType = None, tk_assigneeId = None, tk_requiredCapabilities = [],
     tk_preferredModelProfileId = None, tk_preferredEffort = None, tk_acceptanceCriteria = [''works''],
     tk_createdByType = By_user, tk_createdById = ''user_1'', tk_createdAt = ''2026-06-11'',
     tk_updatedAt = ''2026-06-11''\<rparr>"

definition demo_tasks_world :: world where
  "demo_tasks_world = demo_world\<lparr>w_db := empty_db\<lparr>d_tasks :=
     [demo_task ''t1'' TS_backlog, demo_task ''t2'' TS_done]\<rparr>\<rparr>"

definition demo_triage :: task_transition_params where
  "demo_triage = \<lparr>tp_taskId = ''t1'', tp_from = TS_backlog, tp_trigger = TT_triage, tp_now = ''2026-06-12'',
     tp_events = Some (\<lambda>_. build_all demo_ctx [event_of ''task.updated'' Act_system ''control_plane'' ''t1''])\<rparr>"

lemma demo_triage_run:
  "fst (transitionTask demo_ctx demo_triage demo_tasks_world) = Inr \<lparr>tres_changed = True, tres_to = TS_ready\<rparr>"
  by code_simp


text \<open>The same for runs.\<close>

lemma transitionRun_result:
  "transitionRun ctx params w =
     (case applyRunTransition (rp_from params) (rp_trigger params) of
        Inl e \<Rightarrow> (Inl (Transition_error e), w)
      | Inr to \<Rightarrow>
          bind (ts_nullable ctx (rp_endedAt (rp_patch params))) (\<lambda>ended.
          bind (ts_nullable ctx (rp_startedAt (rp_patch params))) (\<lambda>started.
          bind (update_runs (run_matches ctx (rp_runId params) (rp_from params))
             (\<lambda>r. r\<lparr>rn_status := to, rn_endedAt := patched ended (rn_endedAt r),
                    rn_startedAt := patched started (rn_startedAt r),
                    rn_failureReason := patched (rp_failureReason (rp_patch params)) (rn_failureReason r)\<rparr>)) (\<lambda>updated.
          ret \<lparr>tres_changed = 0 < length updated, tres_to = to\<rparr>))) w)"
  by (simp add: transitionRun_def lift_sum_def run_basic split: sum.split)

lemma transitionRun_tables:
  assumes "transitionRun ctx params w = (Inr res, w')"
  obtains f where "applyRunTransition (rp_from params) (rp_trigger params) = Inr (tres_to res)"
    and "\<And>r. rn_status (f r) = tres_to res" "\<And>r. rn_id (f r) = rn_id r"
    and "w' = w\<lparr>w_db := (w_db w)\<lparr>d_runs := set_rows (run_matches ctx (rp_runId params) (rp_from params)) f (d_runs (w_db w))\<rparr>\<rparr>"
    and "tres_changed res \<longleftrightarrow> (\<exists>r \<in> set (d_runs (w_db w)). run_matches ctx (rp_runId params) (rp_from params) r)"
proof -
  from assms obtain to ended started where app: "applyRunTransition (rp_from params) (rp_trigger params) = Inr to"
    and rest: "bind (update_runs (run_matches ctx (rp_runId params) (rp_from params))
             (\<lambda>r. r\<lparr>rn_status := to, rn_endedAt := patched ended (rn_endedAt r),
                    rn_startedAt := patched started (rn_startedAt r),
                    rn_failureReason := patched (rp_failureReason (rp_patch params)) (rn_failureReason r)\<rparr>)) (\<lambda>updated.
          ret \<lparr>tres_changed = 0 < length updated, tres_to = to\<rparr>) w = (Inr res, w')"
    by (auto simp: transitionRun_result bind_Inr ts_nullable_result split: sum.splits option.splits)
  then have "res = \<lparr>tres_changed = filter (run_matches ctx (rp_runId params) (rp_from params)) (d_runs (w_db w)) \<noteq> [], tres_to = to\<rparr>"
    and "w' = w\<lparr>w_db := (w_db w)\<lparr>d_runs := set_rows (run_matches ctx (rp_runId params) (rp_from params))
        (\<lambda>r. r\<lparr>rn_status := to, rn_endedAt := patched ended (rn_endedAt r),
                    rn_startedAt := patched started (rn_startedAt r),
                    rn_failureReason := patched (rp_failureReason (rp_patch params)) (rn_failureReason r)\<rparr>) (d_runs (w_db w))\<rparr>\<rparr>"
    by (auto simp: update_runs_run bind_Inr run_basic)
  then show ?thesis
    using app by (intro that [of "\<lambda>r. r\<lparr>rn_status := to, rn_endedAt := patched ended (rn_endedAt r),
                    rn_startedAt := patched started (rn_startedAt r),
                    rn_failureReason := patched (rp_failureReason (rp_patch params)) (rn_failureReason r)\<rparr>"])
      (auto simp: filter_empty_conv)
qed

section \<open>Competing requests\<close>

lemma no_match_after:
  assumes "\<And>t. P (f t) \<longleftrightarrow> False"
  shows "\<forall>t \<in> set (set_rows P f rows). \<not> P t"
  using assms by (auto simp: set_rows_def)

text \<open>
  Property C11. Of any two requests that read the same status of a task, at most one takes effect:
  once a transition out of a status has changed the row, any later transition of that task out of
  the same status, whatever its trigger and its events and whatever else was done in between without
  touching the tasks, finds no row, changes nothing and writes no event.
\<close>

theorem one_transition_wins:
  assumes "transitionTask ctx p w = (Inr res, w1)" "logs_only p"
    and "d_tasks (w_db w2) = d_tasks (w_db w1)"
    and "tp_taskId p' = tp_taskId p" "tp_from p' = tp_from p"
  shows "snd (transitionTask ctx p' w2) = w2
    \<and> (case fst (transitionTask ctx p' w2) of Inl _ \<Rightarrow> True | Inr res' \<Rightarrow> tres_changed res' = False)"
proof -
  obtain now where app: "applyTaskTransition (tp_from p) (tp_trigger p) = Inr (tres_to res)"
    and w1: "core w1 = (core w)\<lparr>d_tasks := set_rows (task_matches ctx (tp_taskId p) (tp_from p))
            (\<lambda>t. t\<lparr>tk_status := tres_to res, tk_updatedAt := now\<rparr>) (d_tasks (w_db w))\<rparr>"
    by (rule transitionTask_tables [OF assms(1,2)])
  have "\<forall>t \<in> set (d_tasks (core w1)). \<not> task_matches ctx (tp_taskId p) (tp_from p) t"
    unfolding w1 using task_transition_moves [OF app]
    by (auto intro!: no_match_after simp: set_rows_def task_matches_def)
  then have "\<forall>t \<in> set (d_tasks (w_db w2)). \<not> task_matches ctx (tp_taskId p') (tp_from p') t"
    using assms(3-5) by simp
  from transitionTask_unmatched [OF this] show ?thesis by (auto split: sum.splits)
qed

lemma one_transition_wins_witness:
  "let w1 = snd (transitionTask demo_ctx demo_triage demo_tasks_world)
   in snd (transitionTask demo_ctx (demo_triage\<lparr>tp_trigger := TT_cancel\<rparr>) w1) = w1"
proof -
  have run: "transitionTask demo_ctx demo_triage demo_tasks_world
      = (Inr \<lparr>tres_changed = True, tres_to = TS_ready\<rparr>, snd (transitionTask demo_ctx demo_triage demo_tasks_world))"
    by (rule prod_eqI) (simp_all add: demo_triage_run)
  have quiet: "logs_only demo_triage" by (auto simp: logs_only_def demo_triage_def quiet_rules)
  from one_transition_wins [OF run quiet refl, of "demo_triage\<lparr>tp_trigger := TT_cancel\<rparr>"]
  show ?thesis by (simp add: Let_def)
qed

lemma one_run_transition_wins:
  assumes "transitionRun ctx q v = (Inr res, v1)"
    and "rp_runId q' = rp_runId q" "rp_from q' = rp_from q" "d_runs (w_db v2) = d_runs (w_db v1)"
  shows "snd (transitionRun ctx q' v2) = v2
    \<and> (case fst (transitionRun ctx q' v2) of Inl _ \<Rightarrow> True | Inr res' \<Rightarrow> tres_changed res' = False)"
proof -
  obtain f where app: "applyRunTransition (rp_from q) (rp_trigger q) = Inr (tres_to res)"
    and f: "\<And>r. rn_status (f r) = tres_to res"
    and v1: "v1 = v\<lparr>w_db := (w_db v)\<lparr>d_runs := set_rows (run_matches ctx (rp_runId q) (rp_from q)) f (d_runs (w_db v))\<rparr>\<rparr>"
    by (rule transitionRun_tables [OF assms(1)]) (rule that)
  have "\<forall>r \<in> set (d_runs (w_db v2)). \<not> run_matches ctx (rp_runId q') (rp_from q') r"
    using run_transition_moves [OF app] f assms(2-4) by (auto simp: v1 set_rows_def run_matches_def)
  then show ?thesis
    by (auto simp: transitionRun_result bind_def ts_nullable_result update_runs_run run_basic set_rows_none
        filter_empty_conv split: sum.splits option.splits)
qed

lemma orderly_update_tasks [orderly_rules]: "orderly (update_tasks P f)"
  unfolding update_tasks_def by (intro orderly_rules)

lemma orderly_update_runs [orderly_rules]: "orderly (update_runs P f)"
  unfolding update_runs_def by (intro orderly_rules)

lemma orderly_transitionRun [orderly_rules]: "orderly (transitionRun ctx params)"
  unfolding transitionRun_def by (intro orderly_rules)

end
