(* ===== verification/Lease_Service.thy ===== *)
theory Lease_Service
  imports Database
begin

text \<open>
  \<open>apps/server/src/services/lease-service.ts\<close>: acquiring, releasing, listing and expiring file
  leases, and the leases reserved for a run's write paths. The invariant is that the held leases of
  a project never conflict, unless they belong to one run.
\<close>

section \<open>Requests and answers\<close>

record acquire_lease_request =
  rq_task_id :: ident
  rq_run_id :: "ident option"
  rq_path :: string
  rq_mode :: lease_mode
  rq_holder_type :: "lease_holder_type option"
  rq_holder_id :: "ident option"
  rq_expires_at :: "iso_time option"

text \<open>What \<open>superRefine\<close> adds: the holder is given completely or not at all.\<close>

definition valid_acquire_request :: "acquire_lease_request \<Rightarrow> bool" where
  "valid_acquire_request req \<longleftrightarrow> (rq_holder_type req = None) = (rq_holder_id req = None)"

record file_lease =
  le_id :: ident
  le_organization_id :: ident
  le_project_id :: ident
  le_task_id :: ident
  le_run_id :: "ident option"
  le_holder_type :: lease_holder_type
  le_holder_id :: ident
  le_path :: string
  le_mode :: lease_mode
  le_status :: lease_status
  le_acquired_at :: iso_time
  le_expires_at :: "iso_time option"
  le_released_at :: "iso_time option"
  le_created_at :: iso_time

definition mapFileLease :: "lease_row \<Rightarrow> file_lease" where
  "mapFileLease row = \<lparr>le_id = fl_id row, le_organization_id = fl_organizationId row,
     le_project_id = fl_projectId row, le_task_id = fl_taskId row, le_run_id = fl_runId row,
     le_holder_type = fl_holderType row, le_holder_id = fl_holderId row, le_path = fl_path row,
     le_mode = fl_mode row, le_status = fl_status row, le_acquired_at = fl_acquiredAt row,
     le_expires_at = fl_expiresAt row, le_released_at = fl_releasedAt row, le_created_at = fl_createdAt row\<rparr>"

fun lease_mode_text :: "lease_mode \<Rightarrow> string" where
  "lease_mode_text LM_read = ''read''"
| "lease_mode_text LM_write = ''write''"

fun holder_type_text :: "lease_holder_type \<Rightarrow> string" where
  "holder_type_text LH_run = ''run''"
| "holder_type_text LH_task = ''task''"
| "holder_type_text LH_agent = ''agent''"
| "holder_type_text LH_system = ''system''"

definition LEASE_PATH_ROOT :: string where
  "LEASE_PATH_ROOT = ''''"

definition scope_of :: "lease_row \<Rightarrow> lease_scope" where
  "scope_of l = \<lparr>ls_path = fl_path l, ls_mode = fl_mode l\<rparr>"

section \<open>Expiry\<close>

text \<open>\<open>lease.expiresAt === null || lease.expiresAt > nowIso\<close>, a comparison of texts.\<close>

definition unexpired :: "lease_row \<Rightarrow> iso_time \<Rightarrow> bool" where
  "unexpired lease now = (case fl_expiresAt lease of None \<Rightarrow> True | Some e \<Rightarrow> now < e)"

definition isActive :: "lease_row \<Rightarrow> iso_time \<Rightarrow> bool" where
  "isActive lease now = (if fl_status lease \<noteq> LS_held then False else unexpired lease now)"

definition update_leases :: "(lease_row \<Rightarrow> bool) \<Rightarrow> (lease_row \<Rightarrow> lease_row) \<Rightarrow> unit srv" where
  "update_leases P f = in_db (d_leases_update (set_rows P f))"

text \<open>The event literals of this service: the envelope and payload all name the lease.\<close>

definition lease_event :: "string \<Rightarrow> lease_row \<Rightarrow> event_spec" where
  "lease_event ty l =
     (event_of ty Act_system ''control_plane'' (fl_taskId l))\<lparr>
       es_projectId := Some (fl_projectId l), es_taskId := Some (fl_taskId l), es_runId := fl_runId l,
       es_payload := [(''lease_id'', JStr (fl_id l)), (''project_id'', JStr (fl_projectId l)),
         (''task_id'', JStr (fl_taskId l)), (''run_id'', jopt (fl_runId l)), (''path'', JStr (fl_path l)),
         (''mode'', JStr (lease_mode_text (fl_mode l))),
         (''holder_type'', JStr (holder_type_text (fl_holderType l))),
         (''holder_id'', JStr (fl_holderId l))]\<rparr>"

definition expireStaleLeases :: "server_context \<Rightarrow> lease_row list \<Rightarrow> iso_time \<Rightarrow> unit srv" where
  "expireStaleLeases ctx leases now =
     for_each leases (\<lambda>lease.
       if fl_status lease \<noteq> LS_held \<or> unexpired lease now then skip
       else bind (update_leases (\<lambda>l. fl_id l = fl_id lease) (\<lambda>l. l\<lparr>fl_status := LS_expired\<rparr>)) (\<lambda>_.
            emit ctx (lease_event ''lease.expired'' lease)))"

section \<open>Acquiring\<close>

definition held_in :: "server_context \<Rightarrow> ident \<Rightarrow> lease_row \<Rightarrow> bool" where
  "held_in ctx projectId l \<longleftrightarrow>
     fl_organizationId l = cx_organizationId ctx \<and> fl_projectId l = projectId \<and> fl_status l = LS_held"

definition conflict_details :: "string \<Rightarrow> lease_row \<Rightarrow> json_object" where
  "conflict_details path l =
     [(''path'', JStr path), (''conflicting_lease_id'', JStr (fl_id l)), (''conflicting_path'', JStr (fl_path l)),
      (''conflicting_mode'', JStr (lease_mode_text (fl_mode l))), (''conflicting_holder_id'', JStr (fl_holderId l))]"

text \<open>The row a grant inserts; \<open>None\<close> is the absent expiry and release.\<close>

definition new_lease ::
  "server_context \<Rightarrow> ident \<Rightarrow> ident \<Rightarrow> ident \<Rightarrow> ident option \<Rightarrow> lease_holder_type \<Rightarrow> ident \<Rightarrow> string \<Rightarrow> lease_mode
     \<Rightarrow> iso_time \<Rightarrow> iso_time option \<Rightarrow> lease_row" where
  "new_lease ctx i projectId taskId runId holderType holderId path mode now expiresAt =
     \<lparr>fl_id = i, fl_organizationId = cx_organizationId ctx, fl_projectId = projectId, fl_taskId = taskId,
      fl_runId = runId, fl_holderType = holderType, fl_holderId = holderId, fl_path = path, fl_mode = mode,
      fl_status = LS_held, fl_acquiredAt = now, fl_expiresAt = expiresAt, fl_releasedAt = None,
      fl_createdAt = now\<rparr>"

text \<open>The part of \<open>acquireLease\<close> after the task is found and the path is normalized.\<close>

definition grant_lease ::
  "server_context \<Rightarrow> acquire_lease_request \<Rightarrow> iso_time \<Rightarrow> ident \<Rightarrow> string \<Rightarrow> file_lease srv" where
  "grant_lease ctx req now projectId path =
     (let mode = rq_mode req;
          holderType = (case rq_holder_type req of
              Some h \<Rightarrow> h | None \<Rightarrow> if rq_run_id req \<noteq> None then LH_run else LH_task);
          holderId = (case rq_holder_id req of
              Some h \<Rightarrow> h | None \<Rightarrow> (case rq_run_id req of Some r \<Rightarrow> r | None \<Rightarrow> rq_task_id req))
      in
      bind (sel d_leases (held_in ctx projectId)) (\<lambda>projectLeases.
      bind (expireStaleLeases ctx projectLeases now) (\<lambda>_.
      let active = filter (\<lambda>l. isActive l now) projectLeases in
      case find (\<lambda>l. fl_taskId l = rq_task_id req \<and> fl_runId l = rq_run_id req \<and> fl_holderType l = holderType
                  \<and> fl_holderId l = holderId \<and> fl_path l = path \<and> fl_mode l = mode) active of
        Some existing \<Rightarrow> ret (mapFileLease existing)
      | None \<Rightarrow>
          (case find (\<lambda>l. leasesConflict \<lparr>ls_path = path, ls_mode = mode\<rparr> (scope_of l)) active of
             Some conflicting \<Rightarrow>
               throw (conflict_error ''file lease conflict''
                 ((''path'', JStr path) # (''mode'', JStr (lease_mode_text mode)) # tl (conflict_details path conflicting)))
           | None \<Rightarrow>
               bind (generate ctx IP_lease) (\<lambda>i.
               let row = new_lease ctx i projectId (rq_task_id req) (rq_run_id req) holderType holderId path mode
                           now (rq_expires_at req) in
               bind (insert_lease ctx row) (\<lambda>_.
               bind (emit ctx (lease_event ''lease.acquired'' row)) (\<lambda>_.
               bind (sel d_leases (\<lambda>l. fl_id l = i)) (\<lambda>rows.
               case first rows of
                 None \<Rightarrow> throw (Plain_error ''acquireLease: row missing after insert'')
               | Some inserted \<Rightarrow> ret (mapFileLease inserted)))))))))"

definition acquireLease :: "server_context \<Rightarrow> acquire_lease_request \<Rightarrow> file_lease srv" where
  "acquireLease ctx req =
     bind (nowIso ctx) (\<lambda>now.
     transaction (
       bind (sel d_tasks (\<lambda>t. tk_id t = rq_task_id req \<and> tk_organizationId t = cx_organizationId ctx)) (\<lambda>found.
       case first found of
         None \<Rightarrow> throw (notFound (''task not found: '' @ rq_task_id req) [(''task_id'', JStr (rq_task_id req))])
       | Some task \<Rightarrow>
           (case normalizeLeasePath LEASE_PATH_ROOT (rq_path req) of
              Inl reason \<Rightarrow> throw (validation (''invalid lease path: '' @ reason) [(''path'', JStr (rq_path req))])
            | Inr path \<Rightarrow> grant_lease ctx req now (tk_projectId task) path))))"

section \<open>Releasing and listing\<close>

definition release_row :: "server_context \<Rightarrow> iso_time \<Rightarrow> lease_row \<Rightarrow> unit srv" where
  "release_row ctx now lease =
     bind (ts_value ctx now) (\<lambda>released.
     bind (update_leases (\<lambda>l. fl_id l = fl_id lease)
             (\<lambda>l. l\<lparr>fl_status := LS_released, fl_releasedAt := Some released\<rparr>)) (\<lambda>_.
     emit ctx (lease_event ''lease.released'' lease)))"

definition releaseLease :: "server_context \<Rightarrow> ident \<Rightarrow> file_lease srv" where
  "releaseLease ctx leaseId =
     bind (nowIso ctx) (\<lambda>now.
     transaction (
       bind (sel d_leases (\<lambda>l. fl_id l = leaseId \<and> fl_organizationId l = cx_organizationId ctx)) (\<lambda>found.
       case first found of
         None \<Rightarrow> throw (notFound (''lease not found: '' @ leaseId) [(''lease_id'', JStr leaseId)])
       | Some lease \<Rightarrow>
           bind (if fl_status lease = LS_held then release_row ctx now lease else skip) (\<lambda>_.
           bind (sel d_leases (\<lambda>l. fl_id l = leaseId)) (\<lambda>rows.
           case first rows of
             None \<Rightarrow> throw (Plain_error ''releaseLease: row missing after update'')
           | Some row \<Rightarrow> ret (mapFileLease row))))))"

definition listLeases :: "server_context \<Rightarrow> ident \<Rightarrow> lease_status option \<Rightarrow> file_lease list srv" where
  "listLeases ctx projectId status =
     transaction (
       bind (sel d_leases (\<lambda>l. fl_organizationId l = cx_organizationId ctx \<and> fl_projectId l = projectId)) (\<lambda>projectLeases.
       bind (nowIso ctx) (\<lambda>now.
       bind (expireStaleLeases ctx projectLeases now) (\<lambda>_.
       bind (sel d_leases (\<lambda>l. fl_organizationId l = cx_organizationId ctx \<and> fl_projectId l = projectId
               \<and> (case status of None \<Rightarrow> True | Some s \<Rightarrow> fl_status l = s))) (\<lambda>rows.
       ret (map mapFileLease rows))))))"

section \<open>A run's write leases\<close>

record reserve_params =
  rv_taskId :: ident
  rv_runId :: ident
  rv_projectId :: ident
  rv_paths :: "string list"

definition write_keys :: "string list \<Rightarrow> string list srv" where
  "write_keys paths =
     for_fold paths [] (\<lambda>keys raw.
       case normalizeLeasePath LEASE_PATH_ROOT raw of
         Inl reason \<Rightarrow> throw (validation (''invalid write path: '' @ reason) [(''path'', JStr raw)])
       | Inr path \<Rightarrow> ret (if List.member keys path then keys else keys @ [path]))"

definition ownedByRun :: "ident \<Rightarrow> lease_row \<Rightarrow> bool" where
  "ownedByRun runId l \<longleftrightarrow> fl_holderType l = LH_run \<and> fl_holderId l = runId"

definition reserve_path ::
  "server_context \<Rightarrow> reserve_params \<Rightarrow> iso_time \<Rightarrow> lease_row list \<times> ident list \<Rightarrow> string \<Rightarrow> (lease_row list \<times> ident list) srv" where
  "reserve_path ctx params now acc path =
     (case acc of (active, reserved) \<Rightarrow>
       (case find (\<lambda>l. ownedByRun (rv_runId params) l \<and> fl_path l = path \<and> fl_mode l = LM_write) active of
          Some existing \<Rightarrow> ret (active, reserved @ [fl_id existing])
        | None \<Rightarrow>
            (case find (\<lambda>l. \<not> ownedByRun (rv_runId params) l
                        \<and> leasesConflict \<lparr>ls_path = path, ls_mode = LM_write\<rparr> (scope_of l)) active of
               Some conflicting \<Rightarrow>
                 throw (conflict_error ''file lease conflict on write_paths'' (conflict_details path conflicting))
             | None \<Rightarrow>
                 bind (generate ctx IP_lease) (\<lambda>i.
                 let row = new_lease ctx i (rv_projectId params) (rv_taskId params) (Some (rv_runId params))
                             LH_run (rv_runId params) path LM_write now None in
                 bind (insert_lease ctx row) (\<lambda>_.
                 bind (emit ctx (lease_event ''lease.acquired'' row)) (\<lambda>_.
                 ret (active @ [row], reserved @ [i])))))))"

definition reserveRunLeases :: "server_context \<Rightarrow> reserve_params \<Rightarrow> ident list srv" where
  "reserveRunLeases ctx params =
     (if length (rv_paths params) = 0 then ret []
      else
        bind (nowIso ctx) (\<lambda>now.
        bind (write_keys (rv_paths params)) (\<lambda>keys.
        bind (sel d_leases (held_in ctx (rv_projectId params))) (\<lambda>projectLeases.
        bind (expireStaleLeases ctx projectLeases now) (\<lambda>_.
        bind (for_fold keys (filter (\<lambda>l. isActive l now) projectLeases, []) (reserve_path ctx params now)) (\<lambda>result.
        ret (snd result)))))))"

definition releaseRunLeases :: "server_context \<Rightarrow> ident \<Rightarrow> unit srv" where
  "releaseRunLeases ctx runId =
     bind (nowIso ctx) (\<lambda>now.
     bind (sel d_leases (\<lambda>l. fl_organizationId l = cx_organizationId ctx \<and> fl_holderType l = LH_run
             \<and> fl_holderId l = runId \<and> fl_status l = LS_held)) (\<lambda>held.
     for_each held (release_row ctx now)))"

section \<open>Exclusiveness\<close>

text \<open>Two rows that may not both be held: the leases of one run do not exclude each other.\<close>

definition rows_conflict :: "lease_row \<Rightarrow> lease_row \<Rightarrow> bool" where
  "rows_conflict a b \<longleftrightarrow>
     fl_status a = LS_held \<and> fl_status b = LS_held \<and> fl_organizationId a = fl_organizationId b
     \<and> fl_projectId a = fl_projectId b
     \<and> \<not> (fl_holderType a = LH_run \<and> fl_holderType b = LH_run \<and> fl_holderId a = fl_holderId b)
     \<and> leasesConflict (scope_of a) (scope_of b)"

lemma rows_conflict_sym: "rows_conflict a b \<longleftrightarrow> rows_conflict b a"
  using leasesConflict_sym [of "scope_of a" "scope_of b"] by (auto simp: rows_conflict_def)

interpretation lease_rows: conflict_gate rows_conflict
  by unfold_locales (rule rows_conflict_sym)

definition leases_ok :: "database \<Rightarrow> bool" where
  "leases_ok db \<longleftrightarrow> lease_rows.exclusive (d_leases db)"

lemma exclusive_map:
  assumes "\<And>x y. rows_conflict (f x) (f y) \<Longrightarrow> rows_conflict x y"
    and "lease_rows.exclusive rows"
  shows "lease_rows.exclusive (map f rows)"
  using assms(2) unfolding lease_rows.exclusive_def sorted_wrt_map
  by (rule sorted_wrt_mono_rel [rotated]) (meson assms(1))

text \<open>A row taken out of \<open>held\<close> conflicts with nothing.\<close>

lemma exclusive_retire:
  assumes "\<And>l. fl_status (f l) \<noteq> LS_held" and "lease_rows.exclusive rows"
  shows "lease_rows.exclusive (set_rows P f rows)"
  using assms(2) unfolding set_rows_def
  by (rule exclusive_map [rotated]) (auto simp: rows_conflict_def assms(1) split: if_splits)

lemma update_leases_run:
  "update_leases P f w = (Inr (), w\<lparr>w_db := d_leases_update (set_rows P f) (w_db w)\<rparr>)"
  by (simp add: update_leases_def in_db_def modify_def)

lemma core_leases [simp]: "core (w\<lparr>w_db := d_leases_update f (w_db w)\<rparr>) = (core w)\<lparr>d_leases := f (d_leases (core w))\<rparr>"
  by (simp add: core_def)

abbreviation leases_inv :: "world \<Rightarrow> bool" where
  "leases_inv w \<equiv> leases_ok (core w)"

lemma quiet_leases [keeps_rules]: "quiet m \<Longrightarrow> keeps leases_inv m"
  by (rule quiet_keeps)

lemma keeps_update_leases:
  assumes "\<And>l. fl_status (f l) \<noteq> LS_held"
  shows "keeps leases_inv (update_leases P f)"
  by (rule keepsI) (simp add: update_leases_run leases_ok_def exclusive_retire [OF assms])

lemma keeps_expire: "keeps leases_inv (expireStaleLeases ctx leases now)"
  unfolding expireStaleLeases_def
  by (intro keeps_for_each keeps_if keeps_bind keeps_skip keeps_update_leases quiet_leases quiet_emit) simp

lemma keeps_release_row: "keeps leases_inv (release_row ctx now lease)"
  unfolding release_row_def
  by (intro keeps_bind keeps_update_leases quiet_leases quiet_emit quiet_ts_value) simp

lemma keeps_releaseLease: "keeps leases_inv (releaseLease ctx leaseId)"
  unfolding releaseLease_def
  by (intro keeps_bind keeps_transaction keeps_option keeps_if keeps_release_row quiet_leases quiet_rules)

lemma keeps_listLeases: "keeps leases_inv (listLeases ctx projectId status)"
  unfolding listLeases_def
  by (intro keeps_bind keeps_transaction keeps_expire quiet_leases quiet_rules)

lemma keeps_releaseRunLeases: "keeps leases_inv (releaseRunLeases ctx runId)"
  unfolding releaseRunLeases_def
  by (intro keeps_bind keeps_for_each keeps_release_row quiet_leases quiet_rules)

section \<open>After expiry, what is held is active\<close>

lemma expire_result:
  assumes "expireStaleLeases ctx leases now w = (Inr u, w')"
  shows "d_leases (core w') = map (\<lambda>l.
      if \<exists>s \<in> set leases. fl_id s = fl_id l \<and> fl_status s = LS_held \<and> \<not> unexpired s now
      then l\<lparr>fl_status := LS_expired\<rparr> else l) (d_leases (core w))"
  using assms
proof (induction leases arbitrary: w)
  case Nil
  then show ?case by (simp add: expireStaleLeases_def run_basic)
next
  case (Cons s leases)
  let ?stale = "fl_status s = LS_held \<and> \<not> unexpired s now"
  from Cons.prems obtain w1 where rest: "expireStaleLeases ctx leases now w1 = (Inr u, w')"
    and core: "core w1 = (if ?stale
        then (core w)\<lparr>d_leases := set_rows (\<lambda>l. fl_id l = fl_id s) (\<lambda>l. l\<lparr>fl_status := LS_expired\<rparr>) (d_leases (core w))\<rparr>
        else core w)"
    by (cases ?stale)
       (auto simp: expireStaleLeases_def bind_Inr run_basic update_leases_run dest!: quiet_run [OF quiet_emit])
  from arg_cong [OF core, of d_leases] show ?case
    unfolding Cons.IH [OF rest] by (auto simp: set_rows_def)
qed

lemma triple_expire:
  "triple (\<lambda>w. leases_inv w \<and> rows = filter (held_in ctx projectId) (d_leases (core w)))
     (expireStaleLeases ctx rows now)
     (\<lambda>_ w. leases_inv w \<and> (\<forall>h \<in> set (d_leases (core w)).
         held_in ctx projectId h \<longrightarrow> h \<in> set (filter (\<lambda>l. isActive l now) rows)))
     (\<lambda>_ w. leases_inv w)"
proof (rule tripleI)
  fix w u w' assume pre: "leases_inv w \<and> rows = filter (held_in ctx projectId) (d_leases (core w))"
    and run: "expireStaleLeases ctx rows now w = (Inr u, w')"
  have "leases_inv w'" using keepsD [OF keeps_expire, of w ctx rows now] pre run by simp
  moreover have "h \<in> set (filter (\<lambda>l. isActive l now) rows)"
    if "h \<in> set (d_leases (core w'))" "held_in ctx projectId h" for h
  proof -
    from that(1) obtain l where l: "l \<in> set (d_leases (core w))"
      and h: "h = (if \<exists>s \<in> set rows. fl_id s = fl_id l \<and> fl_status s = LS_held \<and> \<not> unexpired s now
        then l\<lparr>fl_status := LS_expired\<rparr> else l)"
      unfolding expire_result [OF run] set_map by (elim imageE) blast
    have fresh: "\<not> (\<exists>s \<in> set rows. fl_id s = fl_id l \<and> fl_status s = LS_held \<and> \<not> unexpired s now)"
    proof
      assume "\<exists>s \<in> set rows. fl_id s = fl_id l \<and> fl_status s = LS_held \<and> \<not> unexpired s now"
      with h have "fl_status h = LS_expired" by simp
      with that(2) show False by (simp add: held_in_def)
    qed
    then have "h = l" using h by (simp only: if_False)
    then have "h \<in> set rows" using l that(2) pre by simp
    moreover have "isActive h now"
      using fresh \<open>h \<in> set rows\<close> \<open>h = l\<close> that(2) by (auto simp: isActive_def held_in_def)
    ultimately show ?thesis by simp
  qed
  ultimately show "leases_inv w' \<and> (\<forall>h \<in> set (d_leases (core w')).
      held_in ctx projectId h \<longrightarrow> h \<in> set (filter (\<lambda>l. isActive l now) rows))" by blast
next
  fix w e w' assume "leases_inv w \<and> rows = filter (held_in ctx projectId) (d_leases (core w))"
    and "expireStaleLeases ctx rows now w = (Inl e, w')"
  then show "leases_inv w'" using keepsD [OF keeps_expire, of w ctx rows now] by simp
qed

section \<open>Granting\<close>

lemma insert_lease_ok:
  assumes "insert_lease ctx row w = (Inr u, w')"
  obtains a e t c where "core w' = (core w)\<lparr>d_leases := d_leases (core w) @
          [row\<lparr>fl_acquiredAt := a, fl_expiresAt := e, fl_releasedAt := t, fl_createdAt := c\<rparr>]\<rparr>"
proof -
  from assms obtain a e t c where "w' = w\<lparr>w_db := d_leases_update (\<lambda>rows. rows @
          [row\<lparr>fl_acquiredAt := a, fl_expiresAt := e, fl_releasedAt := t, fl_createdAt := c\<rparr>]) (w_db w)\<rparr>"
    by (auto simp: insert_lease_def bind_Inr ts_value_result ts_nullable_result refuse_if_result in_db_def
        modify_def split: option.splits if_splits)
  then show ?thesis using that by simp
qed

lemma insert_lease_fails: "insert_lease ctx row w = (Inl err, w') \<Longrightarrow> w' = w"
  by (auto simp: insert_lease_def bind_Inl ts_value_result ts_nullable_result refuse_if_result in_db_def
        modify_def split: option.splits if_splits)

text \<open>What the gate asks of a row about to be inserted: nothing held in its project excludes it.\<close>

definition no_conflict :: "lease_row \<Rightarrow> database \<Rightarrow> bool" where
  "no_conflict row db \<longleftrightarrow> lease_rows.free (d_leases db) row"

lemma rows_conflict_times [simp]:
  "rows_conflict (row\<lparr>fl_acquiredAt := a, fl_expiresAt := e, fl_releasedAt := t, fl_createdAt := c\<rparr>) h
     = rows_conflict row h"
  by (simp add: rows_conflict_def scope_of_def)

lemma triple_insert_lease:
  "triple (\<lambda>w. leases_inv w \<and> no_conflict row (core w)) (insert_lease ctx row) (\<lambda>_. leases_inv) (\<lambda>_. leases_inv)"
proof (rule tripleI)
  fix w u w' assume pre: "leases_inv w \<and> no_conflict row (core w)" and run: "insert_lease ctx row w = (Inr u, w')"
  show "leases_inv w'"
    by (rule insert_lease_ok [OF run])
       (use pre in \<open>simp add: leases_ok_def no_conflict_def lease_rows.exclusive_snoc lease_rows.free_def\<close>)
next
  fix w e w' assume "leases_inv w \<and> no_conflict row (core w)" "insert_lease ctx row w = (Inl e, w')"
  then show "leases_inv w'" using insert_lease_fails by blast
qed

text \<open>
  Every held row of the project is among the active ones, up to what the gate looks at.
\<close>

definition lease_key :: "lease_row \<Rightarrow> lease_holder_type \<times> ident \<times> lease_scope" where
  "lease_key l = (fl_holderType l, fl_holderId l, scope_of l)"

definition covered :: "server_context \<Rightarrow> ident \<Rightarrow> lease_row list \<Rightarrow> database \<Rightarrow> bool" where
  "covered ctx projectId active db \<longleftrightarrow>
     (\<forall>h \<in> set (d_leases db). held_in ctx projectId h \<longrightarrow> lease_key h \<in> lease_key ` set active)"

lemma covered_no_conflict:
  assumes "covered ctx projectId active db" and "fl_organizationId row = cx_organizationId ctx"
    and "fl_projectId row = projectId"
    and "\<forall>a \<in> set active. leasesConflict (scope_of row) (scope_of a)
           \<longrightarrow> fl_holderType row = LH_run \<and> fl_holderType a = LH_run \<and> fl_holderId a = fl_holderId row"
  shows "no_conflict row db"
  unfolding no_conflict_def lease_rows.free_def
proof
  fix h assume h: "h \<in> set (d_leases db)"
  show "\<not> rows_conflict row h"
  proof
    assume conf: "rows_conflict row h"
    then have "held_in ctx projectId h" using assms(2,3) by (simp add: rows_conflict_def held_in_def)
    then obtain a where "a \<in> set active" "lease_key a = lease_key h"
      using h assms(1) by (auto simp: covered_def image_iff)
    then show False using assms(4) conf by (auto simp: lease_key_def rows_conflict_def)
  qed
qed

lemma triple_expire_covered:
  "triple (\<lambda>w. leases_inv w \<and> rows = filter (held_in ctx projectId) (d_leases (core w)))
     (expireStaleLeases ctx rows now)
     (\<lambda>_ w. leases_inv w \<and> covered ctx projectId (filter (\<lambda>l. isActive l now) rows) (core w))
     (\<lambda>_ w. leases_inv w)"
  by (rule triple_conseq [OF triple_expire]) (auto simp: covered_def)

lemma triple_held:
  "triple leases_inv (sel d_leases P)
     (\<lambda>rows w. leases_inv w \<and> rows = filter P (d_leases (core w))) (\<lambda>_. leases_inv)"
  by (rule triple_sel) simp_all

lemma quiet_conj_triple:
  "quiet m \<Longrightarrow> triple (\<lambda>w. leases_inv w \<and> P (core w)) m (\<lambda>_ w. leases_inv w \<and> P (core w)) (\<lambda>_. leases_inv)"
  by (rule triple_conseq [OF quiet_triple [of m "\<lambda>c. leases_ok c \<and> P c"]]) auto

lemma keeps_inv_triple: "keeps leases_inv m \<Longrightarrow> triple leases_inv m (\<lambda>_. leases_inv) (\<lambda>_. leases_inv)"
  by (simp add: keeps_triple)

lemma triple_drop: "triple leases_inv m Q E \<Longrightarrow> triple (\<lambda>w. leases_inv w \<and> P w) m Q E"
  by (erule triple_conseq) auto

lemma keeps_grant_lease: "keeps leases_inv (grant_lease ctx req now projectId path)"
  unfolding keeps_triple grant_lease_def Let_def
proof (rule triple_bind [OF triple_held], rule triple_bind [OF triple_expire_covered],
    rule triple_option, goal_cases)
  case (1 rows u)
  define active where "active = filter (\<lambda>l. isActive l now) rows"
  show ?case
    unfolding active_def [symmetric]
  proof (rule triple_option, goal_cases)
    case 1
    note none = this [unfolded find_None_iff]
    show ?case
    proof (rule triple_bind [OF quiet_conj_triple [OF quiet_generate]],
        rule triple_bind [where R = "\<lambda>_. leases_inv"], goal_cases)
      case (1 i)
      show ?case
        by (rule triple_conseq [OF triple_insert_lease])
           (use none in \<open>auto intro!: covered_no_conflict simp: new_lease_def scope_of_def\<close>)
    next
      case (2 i u)
      show ?case
        by (rule keeps_inv_triple) (intro keeps_bind quiet_leases keeps_option quiet_rules)
    qed
  next
    case (2 x)
    show ?case by (rule triple_drop, rule triple_throw)
  qed
next
  case (2 rows u existing)
  show ?case by (rule triple_drop, rule triple_ret)
qed

lemma keeps_acquireLease: "keeps leases_inv (acquireLease ctx req)"
  unfolding acquireLease_def
  by (intro keeps_bind keeps_transaction keeps_option keeps_sum keeps_throw keeps_grant_lease quiet_leases quiet_rules)

text \<open>A grant to a run also extends what is active.\<close>

lemma triple_insert_covered:
  "triple (\<lambda>w. leases_inv w \<and> no_conflict row (core w) \<and> covered ctx projectId active (core w))
     (insert_lease ctx row)
     (\<lambda>_ w. leases_inv w \<and> covered ctx projectId (active @ [row]) (core w)) (\<lambda>_. leases_inv)"
proof (rule tripleI)
  fix w u w' assume pre: "leases_inv w \<and> no_conflict row (core w) \<and> covered ctx projectId active (core w)"
    and run: "insert_lease ctx row w = (Inr u, w')"
  have "leases_inv w'" using tripleD [OF triple_insert_lease _ run] pre by simp
  moreover have "covered ctx projectId (active @ [row]) (core w')"
    by (rule insert_lease_ok [OF run])
       (use pre in \<open>auto simp: covered_def lease_key_def scope_of_def\<close>)
  ultimately show "leases_inv w' \<and> covered ctx projectId (active @ [row]) (core w')" ..
next
  fix w e w' assume "leases_inv w \<and> no_conflict row (core w) \<and> covered ctx projectId active (core w)"
    "insert_lease ctx row w = (Inl e, w')"
  then show "leases_inv w'" using insert_lease_fails by blast
qed

lemma triple_reserve_path:
  "triple (\<lambda>w. leases_inv w \<and> covered ctx (rv_projectId params) (fst acc) (core w))
     (reserve_path ctx params now acc path)
     (\<lambda>acc' w. leases_inv w \<and> covered ctx (rv_projectId params) (fst acc') (core w)) (\<lambda>_. leases_inv)"
proof -
  obtain active reserved where acc: "acc = (active, reserved)" by fastforce
  show ?thesis
    unfolding acc reserve_path_def prod.case Let_def fst_conv
  proof (rule triple_option, goal_cases)
    case 1
    show ?case
    proof (rule triple_option, goal_cases)
      case 1
      note free = this [unfolded find_None_iff]
      show ?case
      proof (rule triple_bind [OF quiet_conj_triple [OF quiet_generate]], goal_cases)
        case (1 i)
        show ?case
          by (rule triple_bind, rule triple_pre [OF triple_insert_covered
                [where projectId = "rv_projectId params" and active = active]],
              (use free in \<open>auto intro!: covered_no_conflict simp: new_lease_def scope_of_def ownedByRun_def\<close>)[1],
              rule triple_bind [OF quiet_conj_triple [OF quiet_emit]], rule triple_ret) simp
      qed
    next
      case (2 x)
      show ?case by (rule triple_throw) simp
    qed
  next
    case (2 existing)
    show ?case by (rule triple_ret) simp
  qed
qed

lemma keeps_reserveRunLeases: "keeps leases_inv (reserveRunLeases ctx params)"
proof -
  have loop: "triple (\<lambda>w. leases_inv w \<and> covered ctx (rv_projectId params) active (core w))
      (for_fold keys (active, []) (reserve_path ctx params now)) (\<lambda>_. leases_inv) (\<lambda>_. leases_inv)"
    for keys active now
    by (rule triple_conseq [OF triple_for_fold
          [where J = "\<lambda>_ acc w. leases_inv w \<and> covered ctx (rv_projectId params) (fst acc) (core w)"
             and xs = keys and acc = "(active, [])"]])
       (auto intro: triple_reserve_path)
  have quiet_keys: "quiet (write_keys paths)" for paths
    unfolding write_keys_def by (intro quiet_rules) (auto intro!: quiet_rules split: sum.split)
  have tail: "keeps leases_inv (bind (sel d_leases (held_in ctx (rv_projectId params))) (\<lambda>projectLeases.
        bind (expireStaleLeases ctx projectLeases now) (\<lambda>_.
        bind (for_fold keys (filter (\<lambda>l. isActive l now) projectLeases, []) (reserve_path ctx params now)) (\<lambda>result.
        ret (snd result)))))" for now keys
    unfolding keeps_triple
    by (rule triple_bind [OF triple_held], rule triple_bind [OF triple_expire_covered],
        rule triple_bind [OF loop], rule triple_ret) simp
  show ?thesis
    unfolding reserveRunLeases_def
    by (intro keeps_if keeps_bind tail quiet_leases quiet_keys quiet_rules)
qed

section \<open>Any sequence of operations\<close>

text \<open>
  The server's steps as far as leases go: each operation of this service, on behalf of any
  organization, whether it answers or throws (the two operations on a run's leases inside the
  transaction of their caller), and whatever leaves the leases alone.
\<close>

inductive lease_step :: "world \<Rightarrow> world \<Rightarrow> bool" where
  acquire: "lease_step w (snd (acquireLease ctx req w))"
| release: "lease_step w (snd (releaseLease ctx leaseId w))"
| list_leases: "lease_step w (snd (listLeases ctx projectId status w))"
| reserve: "lease_step w (snd (transaction (reserveRunLeases ctx params) w))"
| release_run: "lease_step w (snd (transaction (releaseRunLeases ctx runId) w))"
| elsewhere: "d_leases (w_db w') = d_leases (w_db w) \<Longrightarrow> lease_step w w'"

lemma lease_step_inv: "lease_step w w' \<Longrightarrow> leases_inv w \<Longrightarrow> leases_inv w'"
proof (induction rule: lease_step.induct)
  case (elsewhere w' w)
  then show ?case by (simp add: leases_ok_def)
qed (auto intro: keepsD [OF keeps_acquireLease] keepsD [OF keeps_releaseLease] keepsD [OF keeps_listLeases]
      keepsD [OF keeps_transaction [OF keeps_reserveRunLeases]] keepsD [OF keeps_transaction [OF keeps_releaseRunLeases]])

lemma lease_steps_inv: "lease_step\<^sup>*\<^sup>* w w' \<Longrightarrow> leases_inv w \<Longrightarrow> leases_inv w'"
  by (induction rule: rtranclp_induct) (auto intro: lease_step_inv)

text \<open>
  Property C1. Held leases exclude each other. Starting from an empty lease table, after any
  sequence of acquisitions, releases, expiries, listings and reservations by any callers, whether
  they succeed or fail, two different leases that are held in the same project never conflict (no
  path of one lies on or under the other's while one of them writes), unless one run holds both.
\<close>

theorem held_leases_exclusive:
  assumes "lease_step\<^sup>*\<^sup>* w0 w" "d_leases (w_db w0) = []"
    and "i < length (d_leases (w_db w))" "j < length (d_leases (w_db w))" "i \<noteq> j"
    and "d_leases (w_db w) ! i = a" "d_leases (w_db w) ! j = b"
    and "fl_status a = LS_held" "fl_status b = LS_held"
    and "fl_organizationId a = fl_organizationId b" "fl_projectId a = fl_projectId b"
    and "leasesConflict (scope_of a) (scope_of b)"
  shows "fl_holderType a = LH_run \<and> fl_holderType b = LH_run \<and> fl_holderId a = fl_holderId b"
proof -
  have "lease_rows.exclusive (d_leases (w_db w))"
    using lease_steps_inv [OF assms(1)] assms(2) by (simp add: leases_ok_def)
  from lease_rows.exclusive_pair [OF this assms(3-5)] show ?thesis
    using assms(6-12) by (auto simp: rows_conflict_def)
qed

definition demo_lease_task :: task_row where
  "demo_lease_task = \<lparr>tk_id = ''t1'', tk_organizationId = ''org_1'', tk_projectId = ''proj_1'', tk_parentTaskId = None,
     tk_executionPolicyTaskId = None, tk_roomId = None, tk_goalId = None, tk_sourcePlanId = None,
     tk_sourcePlanSpecRef = None, tk_title = ''t'', tk_description = ''d'', tk_status = TS_assigned, tk_priority = P2,
     tk_assigneeType = None, tk_assigneeId = None, tk_requiredCapabilities = [],
     tk_preferredModelProfileId = None, tk_preferredEffort = None, tk_acceptanceCriteria = [],
     tk_createdByType = By_user, tk_createdById = ''user_1'', tk_createdAt = ''2026-06-11'',
     tk_updatedAt = ''2026-06-11''\<rparr>"

definition demo_lease_run :: "ident \<Rightarrow> run_row" where
  "demo_lease_run i = \<lparr>rn_id = i, rn_organizationId = ''org_1'', rn_taskId = ''t1'', rn_computerId = ''c1'',
     rn_agentInstanceId = ''ai_1'', rn_runtimeId = ''mock'', rn_schedulerDecisionId = None, rn_modelProfileId = None,
     rn_effortProfileId = None, rn_status = RS_queued, rn_contextPackId = None, rn_startedAt = None,
     rn_endedAt = None, rn_failureReason = None, rn_sequence = 0, rn_workspaceRoot = None,
     rn_workspaceBranch = None, rn_workspaceAllocation = None, rn_createdAt = ''2026-06-11'',
     rn_requestedByUserId = None, rn_aiDataSharingConsentId = None, rn_aiDataSharingPolicyVersion = None\<rparr>"

definition demo_lease_world :: world where
  "demo_lease_world = demo_world\<lparr>w_db := empty_db\<lparr>d_tasks := [demo_lease_task],
     d_runs := [demo_lease_run ''r1'', demo_lease_run ''r2'']\<rparr>\<rparr>"

definition demo_reserve :: reserve_params where
  "demo_reserve = \<lparr>rv_taskId = ''t1'', rv_runId = ''r1'', rv_projectId = ''proj_1'', rv_paths = [''src'', ''src/a'']\<rparr>"

definition demo_held :: "lease_row list" where
  "demo_held = d_leases (w_db (snd (transaction (reserveRunLeases demo_ctx demo_reserve) demo_lease_world)))"

lemma demo_held_rows:
  "map (\<lambda>l. (fl_path l, fl_status l, fl_projectId l, fl_organizationId l, fl_mode l)) demo_held =
     [(''src'', LS_held, ''proj_1'', ''org_1'', LM_write), (''src/a'', LS_held, ''proj_1'', ''org_1'', LM_write)]"
  by code_simp

lemma held_leases_exclusive_witness:
  "fl_holderId (demo_held ! 0) = fl_holderId (demo_held ! 1)"
proof -
  obtain a b where held: "demo_held = [a, b]" using demo_held_rows by (auto simp: map_eq_Cons_conv)
  have rows: "d_leases (w_db (snd (transaction (reserveRunLeases demo_ctx demo_reserve) demo_lease_world))) = [a, b]"
    using held by (simp add: demo_held_def)
  have ab: "fl_status a = LS_held" "fl_status b = LS_held" "fl_organizationId a = fl_organizationId b"
      "fl_projectId a = fl_projectId b" "fl_path a = ''src''" "fl_path b = ''src/a''" "fl_mode a = LM_write"
      "fl_mode b = LM_write"
    using demo_held_rows by (simp_all add: held)
  have conf: "leasesConflict (scope_of a) (scope_of b)"
    unfolding scope_of_def ab by code_simp
  have "lease_step\<^sup>*\<^sup>* demo_lease_world (snd (transaction (reserveRunLeases demo_ctx demo_reserve) demo_lease_world))"
    by (blast intro: lease_step.reserve)
  moreover have "d_leases (w_db demo_lease_world) = []" by (simp add: demo_lease_world_def empty_db_def)
  ultimately have "fl_holderType a = LH_run \<and> fl_holderType b = LH_run \<and> fl_holderId a = fl_holderId b"
    by (rule held_leases_exclusive [where i = 0 and j = 1]) (simp_all add: rows ab conf)
  then show ?thesis by (simp add: held)
qed

end
