(* ===== verification/Dag_Service.thy ===== *)
theory Dag_Service
  imports Transition_Service
begin

text \<open>
  \<open>apps/server/src/services/dag-service.ts\<close>: dependency edges between tasks, the snapshot of a
  task's subtree, and what a task's completion or failure does to the tasks downstream of it.
\<close>

section \<open>Edges\<close>

record task_dependency =
  td_id :: ident
  td_organization_id :: ident
  td_from_task_id :: ident
  td_to_task_id :: ident
  td_type :: dependency_type
  td_created_at :: iso_time

definition mapDependency :: "dependency_row \<Rightarrow> task_dependency" where
  "mapDependency row = \<lparr>td_id = dp_id row, td_organization_id = dp_organizationId row,
     td_from_task_id = dp_fromTaskId row, td_to_task_id = dp_toTaskId row, td_type = dp_type row,
     td_created_at = dp_createdAt row\<rparr>"

record create_dependency_request =
  cd_depends_on_task_id :: ident
  cd_type :: dependency_type

definition row_edge :: "dependency_row \<Rightarrow> dag_edge" where
  "row_edge r = \<lparr>from_task_id = dp_fromTaskId r, to_task_id = dp_toTaskId r, edge_type = dp_type r\<rparr>"

definition loadEdges :: "server_context \<Rightarrow> dag_edge list srv" where
  "loadEdges ctx =
     bind (sel d_deps (\<lambda>d. dp_organizationId d = cx_organizationId ctx)) (\<lambda>rows. ret (map row_edge rows))"

fun dependency_type_text :: "dependency_type \<Rightarrow> string" where
  "dependency_type_text DT_blocks = ''blocks''"
| "dependency_type_text DT_artifact_required = ''artifact_required''"
| "dependency_type_text DT_contract_required = ''contract_required''"
| "dependency_type_text DT_review_required = ''review_required''"
| "dependency_type_text DT_soft_context = ''soft_context''"

definition find_task :: "server_context \<Rightarrow> ident \<Rightarrow> task_row option srv" where
  "find_task ctx i =
     bind (sel d_tasks (\<lambda>t. tk_id t = i \<and> tk_organizationId t = cx_organizationId ctx)) (\<lambda>rows. ret (first rows))"

text \<open>The part of \<open>createDependency\<close> after both tasks are found and share a project.\<close>

definition add_edge ::
  "server_context \<Rightarrow> iso_time \<Rightarrow> task_row \<Rightarrow> ident \<Rightarrow> ident \<Rightarrow> dependency_type \<Rightarrow> task_dependency srv" where
  "add_edge ctx now dependentTask prerequisiteId dependentTaskId ty =
     bind (loadEdges ctx) (\<lambda>edges.
     bind (guard (\<not> wouldCreateCycle edges prerequisiteId dependentTaskId)
            (conflict_error ''dependency would create a cycle''
               [(''from_task_id'', JStr prerequisiteId), (''to_task_id'', JStr dependentTaskId)])) (\<lambda>_.
     bind (sel d_deps (\<lambda>d. dp_organizationId d = cx_organizationId ctx \<and> dp_fromTaskId d = prerequisiteId
             \<and> dp_toTaskId d = dependentTaskId \<and> dp_type d = ty)) (\<lambda>existing.
     case first existing of
       Some e \<Rightarrow> throw (conflict_error ''dependency already exists''
           [(''dependency_id'', JStr (dp_id e)), (''from_task_id'', JStr prerequisiteId),
            (''to_task_id'', JStr dependentTaskId), (''type'', JStr (dependency_type_text ty))])
     | None \<Rightarrow>
         bind (generate ctx IP_dependency) (\<lambda>dependencyId.
         bind (insert_dependency ctx \<lparr>dp_id = dependencyId, dp_organizationId = cx_organizationId ctx,
                 dp_fromTaskId = prerequisiteId, dp_toTaskId = dependentTaskId, dp_type = ty, dp_createdAt = now\<rparr>) (\<lambda>_.
         bind (emit ctx ((event_of ''task.updated'' Act_user (cx_actorUserId ctx) dependentTaskId)\<lparr>
                 es_projectId := Some (tk_projectId dependentTask), es_taskId := Some dependentTaskId,
                 es_payload := [(''dependency_added'', JObj [(''from_task_id'', JStr prerequisiteId),
                   (''to_task_id'', JStr dependentTaskId), (''type'', JStr (dependency_type_text ty))])]\<rparr>)) (\<lambda>_.
         bind (sel d_deps (\<lambda>d. dp_id d = dependencyId)) (\<lambda>rows.
         case first rows of
           None \<Rightarrow> throw (Plain_error ''createDependency: row missing after insert'')
         | Some row \<Rightarrow> ret (mapDependency row))))))))"

definition createDependency ::
  "server_context \<Rightarrow> ident \<Rightarrow> create_dependency_request \<Rightarrow> task_dependency srv" where
  "createDependency ctx dependentTaskId req =
     bind (nowIso ctx) (\<lambda>now.
     let prerequisiteId = cd_depends_on_task_id req in
     transaction (
       bind (guard (prerequisiteId \<noteq> dependentTaskId)
              (validation ''a task cannot depend on itself'' [(''task_id'', JStr dependentTaskId)])) (\<lambda>_.
       bind (find_task ctx dependentTaskId) (\<lambda>found.
       case found of
         None \<Rightarrow> throw (notFound (''task not found: '' @ dependentTaskId) [(''task_id'', JStr dependentTaskId)])
       | Some dependentTask \<Rightarrow>
           bind (find_task ctx prerequisiteId) (\<lambda>found'.
           case found' of
             None \<Rightarrow> throw (notFound (''prerequisite task not found: '' @ prerequisiteId)
                      [(''depends_on_task_id'', JStr prerequisiteId)])
           | Some prerequisite \<Rightarrow>
               bind (guard (tk_projectId dependentTask = tk_projectId prerequisite)
                      (validation ''dependencies must stay within one project''
                        [(''dependent_task_id'', JStr dependentTaskId),
                         (''dependent_project_id'', JStr (tk_projectId dependentTask)),
                         (''prerequisite_task_id'', JStr prerequisiteId),
                         (''prerequisite_project_id'', JStr (tk_projectId prerequisite))])) (\<lambda>_.
               add_edge ctx now dependentTask prerequisiteId dependentTaskId (cd_type req)))))))"

definition listDependencies :: "server_context \<Rightarrow> ident \<Rightarrow> task_dependency list srv" where
  "listDependencies ctx dependentTaskId =
     bind (find_task ctx dependentTaskId) (\<lambda>dependentTask.
     case dependentTask of
       None \<Rightarrow> throw (notFound (''task not found: '' @ dependentTaskId) [(''task_id'', JStr dependentTaskId)])
     | Some _ \<Rightarrow>
         bind (sel d_deps (\<lambda>d. dp_organizationId d = cx_organizationId ctx \<and> dp_toTaskId d = dependentTaskId)) (\<lambda>rows.
         ret (map mapDependency rows)))"

definition delete_dependency_row :: "ident \<Rightarrow> unit srv" where
  "delete_dependency_row i = in_db (d_deps_update (filter (\<lambda>d. dp_id d \<noteq> i)))"

definition deleteDependency :: "server_context \<Rightarrow> ident \<Rightarrow> ident \<Rightarrow> unit srv" where
  "deleteDependency ctx dependentTaskId dependencyId =
     bind (nowIso ctx) (\<lambda>now.
     transaction (
       bind (sel d_deps (\<lambda>d. dp_id d = dependencyId \<and> dp_organizationId d = cx_organizationId ctx)) (\<lambda>rows.
       case first rows of
         None \<Rightarrow> throw (notFound (''dependency not found: '' @ dependencyId) [(''dependency_id'', JStr dependencyId)])
       | Some row \<Rightarrow>
           bind (guard (dp_toTaskId row = dependentTaskId)
                  (validation ''dependency does not belong to this task''
                    [(''dependency_id'', JStr dependencyId), (''task_id'', JStr dependentTaskId)])) (\<lambda>_.
           bind (delete_dependency_row dependencyId) (\<lambda>_.
           bind (sel d_tasks (\<lambda>t. tk_id t = dependentTaskId)) (\<lambda>ts.
           let dependentTask = first ts in
           emit ctx ((event_of ''task.updated'' Act_user (cx_actorUserId ctx) dependentTaskId)\<lparr>
             es_projectId := map_option tk_projectId dependentTask, es_taskId := Some dependentTaskId,
             es_roomId := Option.bind dependentTask tk_roomId,
             es_payload := [(''dependency_removed'', JObj [(''id'', JStr dependencyId),
               (''from_task_id'', JStr (dp_fromTaskId row)), (''to_task_id'', JStr (dp_toTaskId row)),
               (''type'', JStr (dependency_type_text (dp_type row)))])]\<rparr>))))))) "

section \<open>The snapshot of a subtree\<close>

record dag_node =
  dn_task_id :: ident
  dn_status :: task_status
  dn_parent_task_id :: "ident option"
  dn_title :: string

record dag_snapshot =
  ds_root_task_id :: ident
  ds_nodes :: "dag_node list"
  ds_edges :: "dag_edge list"

text \<open>\<open>childrenByParent\<close>, a map from a parent to its children in table order.\<close>

definition add_child :: "task_row \<Rightarrow> (ident \<Rightarrow> task_row list option) \<Rightarrow> (ident \<Rightarrow> task_row list option)" where
  "add_child t m =
     (case tk_parentTaskId t of
        None \<Rightarrow> m
      | Some p \<Rightarrow> m(p \<mapsto> (case m p of None \<Rightarrow> [] | Some l \<Rightarrow> l) @ [t]))"

definition childrenByParent :: "task_row list \<Rightarrow> (ident \<Rightarrow> task_row list option)" where
  "childrenByParent tasks = fold add_child tasks Map.empty"

text \<open>The inner loop over the children of one node: \<open>nodeIds\<close> and \<open>queue\<close>.\<close>

fun visit_children :: "task_row list \<Rightarrow> ident list \<Rightarrow> ident list \<Rightarrow> ident list \<times> ident list" where
  "visit_children [] nodeIds queue = (nodeIds, queue)"
| "visit_children (child # rest) nodeIds queue =
     (if \<not> List.member nodeIds (tk_id child)
      then visit_children rest (nodeIds @ [tk_id child]) (queue @ [tk_id child])
      else visit_children rest nodeIds queue)"

definition children_of :: "task_row list \<Rightarrow> ident \<Rightarrow> task_row list" where
  "children_of tasks i = (case childrenByParent tasks i of None \<Rightarrow> [] | Some l \<Rightarrow> l)"

lemma visit_children_result:
  "visit_children cs nodeIds queue = (n, q) \<Longrightarrow>
     \<exists>new. n = nodeIds @ new \<and> q = queue @ new \<and> set new = tk_id ` set cs - set nodeIds"
proof (induction cs arbitrary: nodeIds queue)
  case (Cons c cs)
  show ?case
  proof (cases "tk_id c \<in> set nodeIds")
    case True
    with Cons show ?thesis by auto
  next
    case False
    with Cons.prems have "visit_children cs (nodeIds @ [tk_id c]) (queue @ [tk_id c]) = (n, q)" by simp
    from Cons.IH [OF this] obtain new where "n = (nodeIds @ [tk_id c]) @ new" "q = (queue @ [tk_id c]) @ new"
      "set new = tk_id ` set cs - set (nodeIds @ [tk_id c])" by blast
    with False show ?thesis by (intro exI [of _ "tk_id c # new"]) auto
  qed
qed simp

lemma add_child_fold:
  "set (case fold add_child tasks m i of None \<Rightarrow> [] | Some l \<Rightarrow> l) =
     set (case m i of None \<Rightarrow> [] | Some l \<Rightarrow> l) \<union> {t \<in> set tasks. tk_parentTaskId t = Some i}"
proof (induction tasks arbitrary: m)
  case (Cons t tasks)
  show ?case
    unfolding fold.simps comp_apply Cons.IH
    by (auto simp: add_child_def split: option.splits)
qed simp

lemma set_children_of: "set (children_of tasks i) = {t \<in> set tasks. tk_parentTaskId t = Some i}"
  by (simp add: children_of_def childrenByParent_def add_child_fold)

text \<open>\<open>while (queue.length > 0)\<close>.\<close>

function collect_subtree :: "task_row list \<Rightarrow> ident list \<Rightarrow> ident list \<Rightarrow> ident list" where
  "collect_subtree tasks nodeIds [] = nodeIds"
| "collect_subtree tasks nodeIds (i # queue) =
     (case visit_children (children_of tasks i) nodeIds queue of
        (nodeIds', queue') \<Rightarrow> collect_subtree tasks nodeIds' queue')"
  by pat_completeness auto

termination
proof (relation "measures [\<lambda>(tasks, nodeIds, queue). card (tk_id ` set tasks - set nodeIds),
                           \<lambda>(tasks, nodeIds, queue). length queue]", goal_cases)
  case 1
  show ?case by simp
next
  case (2 tasks nodeIds i queue nodeIds' queue')
  then obtain new where new: "nodeIds' = nodeIds @ new" "queue' = queue @ new"
    "set new = tk_id ` set (children_of tasks i) - set nodeIds"
    using visit_children_result [of "children_of tasks i" nodeIds queue nodeIds' queue'] by metis
  show ?case
  proof (cases "new = []")
    case True
    then show ?thesis using new by simp
  next
    case False
    then obtain x where x: "x \<in> set new" by (cases new) auto
    have "tk_id ` set tasks - set nodeIds' \<subset> tk_id ` set tasks - set nodeIds"
      using x new by (auto simp: set_children_of)
    then have "card (tk_id ` set tasks - set nodeIds') < card (tk_id ` set tasks - set nodeIds)"
      by (intro psubset_card_mono) auto
    then show ?thesis by simp
  qed
qed

definition getDag :: "server_context \<Rightarrow> ident \<Rightarrow> dag_snapshot srv" where
  "getDag ctx rootTaskId =
     bind (find_task ctx rootTaskId) (\<lambda>rootTask.
     case rootTask of
       None \<Rightarrow> throw (notFound (''task not found: '' @ rootTaskId) [(''task_id'', JStr rootTaskId)])
     | Some _ \<Rightarrow>
         bind (sel d_tasks (\<lambda>t. tk_organizationId t = cx_organizationId ctx)) (\<lambda>allTasks.
         let nodeIds = collect_subtree allTasks [rootTaskId] [rootTaskId];
             nodes = map (\<lambda>t. \<lparr>dn_task_id = tk_id t, dn_status = tk_status t, dn_parent_task_id = tk_parentTaskId t,
                               dn_title = tk_title t\<rparr>) (filter (\<lambda>t. List.member nodeIds (tk_id t)) allTasks)
         in
         bind (loadEdges ctx) (\<lambda>edges.
         ret \<lparr>ds_root_task_id = rootTaskId, ds_nodes = nodes,
              ds_edges = filter (\<lambda>e. List.member nodeIds (from_task_id e) \<and> List.member nodeIds (to_task_id e)) edges\<rparr>)))"

section \<open>Unlocking\<close>

definition loadStatusMap :: "server_context \<Rightarrow> (ident \<Rightarrow> task_status option) srv" where
  "loadStatusMap ctx =
     bind (sel d_tasks (\<lambda>t. tk_organizationId t = cx_organizationId ctx)) (\<lambda>rows.
     ret (fold (\<lambda>r m. m(tk_id r \<mapsto> tk_status r)) rows Map.empty))"

definition add_evidence ::
  "artifact_row \<Rightarrow> (ident \<Rightarrow> evidence_kind list option) \<Rightarrow> (ident \<Rightarrow> evidence_kind list option)" where
  "add_evidence r m =
     (let kinds = (case m (at_taskId r) of None \<Rightarrow> [] | Some s \<Rightarrow> s);
          kinds' = List.insert Evidence_artifact kinds;
          kinds'' = (if at_type r = AT_contract then List.insert Evidence_contract kinds' else kinds')
      in m(at_taskId r \<mapsto> kinds''))"

definition loadEvidenceMap :: "server_context \<Rightarrow> ident list \<Rightarrow> (ident \<Rightarrow> evidence_kind list option) srv" where
  "loadEvidenceMap ctx prereqIds =
     (if length prereqIds = 0 then ret Map.empty
      else
        bind (sel d_artifacts (\<lambda>a. at_organizationId a = cx_organizationId ctx \<and> List.member prereqIds (at_taskId a))) (\<lambda>rows.
        ret (fold add_evidence rows Map.empty)))"

definition isDependentSatisfied ::
  "server_context \<Rightarrow> dag_edge list \<Rightarrow> (ident \<Rightarrow> task_status option) \<Rightarrow> bool srv" where
  "isDependentSatisfied ctx incoming statusById =
     (if \<not> isTaskUnlocked incoming statusById then ret False
      else
        (let prereqIds = map from_task_id (filter (\<lambda>e. isGatingDependency (edge_type e)) incoming) in
         bind (loadEvidenceMap ctx prereqIds) (\<lambda>evidenceMap. ret (hasRequiredEvidence incoming evidenceMap))))"

definition downstream :: "dag_edge list \<Rightarrow> ident \<Rightarrow> ident list" where
  "downstream edges i =
     set_list (map to_task_id (filter (\<lambda>e. from_task_id e = i \<and> isGatingDependency (edge_type e)) edges))"

fun task_status_json :: "task_status \<Rightarrow> json" where
  "task_status_json s = JStr (task_status_text s)"

definition node_event :: "string \<Rightarrow> task_row \<Rightarrow> ident \<Rightarrow> json_object \<Rightarrow> event_spec" where
  "node_event ty t i payload =
     (event_of ty Act_system ''control_plane'' i)\<lparr>es_projectId := Some (tk_projectId t), es_taskId := Some i,
        es_roomId := tk_roomId t, es_payload := payload\<rparr>"

definition unlock_one ::
  "server_context \<Rightarrow> dag_edge list \<Rightarrow> (ident \<Rightarrow> task_status option) \<Rightarrow> iso_time \<Rightarrow> ident \<Rightarrow> ident list \<Rightarrow> ident
     \<Rightarrow> ident list srv" where
  "unlock_one ctx edges statusById now completedTaskId unlocked dependentId =
     bind (find_task ctx dependentId) (\<lambda>found.
     case found of
       None \<Rightarrow> ret unlocked
     | Some t \<Rightarrow>
         (if tk_status t \<noteq> TS_backlog then ret unlocked
          else if length (tk_acceptanceCriteria t) = 0 then ret unlocked
          else
            bind (isDependentSatisfied ctx (incomingEdges edges dependentId) statusById) (\<lambda>ok.
            if \<not> ok then ret unlocked
            else
              bind (transitionTask ctx \<lparr>tp_taskId = dependentId, tp_from = TS_backlog, tp_trigger = TT_triage,
                      tp_now = now, tp_events = Some (\<lambda>to. build_all ctx
                        [node_event ''dag.node.ready'' t dependentId
                           [(''unlocked_by'', JStr completedTaskId), (''status'', task_status_json to)],
                         node_event ''task.updated'' t dependentId [(''status'', task_status_json to)]])\<rparr>) (\<lambda>res.
              ret (if tres_changed res then unlocked @ [dependentId] else unlocked)))))"

definition unlockDownstream :: "server_context \<Rightarrow> ident \<Rightarrow> ident list srv" where
  "unlockDownstream ctx completedTaskId =
     bind (loadEdges ctx) (\<lambda>edges.
     let downstreamIds = downstream edges completedTaskId in
     if length downstreamIds = 0 then ret []
     else
       bind (loadStatusMap ctx) (\<lambda>statusById.
       bind (nowIso ctx) (\<lambda>now.
       for_fold downstreamIds [] (unlock_one ctx edges statusById now completedTaskId))))"

definition signal_one :: "server_context \<Rightarrow> ident \<Rightarrow> string \<Rightarrow> ident list \<Rightarrow> ident \<Rightarrow> ident list srv" where
  "signal_one ctx sourceTaskId reason affected dependentId =
     bind (find_task ctx dependentId) (\<lambda>found.
     case found of
       None \<Rightarrow> ret affected
     | Some t \<Rightarrow>
         (if tk_status t \<noteq> TS_backlog \<and> tk_status t \<noteq> TS_ready then ret affected
          else
            bind (emit ctx (node_event ''dag.node.blocked'' t dependentId
                    [(''blocked_by'', JStr sourceTaskId), (''reason'', JStr reason)])) (\<lambda>_.
            ret (affected @ [dependentId]))))"

definition propagateBlocked :: "server_context \<Rightarrow> ident \<Rightarrow> string \<Rightarrow> ident list srv" where
  "propagateBlocked ctx sourceTaskId reason =
     bind (loadEdges ctx) (\<lambda>edges.
     let downstreamIds = downstream edges sourceTaskId in
     if length downstreamIds = 0 then ret []
     else for_fold downstreamIds [] (signal_one ctx sourceTaskId reason))"

section \<open>The snapshot is the subtree\<close>

definition child_rel :: "task_row list \<Rightarrow> (ident \<times> ident) set" where
  "child_rel tasks = {(p, tk_id t) | p t. t \<in> set tasks \<and> tk_parentTaskId t = Some p}"

lemma child_rel_Image: "child_rel tasks `` {i} = tk_id ` set (children_of tasks i)"
  by (auto simp: child_rel_def set_children_of)

lemma collect_subtree_reach:
  assumes "set queue \<subseteq> set nodeIds"
    and "\<And>x y. x \<in> set nodeIds \<Longrightarrow> x \<notin> set queue \<Longrightarrow> (x, y) \<in> child_rel tasks \<Longrightarrow> y \<in> set nodeIds"
  shows "set (collect_subtree tasks nodeIds queue) = (child_rel tasks)\<^sup>* `` set nodeIds"
  using assms
proof (induction tasks nodeIds queue rule: collect_subtree.induct)
  case (1 tasks nodeIds)
  have "(child_rel tasks)\<^sup>* `` set nodeIds \<subseteq> set nodeIds"
  proof
    fix y assume "y \<in> (child_rel tasks)\<^sup>* `` set nodeIds"
    then obtain x where "(x, y) \<in> (child_rel tasks)\<^sup>*" "x \<in> set nodeIds" by blast
    then show "y \<in> set nodeIds" by (induction rule: rtrancl_induct) (use 1(2) in auto)
  qed
  then show ?case by auto
next
  case (2 tasks nodeIds i queue)
  obtain n q where vis: "visit_children (children_of tasks i) nodeIds queue = (n, q)" by fastforce
  from visit_children_result [OF vis] obtain new where new: "n = nodeIds @ new" "q = queue @ new"
    "set new = child_rel tasks `` {i} - set nodeIds"
    by (auto simp: child_rel_Image)
  have i: "i \<in> set nodeIds" using "2.prems"(1) by simp
  have closed: "y \<in> set n" if "x \<in> set n" "x \<notin> set q" "(x, y) \<in> child_rel tasks" for x y
    using that new "2.prems"(2) [of x y] by (cases "x = i") auto
  have "set q \<subseteq> set n" using "2.prems"(1) new by auto
  from "2.IH" [OF vis [symmetric] this closed]
  have "set (collect_subtree tasks n q) = (child_rel tasks)\<^sup>* `` set n" .
  moreover have "(child_rel tasks)\<^sup>* `` set n = (child_rel tasks)\<^sup>* `` set nodeIds"
    using new i by (auto intro: converse_rtrancl_into_rtrancl)
  ultimately show ?case using vis by simp
qed

lemma subtree_reach: "set (collect_subtree tasks [r] [r]) = (child_rel tasks)\<^sup>* `` {r}"
  using collect_subtree_reach [of "[r]" "[r]" tasks] by simp

lemma loadEdges_run: "loadEdges ctx w =
    (Inr (map row_edge (filter (\<lambda>d. dp_organizationId d = cx_organizationId ctx) (d_deps (w_db w)))), w)"
  by (simp add: loadEdges_def bind_sel run_basic)

lemma find_task_run: "find_task ctx i w =
    (Inr (find (\<lambda>t. tk_id t = i \<and> tk_organizationId t = cx_organizationId ctx) (d_tasks (w_db w))), w)"
  by (simp add: find_task_def bind_sel run_basic first_filter)

definition org_tasks :: "server_context \<Rightarrow> database \<Rightarrow> task_row list" where
  "org_tasks ctx db = filter (\<lambda>t. tk_organizationId t = cx_organizationId ctx) (d_tasks db)"

definition org_edges :: "server_context \<Rightarrow> database \<Rightarrow> dag_edge list" where
  "org_edges ctx db = map row_edge (filter (\<lambda>d. dp_organizationId d = cx_organizationId ctx) (d_deps db))"

lemma bind_loadEdges: "bind (loadEdges ctx) f w = f (org_edges ctx (w_db w)) w"
  by (simp add: bind_run [OF loadEdges_run] org_edges_def)

text \<open>
  Property C17. The snapshot of a task is its subtree. The call changes nothing; it fails with 404
  exactly when the organization has no such task; otherwise its nodes are exactly the organization's
  tasks reachable from the root along parent links, whatever cycles the links contain, in table
  order, and its edges exactly the dependencies between two of those.
\<close>

theorem dag_snapshot_exact:
  "snd (getDag ctx r w) = w
    \<and> (case fst (getDag ctx r w) of
         Inl e \<Rightarrow> e = notFound (''task not found: '' @ r) [(''task_id'', JStr r)] \<and> r \<notin> tk_id ` set (org_tasks ctx (w_db w))
       | Inr snap \<Rightarrow>
           r \<in> tk_id ` set (org_tasks ctx (w_db w)) \<and> ds_root_task_id snap = r
           \<and> map dn_task_id (ds_nodes snap) =
               map tk_id (filter (\<lambda>t. (r, tk_id t) \<in> (child_rel (org_tasks ctx (w_db w)))\<^sup>*) (org_tasks ctx (w_db w)))
           \<and> ds_edges snap = filter (\<lambda>e. (r, from_task_id e) \<in> (child_rel (org_tasks ctx (w_db w)))\<^sup>*
                 \<and> (r, to_task_id e) \<in> (child_rel (org_tasks ctx (w_db w)))\<^sup>*) (org_edges ctx (w_db w)))"
proof -
  have member: "List.member (collect_subtree ts [r] [r]) i \<longleftrightarrow> (r, i) \<in> (child_rel ts)\<^sup>*" for ts i
    using subtree_reach [of ts r] by (simp del: collect_subtree.simps)
  have found: "find (\<lambda>t. tk_id t = r \<and> tk_organizationId t = cx_organizationId ctx) (d_tasks (w_db w)) = None
      \<longleftrightarrow> r \<notin> tk_id ` set (org_tasks ctx (w_db w))"
    by (auto simp: find_None_iff org_tasks_def)
  show ?thesis
    using found
    by (auto simp: getDag_def bind_run [OF find_task_run] bind_sel bind_run [OF loadEdges_run] Let_def run_basic
        org_tasks_def [symmetric] org_edges_def [symmetric] member comp_def simp del: collect_subtree.simps List.member_iff split: option.split)
qed

section \<open>The stored graph stays acyclic\<close>

definition org_rel :: "ident \<Rightarrow> database \<Rightarrow> (ident \<times> ident) set" where
  "org_rel org db = {(dp_fromTaskId d, dp_toTaskId d) | d. d \<in> set (d_deps db) \<and> dp_organizationId d = org}"

definition deps_ok :: "database \<Rightarrow> bool" where
  "deps_ok db \<longleftrightarrow> (\<forall>org. acyclic (org_rel org db))"

lemma org_rel_edges: "edge_rel (org_edges ctx db) = org_rel (cx_organizationId ctx) db"
  by (auto simp: edge_rel_def org_edges_def org_rel_def row_edge_def image_iff)

abbreviation deps_inv :: "world \<Rightarrow> bool" where
  "deps_inv w \<equiv> deps_ok (core w)"

lemma quiet_deps: "quiet m \<Longrightarrow> keeps deps_inv m"
  by (rule quiet_keeps)

lemma insert_dependency_ok:
  assumes "insert_dependency ctx row w = (Inr u, w')"
  obtains c where "core w' = (core w)\<lparr>d_deps := d_deps (core w) @ [row\<lparr>dp_createdAt := c\<rparr>]\<rparr>"
proof -
  from assms obtain c where
    "w' = w\<lparr>w_db := d_deps_update (\<lambda>rows. rows @ [row\<lparr>dp_createdAt := c\<rparr>]) (w_db w)\<rparr>"
    by (auto simp: insert_dependency_def bind_Inr ts_value_result refuse_if_result in_db_def modify_def
        split: option.splits if_splits)
  then show ?thesis using that [of c] by (simp add: core_def)
qed

lemma insert_dependency_fails: "insert_dependency ctx row w = (Inl e, w') \<Longrightarrow> w' = w"
  by (auto simp: insert_dependency_def bind_Inl ts_value_result refuse_if_result in_db_def modify_def
      split: option.splits if_splits)

lemma org_rel_snoc:
  "org_rel org (db\<lparr>d_deps := d_deps db @ [d]\<rparr>) =
     (if dp_organizationId d = org then insert (dp_fromTaskId d, dp_toTaskId d) (org_rel org db) else org_rel org db)"
  by (auto simp: org_rel_def)

text \<open>The guard of the pure search, on the stored rows.\<close>

lemma deps_ok_insert:
  assumes "deps_ok db" and "\<not> wouldCreateCycle (org_edges ctx db) f t"
    and "dp_organizationId d = cx_organizationId ctx" "dp_fromTaskId d = f" "dp_toTaskId d = t"
  shows "deps_ok (db\<lparr>d_deps := d_deps db @ [d]\<rparr>)"
  unfolding deps_ok_def org_rel_snoc
proof
  fix org
  have "acyclic (insert (f, t) (org_rel (cx_organizationId ctx) db))"
    using dag_guard.add_acyclic_iff [of undefined f t "org_edges ctx db"] assms(1,2)
    by (simp add: append_edge_def org_rel_edges deps_ok_def)
  then show "acyclic (if dp_organizationId d = org
      then insert (dp_fromTaskId d, dp_toTaskId d) (org_rel org db) else org_rel org db)"
    using assms by (auto simp: deps_ok_def)
qed

lemma keeps_add_edge: "keeps deps_inv (add_edge ctx now t f i ty)"
proof -
  have tail: "keeps deps_inv (bind (emit ctx spec) (\<lambda>_. bind (sel d_deps P) (\<lambda>rows.
      case first rows of None \<Rightarrow> throw e | Some row \<Rightarrow> ret (mapDependency row))))" for spec P e
    by (intro keeps_bind keeps_option keeps_ret keeps_throw quiet_deps quiet_rules)
  have ins: "triple (\<lambda>w. deps_inv w \<and> \<not> wouldCreateCycle (org_edges ctx (core w)) f i)
      (insert_dependency ctx \<lparr>dp_id = k, dp_organizationId = cx_organizationId ctx, dp_fromTaskId = f,
         dp_toTaskId = i, dp_type = ty, dp_createdAt = now\<rparr>) (\<lambda>_. deps_inv) (\<lambda>_. deps_inv)" for k
  proof (rule tripleI, goal_cases)
    case (1 w u w')
    show ?case
      by (rule insert_dependency_ok [OF 1(2)]) (use 1(1) deps_ok_insert [of "core w" ctx f i] in simp)
  next
    case (2 w e w')
    then show ?case using insert_dependency_fails by blast
  qed
  have checked: "triple (\<lambda>w. deps_inv w \<and> \<not> wouldCreateCycle (org_edges ctx (core w)) f i) m
      (\<lambda>_ w. deps_inv w \<and> \<not> wouldCreateCycle (org_edges ctx (core w)) f i) (\<lambda>_. deps_inv)" if "quiet m"
    for m :: "'b srv"
    by (rule triple_conseq [OF quiet_triple [OF that,
          of "\<lambda>c. deps_ok c \<and> \<not> wouldCreateCycle (org_edges ctx c) f i"]]) auto
  have load: "triple deps_inv (loadEdges ctx) (\<lambda>es w. deps_inv w \<and> es = org_edges ctx (core w)) (\<lambda>_. deps_inv)"
    by (rule tripleI) (auto simp: loadEdges_run org_edges_def)
  have guarded: "triple (\<lambda>w. deps_inv w \<and> es = org_edges ctx (core w)) (guard (\<not> wouldCreateCycle es f i) e)
      (\<lambda>_ w. deps_inv w \<and> \<not> wouldCreateCycle (org_edges ctx (core w)) f i) (\<lambda>_. deps_inv)" for es e
    by (rule tripleI) (auto simp: guard_def run_basic split: if_splits)
  show ?thesis
    unfolding keeps_triple add_edge_def
    by (rule triple_bind [OF load], rule triple_bind [OF guarded], rule triple_bind [OF checked [OF quiet_sel]],
        rule triple_option, rule triple_bind [OF checked [OF quiet_generate]], rule triple_bind [OF ins],
        rule tail [unfolded keeps_triple], rule triple_throw, simp)
qed

lemma quiet_find_task [quiet_rules]: "quiet (find_task ctx i)"
  unfolding find_task_def by (intro quiet_rules)

lemma keeps_createDependency: "keeps deps_inv (createDependency ctx i req)"
  unfolding createDependency_def Let_def
  by (intro keeps_bind keeps_transaction keeps_option keeps_throw keeps_guard keeps_add_edge quiet_deps quiet_rules)

lemma deps_ok_fewer: "set (d_deps db') \<subseteq> set (d_deps db) \<Longrightarrow> deps_ok db \<Longrightarrow> deps_ok db'"
  unfolding deps_ok_def by (intro allI, erule allE, erule acyclic_subset) (auto simp: org_rel_def)

lemma keeps_delete_row: "keeps deps_inv (delete_dependency_row i)"
proof (rule keepsI)
  fix w assume "deps_inv w"
  then show "deps_inv (snd (delete_dependency_row i w))"
    by (rule deps_ok_fewer [rotated]) (auto simp: delete_dependency_row_def in_db_def modify_def)
qed

lemma keeps_deleteDependency: "keeps deps_inv (deleteDependency ctx i d)"
  unfolding deleteDependency_def Let_def
  by (intro keeps_bind keeps_transaction keeps_option keeps_throw keeps_guard keeps_delete_row quiet_deps quiet_rules)

inductive dependency_step :: "world \<Rightarrow> world \<Rightarrow> bool" where
  create: "dependency_step w (snd (createDependency ctx i req w))"
| delete: "dependency_step w (snd (deleteDependency ctx i d w))"
| elsewhere: "d_deps (w_db w') = d_deps (w_db w) \<Longrightarrow> dependency_step w w'"

lemma dependency_steps_inv: "dependency_step\<^sup>*\<^sup>* w w' \<Longrightarrow> deps_inv w \<Longrightarrow> deps_inv w'"
proof (induction rule: rtranclp_induct)
  case (step y z)
  from step(2) show ?case
  proof cases
    case elsewhere
    then show ?thesis using step(3) [OF step(4)] by (auto intro: deps_ok_fewer [rotated])
  qed (use step(3) [OF step(4)] keepsD [OF keeps_createDependency] keepsD [OF keeps_deleteDependency] in auto)
qed


definition demo_dependency :: create_dependency_request where
  "demo_dependency = \<lparr>cd_depends_on_task_id = ''t2'', cd_type = DT_blocks\<rparr>"


section \<open>Completion unlocks what it should\<close>

text \<open>
  The organization's status of a task, the evidence a prerequisite has left, and when a dependent
  may be readied, read off the tables.
\<close>

definition status_in :: "server_context \<Rightarrow> database \<Rightarrow> ident \<Rightarrow> task_status option" where
  "status_in ctx db i = map_option tk_status (find (\<lambda>t. tk_id t = i) (org_tasks ctx db))"

definition has_evidence :: "server_context \<Rightarrow> database \<Rightarrow> ident \<Rightarrow> evidence_kind \<Rightarrow> bool" where
  "has_evidence ctx db i k \<longleftrightarrow> (\<exists>a \<in> set (d_artifacts db). at_organizationId a = cx_organizationId ctx
      \<and> at_taskId a = i \<and> (k = Evidence_artifact \<or> at_type a = AT_contract))"

definition satisfied :: "server_context \<Rightarrow> database \<Rightarrow> ident \<Rightarrow> bool" where
  "satisfied ctx db i \<longleftrightarrow>
     (\<forall>e \<in> set (org_edges ctx db). to_task_id e = i \<and> edge_type e \<noteq> DT_soft_context \<longrightarrow>
        status_in ctx db (from_task_id e) = Some TS_done
        \<and> (case requiredEvidenceKind (edge_type e) of None \<Rightarrow> True | Some k \<Rightarrow> has_evidence ctx db (from_task_id e) k))"

definition unlockable :: "server_context \<Rightarrow> database \<Rightarrow> ident \<Rightarrow> bool" where
  "unlockable ctx db i \<longleftrightarrow>
     (\<exists>t. find (\<lambda>t. tk_id t = i) (org_tasks ctx db) = Some t \<and> tk_status t = TS_backlog
        \<and> tk_acceptanceCriteria t \<noteq> []) \<and> satisfied ctx db i"

lemma find_filter: "find P (filter Q xs) = find (\<lambda>x. P x \<and> Q x) xs"
  by (induction xs) auto

lemma find_org: "find (\<lambda>t. tk_id t = i \<and> tk_organizationId t = cx_organizationId ctx) (d_tasks db)
    = find (\<lambda>t. tk_id t = i) (org_tasks ctx db)"
  by (simp add: org_tasks_def find_filter)

text \<open>A later row of the same id would overwrite an earlier one in the map; the primary key forbids it.\<close>

lemma status_fold:
  "distinct (map tk_id ts) \<Longrightarrow> fold (\<lambda>r m. m(tk_id r \<mapsto> tk_status r)) ts m i =
     (case find (\<lambda>t. tk_id t = i) ts of None \<Rightarrow> m i | Some t \<Rightarrow> Some (tk_status t))"
proof (induction ts arbitrary: m)
  case (Cons t ts)
  show ?case
  proof (cases "tk_id t = i")
    case True
    with Cons.prems have "find (\<lambda>u. tk_id u = i) ts = None" unfolding find_None_iff by (auto simp: image_iff)
    with True Cons show ?thesis by simp
  next
    case False
    with Cons show ?thesis by simp
  qed
qed simp

definition kinds_of :: "(ident \<Rightarrow> evidence_kind list option) \<Rightarrow> ident \<Rightarrow> evidence_kind set" where
  "kinds_of m i = (case m i of None \<Rightarrow> {} | Some ks \<Rightarrow> set ks)"

lemma kinds_of_empty [simp]: "kinds_of Map.empty i = {}"
  by (simp add: kinds_of_def)

lemma evidence_fold:
  "k \<in> kinds_of (fold add_evidence rows m) i \<longleftrightarrow>
     k \<in> kinds_of m i
     \<or> (\<exists>a \<in> set rows. at_taskId a = i \<and> (k = Evidence_artifact \<or> at_type a = AT_contract))"
proof (induction rows arbitrary: m)
  case (Cons a rows)
  show ?case
    unfolding fold.simps comp_apply Cons.IH
    by (cases k) (auto simp: add_evidence_def Let_def kinds_of_def split: option.splits)
qed simp

lemma loadStatusMap_run:
  assumes "distinct (map tk_id (d_tasks (w_db w)))"
  shows "loadStatusMap ctx w = (Inr (status_in ctx (w_db w)), w)"
proof -
  have "distinct (map tk_id (org_tasks ctx (w_db w)))"
    using assms by (simp add: org_tasks_def distinct_map_filter)
  from status_fold [OF this, of Map.empty] show ?thesis
    by (auto simp: loadStatusMap_def bind_sel run_basic status_in_def org_tasks_def [symmetric] fun_eq_iff
        split: option.split)
qed

lemma bind_loadStatusMap:
  "distinct (map tk_id (d_tasks (w_db w))) \<Longrightarrow> bind (loadStatusMap ctx) f w = f (status_in ctx (w_db w)) w"
  by (rule bind_run [OF loadStatusMap_run])

lemma loadEvidenceMap_run:
  "loadEvidenceMap ctx ids w = (Inr m, w') \<Longrightarrow>
     w' = w \<and> (\<forall>i \<in> set ids. \<forall>k. k \<in> kinds_of m i \<longleftrightarrow> has_evidence ctx (w_db w) i k)"
  by (auto simp: loadEvidenceMap_def run_basic bind_sel evidence_fold has_evidence_def split: if_splits)

lemma required_gating: "requiredEvidenceKind ty = Some k \<Longrightarrow> ty \<noteq> DT_soft_context"
  by (auto simp: requiredEvidenceKind_def split: if_splits)

lemma hasRequiredEvidence_iff:
  "hasRequiredEvidence es m \<longleftrightarrow> (\<forall>e \<in> set es. case requiredEvidenceKind (edge_type e) of None \<Rightarrow> True
      | Some k \<Rightarrow> k \<in> kinds_of m (from_task_id e))"
proof -
  have gate: "(isGatingDependency (edge_type e) \<longrightarrow> (case requiredEvidenceKind (edge_type e) of None \<Rightarrow> True
         | Some need \<Rightarrow> (case m (from_task_id e) of None \<Rightarrow> False | Some kinds \<Rightarrow> List.member kinds need)))
      = (case requiredEvidenceKind (edge_type e) of None \<Rightarrow> True | Some k \<Rightarrow> k \<in> kinds_of m (from_task_id e))" for e
    using required_gating [of "edge_type e"]
    by (cases "m (from_task_id e)") (auto simp: kinds_of_def isGatingDependency_def split: option.splits)
  have "hasRequiredEvidence es m \<longleftrightarrow> (\<forall>e \<in> set es. isGatingDependency (edge_type e) \<longrightarrow>
        (case requiredEvidenceKind (edge_type e) of None \<Rightarrow> True
         | Some need \<Rightarrow> (case m (from_task_id e) of None \<Rightarrow> False | Some kinds \<Rightarrow> List.member kinds need)))"
    unfolding hasRequiredEvidence_def list_all_iff set_filter by blast
  also have "\<dots> \<longleftrightarrow> (\<forall>e \<in> set es. case requiredEvidenceKind (edge_type e) of None \<Rightarrow> True
      | Some k \<Rightarrow> k \<in> kinds_of m (from_task_id e))"
    by (rule ball_cong [OF refl gate])
  finally show ?thesis .
qed

lemma isDependentSatisfied_run:
  "isDependentSatisfied ctx incoming st w = (Inr ok, w') \<Longrightarrow>
     w' = w \<and> (ok \<longleftrightarrow> (\<forall>e \<in> set incoming. edge_type e \<noteq> DT_soft_context \<longrightarrow>
        st (from_task_id e) = Some TS_done
        \<and> (case requiredEvidenceKind (edge_type e) of None \<Rightarrow> True | Some k \<Rightarrow> has_evidence ctx (w_db w) (from_task_id e) k)))"
proof (cases "isTaskUnlocked incoming st")
  case False
  moreover assume "isDependentSatisfied ctx incoming st w = (Inr ok, w')"
  ultimately show ?thesis by (auto simp: isDependentSatisfied_def run_basic isTaskUnlocked_iff)
next
  case True
  moreover assume "isDependentSatisfied ctx incoming st w = (Inr ok, w')"
  ultimately obtain m where
    load: "loadEvidenceMap ctx (map from_task_id (filter (\<lambda>e. isGatingDependency (edge_type e)) incoming)) w = (Inr m, w')"
    and ok: "ok = hasRequiredEvidence incoming m"
    by (auto simp: isDependentSatisfied_def bind_Inr run_basic)
  from loadEvidenceMap_run [OF load] have w': "w' = w" ..
  from loadEvidenceMap_run [OF load] have m: "k \<in> kinds_of m (from_task_id e) \<longleftrightarrow> has_evidence ctx (w_db w) (from_task_id e) k"
      if "e \<in> set incoming" "edge_type e \<noteq> DT_soft_context" for e k
    using that by (auto simp: isGatingDependency_def)
  have "ok \<longleftrightarrow> (\<forall>e \<in> set incoming. edge_type e \<noteq> DT_soft_context \<longrightarrow>
      (case requiredEvidenceKind (edge_type e) of None \<Rightarrow> True | Some k \<Rightarrow> has_evidence ctx (w_db w) (from_task_id e) k))"
    unfolding ok hasRequiredEvidence_iff
    using m required_gating by (fastforce split: option.splits)
  then show ?thesis using True w' by (auto simp: isTaskUnlocked_iff)
qed

text \<open>The effect on one row: the unlocked tasks of the organization become ready.\<close>

definition unlock_row :: "server_context \<Rightarrow> iso_time \<Rightarrow> ident list \<Rightarrow> task_row \<Rightarrow> task_row" where
  "unlock_row ctx now ids t =
     (if tk_id t \<in> set ids \<and> tk_organizationId t = cx_organizationId ctx
      then t\<lparr>tk_status := TS_ready, tk_updatedAt := the (cx_ts ctx now)\<rparr> else t)"

lemma unlock_row_simps [simp]:
  "tk_id (unlock_row ctx now ids t) = tk_id t"
  "tk_organizationId (unlock_row ctx now ids t) = tk_organizationId t"
  "unlock_row ctx now [] t = t"
  by (simp_all add: unlock_row_def)

lemma unlock_row_other: "tk_id t \<notin> set ids \<Longrightarrow> unlock_row ctx now ids t = t"
  by (simp add: unlock_row_def)

definition unlocked_db :: "server_context \<Rightarrow> iso_time \<Rightarrow> ident list \<Rightarrow> database \<Rightarrow> database" where
  "unlocked_db ctx now ids db = db\<lparr>d_tasks := map (unlock_row ctx now ids) (d_tasks db)\<rparr>"

lemma unlocked_db_Nil: "unlocked_db ctx now [] db = db"
proof -
  have "map (unlock_row ctx now []) (d_tasks db) = d_tasks db"
    by (rule map_idI) (simp add: unlock_row_other)
  then show ?thesis by (simp add: unlocked_db_def)
qed

lemma find_unlocked:
  assumes "x \<notin> set ids"
  shows "find (\<lambda>t. tk_id t = x) (org_tasks ctx (unlocked_db ctx now ids db)) = find (\<lambda>t. tk_id t = x) (org_tasks ctx db)"
proof -
  have "find (\<lambda>t. tk_id t = x) (filter P (map (unlock_row ctx now ids) ts)) = find (\<lambda>t. tk_id t = x) (filter P ts)"
    if "P = (\<lambda>t. tk_organizationId t = cx_organizationId ctx)" for ts P
    using assms by (induction ts) (auto simp: that unlock_row_other)
  then show ?thesis by (simp add: org_tasks_def unlocked_db_def)
qed

lemma triage_target: "applyTaskTransition TS_backlog TT_triage = Inr TS_ready"
  by code_simp

text \<open>One turn of the loop.\<close>

lemma unlock_one_run:
  assumes run: "unlock_one ctx (org_edges ctx db) (status_in ctx db) now c acc x w = (Inr acc', w')"
    and core: "core w = unlocked_db ctx now acc db" and x: "x \<notin> set acc"
    and key: "distinct (map tk_id (d_tasks db))"
  shows "acc' = (if unlockable ctx db x then acc @ [x] else acc) \<and> core w' = unlocked_db ctx now acc' db"
proof -
  have tasks: "d_tasks (w_db w) = d_tasks (unlocked_db ctx now acc db)"
    using arg_cong [OF core, of d_tasks] by simp
  have found: "find (\<lambda>t. tk_id t = x \<and> tk_organizationId t = cx_organizationId ctx) (d_tasks (w_db w))
      = find (\<lambda>t. tk_id t = x) (org_tasks ctx db)"
    unfolding tasks find_org by (rule find_unlocked [OF x])
  have artifacts: "has_evidence ctx (w_db w) i k = has_evidence ctx db i k" for i k
    using arg_cong [OF core, of d_artifacts] by (simp add: has_evidence_def unlocked_db_def)
  have sat: "ok \<longleftrightarrow> satisfied ctx db x" "w1 = w"
    if "isDependentSatisfied ctx (incomingEdges (org_edges ctx db) x) (status_in ctx db) w = (Inr ok, w1)" for ok w1
    using isDependentSatisfied_run [OF that]
    by (auto simp: satisfied_def incomingEdges_def artifacts split: option.splits)
  show ?thesis
  proof (cases "find (\<lambda>t. tk_id t = x) (org_tasks ctx db)")
    case None
    then show ?thesis using run core by (simp add: unlock_one_def bind_run [OF find_task_run] found run_basic unlockable_def)
  next
    case (Some t)
    then have t: "t \<in> set (d_tasks db)" "tk_id t = x" "tk_organizationId t = cx_organizationId ctx"
      by (auto simp: org_tasks_def dest!: find_Some_D)
    show ?thesis
    proof (cases "tk_status t = TS_backlog \<and> tk_acceptanceCriteria t \<noteq> []")
      case False
      then show ?thesis
        using run core Some by (auto simp: unlock_one_def bind_run [OF find_task_run] found run_basic unlockable_def
            split: if_splits)
    next
      case True
      define p where "p = \<lparr>tp_taskId = x, tp_from = TS_backlog, tp_trigger = TT_triage,
                      tp_now = now, tp_events = Some (\<lambda>to. build_all ctx
                        [node_event ''dag.node.ready'' t x [(''unlocked_by'', JStr c), (''status'', task_status_json to)],
                         node_event ''task.updated'' t x [(''status'', task_status_json to)]])\<rparr>"
      from run Some True obtain ok w1 where
        ok: "isDependentSatisfied ctx (incomingEdges (org_edges ctx db) x) (status_in ctx db) w = (Inr ok, w1)"
        and rest1: "(if \<not> ok then ret acc else bind (transitionTask ctx p)
            (\<lambda>res. ret (if tres_changed res then acc @ [x] else acc))) w1 = (Inr acc', w')"
        unfolding p_def unlock_one_def bind_run [OF find_task_run] found by (fastforce simp: bind_Inr)
      have rest: "(if \<not> ok then ret acc else bind (transitionTask ctx p)
            (\<lambda>res. ret (if tres_changed res then acc @ [x] else acc))) w = (Inr acc', w')"
        using rest1 sat(2) [OF ok] by simp
      show ?thesis
      proof (cases ok)
        case False
        then show ?thesis using rest sat(1) [OF ok] core by (simp add: run_basic unlockable_def)
      next
        case ok_true: True
        then obtain res where tr: "transitionTask ctx p w = (Inr res, w')"
          and acc': "acc' = (if tres_changed res then acc @ [x] else acc)"
          using rest by (auto simp: bind_Inr run_basic)
        have "logs_only p" by (auto simp: logs_only_def p_def quiet_rules)
        then obtain now' where now': "cx_ts ctx now = Some now'"
          and changed: "tres_changed res \<longleftrightarrow> (\<exists>t \<in> set (d_tasks (w_db w)). task_matches ctx x TS_backlog t)"
          and w': "core w' = (core w)\<lparr>d_tasks := set_rows (task_matches ctx x TS_backlog)
              (\<lambda>t. t\<lparr>tk_status := TS_ready, tk_updatedAt := now'\<rparr>) (d_tasks (w_db w))\<rparr>"
          by (rule transitionTask_tables [OF tr]) (rule that, auto simp: p_def triage_target)
        have matches: "task_matches ctx x TS_backlog (unlock_row ctx now acc u) \<longleftrightarrow> u = t" if "u \<in> set (d_tasks db)" for u
          using that t key True x unlock_row_other [of t acc ctx now]
          by (auto simp: task_matches_def distinct_map dest: inj_onD)
        have "task_matches ctx x TS_backlog (unlock_row ctx now acc t)" using matches t(1) by blast
        then have "tres_changed res" using t(1) unfolding changed tasks unlocked_db_def by auto
        then have snoc: "acc' = acc @ [x]" using acc' by simp
        have ready: "unlockable ctx db x" using sat(1) [OF ok] ok_true Some True by (simp add: unlockable_def)
        have rows: "map (\<lambda>u. if task_matches ctx x TS_backlog (unlock_row ctx now acc u)
            then (unlock_row ctx now acc u)\<lparr>tk_status := TS_ready, tk_updatedAt := now'\<rparr> else unlock_row ctx now acc u) (d_tasks db)
            = map (unlock_row ctx now (acc @ [x])) (d_tasks db)"
        proof (rule map_cong [OF refl])
          fix u assume u: "u \<in> set (d_tasks db)"
          show "(if task_matches ctx x TS_backlog (unlock_row ctx now acc u)
            then (unlock_row ctx now acc u)\<lparr>tk_status := TS_ready, tk_updatedAt := now'\<rparr> else unlock_row ctx now acc u)
            = unlock_row ctx now (acc @ [x]) u"
          proof (cases "u = t")
            case True
            moreover have "unlock_row ctx now acc t = t" using t(2) x by (simp add: unlock_row_other)
            ultimately show ?thesis using matches [OF u] t now' by (simp add: unlock_row_def)
          next
            case False
            then have "tk_id u \<noteq> x" using u t key by (auto simp: distinct_map dest: inj_onD)
            then have "unlock_row ctx now (acc @ [x]) u = unlock_row ctx now acc u" by (simp add: unlock_row_def)
            then show ?thesis using matches [OF u] False by simp
          qed
        qed
        have "core w' = unlocked_db ctx now (acc @ [x]) db"
          unfolding w' core tasks unlocked_db_def rows [symmetric] set_rows_def by (simp add: comp_def)
        with snoc ready show ?thesis by simp
      qed
    qed
  qed
qed

text \<open>
  Property C8. A completed task unlocks exactly the tasks that were waiting for it and for nothing
  else. When the call returns, the ids it names are those of the tasks directly downstream over a
  gating edge that are in backlog, have acceptance criteria, and have every gating prerequisite done
  and every required artifact or contract present; exactly these became ready, with the time of the
  call, and no other row of any table but the event log changed.
\<close>

theorem unlock_downstream_exact:
  assumes "unlockDownstream ctx c w = (Inr ids, w')"
    and "distinct (map tk_id (d_tasks (w_db w)))"
  shows "ids = filter (unlockable ctx (core w)) (downstream (org_edges ctx (core w)) c)
    \<and> core w' = (core w)\<lparr>d_tasks := map (\<lambda>t. if tk_id t \<in> set ids \<and> tk_organizationId t = cx_organizationId ctx
           then t\<lparr>tk_status := TS_ready, tk_updatedAt := the (cx_ts ctx (cx_now ctx (w_clock w)))\<rparr> else t)
         (d_tasks (w_db w))\<rparr>"
proof (cases "downstream (org_edges ctx (w_db w)) c = []")
  case True
  then show ?thesis
    using assms(1) unlocked_db_Nil [of ctx "cx_now ctx (w_clock w)" "core w"]
    by (simp add: unlockDownstream_def bind_loadEdges run_basic org_edges_def unlocked_db_def unlock_row_def [abs_def])
next
  case False
  define now where "now = cx_now ctx (w_clock w)"
  define ds where "ds = downstream (org_edges ctx (core w)) c"
  have same: "org_edges ctx (w_db v) = org_edges ctx (core v)" "status_in ctx (w_db v) = status_in ctx (core v)" for v
    by (simp_all add: org_edges_def status_in_def org_tasks_def fun_eq_iff)
  have loop: "for_fold ds [] (unlock_one ctx (org_edges ctx (core w)) (status_in ctx (core w)) now c)
      (w\<lparr>w_clock := w_clock w + 1\<rparr>) = (Inr ids, w')"
    using assms(1) False
    by (simp add: unlockDownstream_def bind_loadEdges Let_def bind_loadStatusMap [OF assms(2)] bind_nowIso
        ds_def now_def same)
  have distinct: "distinct ds" by (simp add: ds_def downstream_def)
  have key: "distinct (map tk_id (d_tasks (core w)))" using assms(2) by simp
  have "ids = filter (unlockable ctx (core w)) ds \<and> core w' = unlocked_db ctx now ids (core w)"
  proof (rule for_fold_returns [OF loop, where
        J = "\<lambda>pre acc v. acc = filter (unlockable ctx (core w)) pre \<and> core v = unlocked_db ctx now acc (core w)"])
    show "[] = filter (unlockable ctx (core w)) [] \<and> core (w\<lparr>w_clock := w_clock w + 1\<rparr>) = unlocked_db ctx now [] (core w)"
      by (simp add: unlocked_db_Nil)
  next
    fix pre x post acc v acc' v'
    assume xs: "ds = pre @ x # post"
      and J: "acc = filter (unlockable ctx (core w)) pre \<and> core v = unlocked_db ctx now acc (core w)"
      and step: "unlock_one ctx (org_edges ctx (core w)) (status_in ctx (core w)) now c acc x v = (Inr acc', v')"
    have "x \<notin> set acc" using distinct J by (auto simp: xs)
    from unlock_one_run [OF step _ this key] J
    show "acc' = filter (unlockable ctx (core w)) (pre @ [x]) \<and> core v' = unlocked_db ctx now acc' (core w)"
      by (simp split: if_splits)
  qed
  then show ?thesis
    by (simp add: ds_def now_def unlocked_db_def unlock_row_def [abs_def])
qed

definition demo_dep_world :: world where
  "demo_dep_world = snd (createDependency demo_ctx ''t1'' demo_dependency demo_tasks_world)"

lemma demo_unlock:
  "fst (unlockDownstream demo_ctx ''t2'' demo_dep_world) = Inr [''t1'']
     \<and> map tk_id (d_tasks (w_db demo_dep_world)) = [''t1'', ''t2'']
     \<and> map tk_organizationId (d_tasks (w_db demo_dep_world)) = [''org_1'', ''org_1'']
     \<and> map tk_status (d_tasks (w_db demo_dep_world)) = [TS_backlog, TS_done]"
  by code_simp

lemma unlock_downstream_exact_witness:
  "map tk_status (d_tasks (core (snd (unlockDownstream demo_ctx ''t2'' demo_dep_world)))) = [TS_ready, TS_done]"
proof -
  have run: "unlockDownstream demo_ctx ''t2'' demo_dep_world
      = (Inr [''t1''], snd (unlockDownstream demo_ctx ''t2'' demo_dep_world))"
    by (rule prod_eqI) (simp_all add: demo_unlock)
  have key: "distinct (map tk_id (d_tasks (w_db demo_dep_world)))" by (simp add: demo_unlock)
  obtain a b where rows: "d_tasks (w_db demo_dep_world) = [a, b]"
    using demo_unlock by (auto simp: map_eq_Cons_conv)
  with demo_unlock have ab: "tk_id a = ''t1''" "tk_id b = ''t2''" "tk_organizationId a = ''org_1''" "tk_status b = TS_done"
    by simp_all
  have org: "cx_organizationId demo_ctx = ''org_1''" by (simp add: demo_ctx_def)
  show ?thesis
    using unlock_downstream_exact [OF run key] by (simp add: rows ab org)
qed

section \<open>The failure of a prerequisite\<close>

definition pending :: "server_context \<Rightarrow> database \<Rightarrow> ident \<Rightarrow> bool" where
  "pending ctx db i \<longleftrightarrow>
     (case find (\<lambda>t. tk_id t = i) (org_tasks ctx db) of
        None \<Rightarrow> False
      | Some t \<Rightarrow> tk_status t = TS_backlog \<or> tk_status t = TS_ready)"

lemma signal_one_run:
  assumes "signal_one ctx s reason acc i w = (Inr acc', w')"
  shows "core w' = core w \<and> acc' = (if pending ctx (core w) i then acc @ [i] else acc)"
proof -
  have tasks: "org_tasks ctx (w_db w) = org_tasks ctx (core w)" by (simp add: org_tasks_def)
  have emit: "core w1 = core w" if "emit ctx spec w = (Inr u, w1)" for spec u w1
    using quietD [OF quiet_emit [of ctx spec], of w] that by simp
  show ?thesis
    using assms emit
    by (auto simp: signal_one_def bind_run [OF find_task_run] find_org tasks pending_def run_basic bind_Inr
        split: option.splits if_splits)
qed



end
