(* ===== verification/Inserts.thy ===== *)
theory Inserts
  imports Database
begin

text \<open>
  The inserts of the remaining tables with the constraints of \<open>packages/db/src/schema.ts\<close>, the
  updates and joins the services write, and the frame rules that say which tables an operation
  leaves alone.
\<close>

section \<open>Constraints\<close>

text \<open>\<open>.references(() => table.id)\<close>, for a required and for an optional column.\<close>

definition refers :: "(database \<Rightarrow> 'r list) \<Rightarrow> ('r \<Rightarrow> ident) \<Rightarrow> string \<Rightarrow> ident \<Rightarrow> unit srv" where
  "refers table key message i = refuse_if (\<lambda>db. \<not> list_ex (\<lambda>r. key r = i) (table db)) message"

definition refers_opt :: "(database \<Rightarrow> 'r list) \<Rightarrow> ('r \<Rightarrow> ident) \<Rightarrow> string \<Rightarrow> ident option \<Rightarrow> unit srv" where
  "refers_opt table key message v = (case v of None \<Rightarrow> skip | Some i \<Rightarrow> refers table key message i)"

text \<open>A primary key or unique constraint: no row may have the property.\<close>

definition unique :: "(database \<Rightarrow> 'r list) \<Rightarrow> ('r \<Rightarrow> bool) \<Rightarrow> string \<Rightarrow> unit srv" where
  "unique table same message = refuse_if (\<lambda>db. list_ex same (table db)) message"

section \<open>Inserts\<close>

text \<open>
  Each first checks the row and puts the stored timestamps into it; the row goes to the end of
  its table.
\<close>

definition checked_room :: "server_context \<Rightarrow> room_row \<Rightarrow> room_row srv" where
  "checked_room ctx row =
     bind (ts_value ctx (rm_createdAt row)) (\<lambda>created.
     bind (unique d_rooms (\<lambda>r. rm_id r = rm_id row) ''rooms_pkey'') (\<lambda>_.
     bind (refers_opt d_projects pj_id ''rooms_project_id_fk'' (rm_projectId row)) (\<lambda>_.
     bind (refers_opt d_goals gl_id ''rooms_goal_id_fk'' (rm_goalId row)) (\<lambda>_.
     ret (row\<lparr>rm_createdAt := created\<rparr>)))))"

definition insert_room :: "server_context \<Rightarrow> room_row \<Rightarrow> unit srv" where
  "insert_room ctx row = bind (checked_room ctx row) (\<lambda>r. in_db (d_rooms_update (\<lambda>rows. rows @ [r])))"

text \<open>A task may refer to itself.\<close>

definition refers_own :: "string \<Rightarrow> ident \<Rightarrow> ident option \<Rightarrow> unit srv" where
  "refers_own message i v = (if v = Some i then skip else refers_opt d_tasks tk_id message v)"

definition checked_task :: "server_context \<Rightarrow> task_row \<Rightarrow> task_row srv" where
  "checked_task ctx row =
     bind (ts_value ctx (tk_createdAt row)) (\<lambda>created.
     bind (ts_value ctx (tk_updatedAt row)) (\<lambda>updated.
     bind (unique d_tasks (\<lambda>t. tk_id t = tk_id row) ''tasks_pkey'') (\<lambda>_.
     bind (unique d_tasks (\<lambda>t. tk_sourcePlanId row \<noteq> None \<and> tk_sourcePlanSpecRef row \<noteq> None
             \<and> tk_sourcePlanId t = tk_sourcePlanId row \<and> tk_sourcePlanSpecRef t = tk_sourcePlanSpecRef row)
             ''tasks_source_plan_spec_uniq'') (\<lambda>_.
     bind (refers d_projects pj_id ''tasks_project_id_fk'' (tk_projectId row)) (\<lambda>_.
     bind (refers_own ''tasks_parent_task_id_fk'' (tk_id row) (tk_parentTaskId row)) (\<lambda>_.
     bind (refers_own ''tasks_execution_policy_task_id_fk'' (tk_id row) (tk_executionPolicyTaskId row)) (\<lambda>_.
     bind (refers_opt d_goals gl_id ''tasks_goal_id_fk'' (tk_goalId row)) (\<lambda>_.
     ret (row\<lparr>tk_createdAt := created, tk_updatedAt := updated\<rparr>)))))))))"

definition insert_task :: "server_context \<Rightarrow> task_row \<Rightarrow> unit srv" where
  "insert_task ctx row = bind (checked_task ctx row) (\<lambda>r. in_db (d_tasks_update (\<lambda>rows. rows @ [r])))"

definition checked_approval :: "server_context \<Rightarrow> approval_row \<Rightarrow> approval_row srv" where
  "checked_approval ctx row =
     bind (ts_nullable ctx (ap_resolvedAt row)) (\<lambda>resolved.
     bind (ts_nullable ctx (ap_expiresAt row)) (\<lambda>expires.
     bind (ts_value ctx (ap_createdAt row)) (\<lambda>created.
     bind (unique d_approvals (\<lambda>r. ap_id r = ap_id row) ''approvals_pkey'') (\<lambda>_.
     bind (refers d_tasks tk_id ''approvals_task_id_fk'' (ap_taskId row)) (\<lambda>_.
     bind (refers_opt d_runs rn_id ''approvals_run_id_fk'' (ap_runId row)) (\<lambda>_.
     ret (row\<lparr>ap_resolvedAt := resolved, ap_expiresAt := expires, ap_createdAt := created\<rparr>)))))))"

definition insert_approval :: "server_context \<Rightarrow> approval_row \<Rightarrow> unit srv" where
  "insert_approval ctx row =
     bind (checked_approval ctx row) (\<lambda>r. in_db (d_approvals_update (\<lambda>rows. rows @ [r])))"

text \<open>The links of a decision, handoff or blocker to its room, task and run.\<close>

definition refers_links :: "string \<Rightarrow> ident \<Rightarrow> ident option \<Rightarrow> ident option \<Rightarrow> unit srv" where
  "refers_links table room task run =
     bind (refers d_rooms rm_id (table @ ''_room_id_fk'') room) (\<lambda>_.
     bind (refers_opt d_tasks tk_id (table @ ''_task_id_fk'') task) (\<lambda>_.
     refers_opt d_runs rn_id (table @ ''_run_id_fk'') run))"

definition checked_decision :: "server_context \<Rightarrow> decision_row \<Rightarrow> decision_row srv" where
  "checked_decision ctx row =
     bind (ts_value ctx (dr_createdAt row)) (\<lambda>created.
     bind (ts_value ctx (dr_updatedAt row)) (\<lambda>updated.
     bind (unique d_decisions (\<lambda>r. dr_id r = dr_id row) ''decision_records_pkey'') (\<lambda>_.
     bind (unique d_decisions (\<lambda>r. dr_sourceMessageId row \<noteq> None \<and> dr_sourceMessageId r = dr_sourceMessageId row)
             ''decision_records_source_message'') (\<lambda>_.
     bind (refers_links ''decision_records'' (dr_roomId row) (dr_taskId row) (dr_runId row)) (\<lambda>_.
     bind (refers_opt d_messages msg_id ''decision_records_source_message_id_fk'' (dr_sourceMessageId row)) (\<lambda>_.
     ret (row\<lparr>dr_createdAt := created, dr_updatedAt := updated\<rparr>)))))))"

definition insert_decision :: "server_context \<Rightarrow> decision_row \<Rightarrow> unit srv" where
  "insert_decision ctx row =
     bind (checked_decision ctx row) (\<lambda>r. in_db (d_decisions_update (\<lambda>rows. rows @ [r])))"

definition checked_handoff :: "server_context \<Rightarrow> handoff_row \<Rightarrow> handoff_row srv" where
  "checked_handoff ctx row =
     bind (ts_nullable ctx (hf_dueAt row)) (\<lambda>due.
     bind (ts_value ctx (hf_createdAt row)) (\<lambda>created.
     bind (ts_value ctx (hf_updatedAt row)) (\<lambda>updated.
     bind (unique d_handoffs (\<lambda>r. hf_id r = hf_id row) ''handoffs_pkey'') (\<lambda>_.
     bind (refers_links ''handoffs'' (hf_roomId row) (hf_taskId row) (hf_runId row)) (\<lambda>_.
     ret (row\<lparr>hf_dueAt := due, hf_createdAt := created, hf_updatedAt := updated\<rparr>))))))"

definition insert_handoff :: "server_context \<Rightarrow> handoff_row \<Rightarrow> unit srv" where
  "insert_handoff ctx row =
     bind (checked_handoff ctx row) (\<lambda>r. in_db (d_handoffs_update (\<lambda>rows. rows @ [r])))"

definition checked_blocker :: "server_context \<Rightarrow> blocker_row \<Rightarrow> blocker_row srv" where
  "checked_blocker ctx row =
     bind (ts_value ctx (bk_createdAt row)) (\<lambda>created.
     bind (ts_value ctx (bk_updatedAt row)) (\<lambda>updated.
     bind (unique d_blockers (\<lambda>r. bk_id r = bk_id row) ''blockers_pkey'') (\<lambda>_.
     bind (refers_links ''blockers'' (bk_roomId row) (bk_taskId row) (bk_runId row)) (\<lambda>_.
     ret (row\<lparr>bk_createdAt := created, bk_updatedAt := updated\<rparr>)))))"

definition insert_blocker :: "server_context \<Rightarrow> blocker_row \<Rightarrow> unit srv" where
  "insert_blocker ctx row =
     bind (checked_blocker ctx row) (\<lambda>r. in_db (d_blockers_update (\<lambda>rows. rows @ [r])))"

definition checked_goal :: "server_context \<Rightarrow> goal_row \<Rightarrow> goal_row srv" where
  "checked_goal ctx row =
     bind (ts_nullable ctx (gl_runningSince row)) (\<lambda>since.
     bind (ts_value ctx (gl_createdAt row)) (\<lambda>created.
     bind (ts_value ctx (gl_updatedAt row)) (\<lambda>updated.
     bind (unique d_goals (\<lambda>r. gl_id r = gl_id row) ''goals_pkey'') (\<lambda>_.
     bind (refers d_projects pj_id ''goals_project_id_fk'' (gl_projectId row)) (\<lambda>_.
     bind (refers_opt d_rooms rm_id ''goals_room_id_fk'' (gl_roomId row)) (\<lambda>_.
     ret (row\<lparr>gl_runningSince := since, gl_createdAt := created, gl_updatedAt := updated\<rparr>)))))))"

definition insert_goal :: "server_context \<Rightarrow> goal_row \<Rightarrow> unit srv" where
  "insert_goal ctx row = bind (checked_goal ctx row) (\<lambda>r. in_db (d_goals_update (\<lambda>rows. rows @ [r])))"

definition checked_plan :: "server_context \<Rightarrow> plan_row \<Rightarrow> plan_row srv" where
  "checked_plan ctx row =
     bind (ts_nullable ctx (pl_materializedAt row)) (\<lambda>materialized.
     bind (ts_value ctx (pl_createdAt row)) (\<lambda>created.
     bind (ts_nullable ctx (pl_acceptedAt row)) (\<lambda>accepted.
     bind (unique d_plans (\<lambda>r. pl_id r = pl_id row) ''plans_pkey'') (\<lambda>_.
     bind (unique d_plans (\<lambda>r. pl_goalId r = pl_goalId row \<and> pl_version r = pl_version row) ''plans_goal_version_uniq'') (\<lambda>_.
     bind (refers d_goals gl_id ''plans_goal_id_fk'' (pl_goalId row)) (\<lambda>_.
     ret (row\<lparr>pl_materializedAt := materialized, pl_createdAt := created, pl_acceptedAt := accepted\<rparr>)))))))"

definition insert_plan :: "server_context \<Rightarrow> plan_row \<Rightarrow> unit srv" where
  "insert_plan ctx row = bind (checked_plan ctx row) (\<lambda>r. in_db (d_plans_update (\<lambda>rows. rows @ [r])))"

definition checked_checkpoint :: "server_context \<Rightarrow> checkpoint_row \<Rightarrow> checkpoint_row srv" where
  "checked_checkpoint ctx row =
     bind (ts_value ctx (ck_createdAt row)) (\<lambda>created.
     bind (unique d_checkpoints (\<lambda>r. ck_id r = ck_id row) ''checkpoints_pkey'') (\<lambda>_.
     bind (refers d_goals gl_id ''checkpoints_goal_id_fk'' (ck_goalId row)) (\<lambda>_.
     bind (refers_opt d_plans pl_id ''checkpoints_plan_id_fk'' (ck_planId row)) (\<lambda>_.
     ret (row\<lparr>ck_createdAt := created\<rparr>)))))"

definition insert_checkpoint :: "server_context \<Rightarrow> checkpoint_row \<Rightarrow> unit srv" where
  "insert_checkpoint ctx row =
     bind (checked_checkpoint ctx row) (\<lambda>r. in_db (d_checkpoints_update (\<lambda>rows. rows @ [r])))"

section \<open>Updates\<close>

text \<open>\<open>update(table).set(f).where(P)\<close>, given the update function of the table's field.\<close>

definition update_rows ::
  "(('r list \<Rightarrow> 'r list) \<Rightarrow> database \<Rightarrow> database) \<Rightarrow> ('r \<Rightarrow> bool) \<Rightarrow> ('r \<Rightarrow> 'r) \<Rightarrow> unit srv" where
  "update_rows upd P f = in_db (upd (set_rows P f))"

section \<open>Order\<close>

text \<open>
  \<open>orderBy(asc(column))\<close> and \<open>orderBy(desc(column))\<close>. The stored texts of timestamps share one
  format and zone, so they order as the instants do; equal keys keep the order of insertion.
\<close>

definition order_asc :: "('r \<Rightarrow> 'k :: linorder) \<Rightarrow> 'r list \<Rightarrow> 'r list" where
  "order_asc key = sort_by (\<lambda>a b. key a \<le> key b)"

definition order_desc :: "('r \<Rightarrow> 'k :: linorder) \<Rightarrow> 'r list \<Rightarrow> 'r list" where
  "order_desc key = sort_by (\<lambda>a b. key b \<le> key a)"

lemma set_order [simp]: "set (order_asc key rows) = set rows" "set (order_desc key rows) = set rows"
  by (simp_all add: order_asc_def order_desc_def)

section \<open>Frames\<close>

text \<open>An operation leaves a part of the database alone, whether it returns or throws.\<close>

definition leaves :: "(database \<Rightarrow> 'x) \<Rightarrow> 'a srv \<Rightarrow> bool" where
  "leaves part m \<longleftrightarrow> (\<forall>w. part (w_db (snd (m w))) = part (w_db w))"

named_theorems leaves_rules \<open>operations that leave a part of the database alone\<close>

lemma leavesD: "leaves part m \<Longrightarrow> part (w_db (snd (m w))) = part (w_db w)"
  by (simp add: leaves_def)

lemma leaves_run: "leaves part m \<Longrightarrow> m w = (r, w') \<Longrightarrow> part (w_db w') = part (w_db w)"
  using leavesD [of part m w] by simp

lemma leaves_keeps: "leaves part m \<longleftrightarrow> (\<forall>x. keeps (\<lambda>w. part (w_db w) = x) m)"
  by (auto simp: leaves_def keeps_def)

lemma leaves_quiet: "quiet m \<Longrightarrow> (\<And>db. part (db\<lparr>d_events := []\<rparr>) = part db) \<Longrightarrow> leaves part m"
  unfolding leaves_def
proof
  fix w assume m: "quiet m" and part: "\<And>db. part (db\<lparr>d_events := []\<rparr>) = part db"
  have "part (core (snd (m w))) = part (core w)" using quietD [OF m] by simp
  then show "part (w_db (snd (m w))) = part (w_db w)" by (simp add: core_def part)
qed

lemma leaves_ret [leaves_rules]: "leaves part (ret a)"
  and leaves_throw [leaves_rules]: "leaves part (throw e)"
  and leaves_skip [leaves_rules]: "leaves part skip"
  and leaves_guard [leaves_rules]: "leaves part (guard b e)"
  and leaves_gets [leaves_rules]: "leaves part (gets f)"
  and leaves_lift_sum [leaves_rules]: "leaves part (lift_sum g r)"
  by (simp_all add: leaves_keeps keeps_rules)

lemma leaves_bind [leaves_rules]: "leaves part m \<Longrightarrow> (\<And>a. leaves part (f a)) \<Longrightarrow> leaves part (bind m f)"
  by (simp add: leaves_keeps keeps_bind)

lemma leaves_if [leaves_rules]:
  "(b \<Longrightarrow> leaves part m) \<Longrightarrow> (\<not> b \<Longrightarrow> leaves part m') \<Longrightarrow> leaves part (if b then m else m')"
  by simp

lemma leaves_option [leaves_rules]:
  "(v = None \<Longrightarrow> leaves part m) \<Longrightarrow> (\<And>x. v = Some x \<Longrightarrow> leaves part (f x))
     \<Longrightarrow> leaves part (case v of None \<Rightarrow> m | Some x \<Rightarrow> f x)"
  by (cases v) simp_all

lemma leaves_for_each [leaves_rules]: "(\<And>x. x \<in> set xs \<Longrightarrow> leaves part (f x)) \<Longrightarrow> leaves part (for_each xs f)"
  by (simp add: leaves_keeps keeps_for_each)

lemma leaves_for_fold [leaves_rules]:
  "(\<And>acc x. x \<in> set xs \<Longrightarrow> leaves part (f acc x)) \<Longrightarrow> leaves part (for_fold xs acc f)"
  by (simp add: leaves_keeps keeps_for_fold)

lemma leaves_transaction [leaves_rules]: "leaves part m \<Longrightarrow> leaves part (transaction m)"
  unfolding leaves_def
proof
  fix w assume "\<forall>w. part (w_db (snd (m w))) = part (w_db w)"
  then show "part (w_db (snd (transaction m w))) = part (w_db w)"
    using transaction_cases [of m w] by auto
qed

lemma leaves_in_db: "(\<And>db. part (g db) = part db) \<Longrightarrow> leaves part (in_db g)"
  by (simp add: leaves_def in_db_def modify_def)

lemma quiet_leaves: "quiet m \<longleftrightarrow> leaves (\<lambda>db. db\<lparr>d_events := []\<rparr>) m"
  by (simp add: quiet_def keeps_def leaves_def core_def)

lemma quiet_transaction [quiet_rules]: "quiet m \<Longrightarrow> quiet (transaction m)"
  unfolding quiet_leaves by (rule leaves_transaction)

text \<open>An operation only reads: it changes nothing at all, not even the clock.\<close>

definition reads :: "'a srv \<Rightarrow> bool" where
  "reads m \<longleftrightarrow> (\<forall>w. snd (m w) = w)"

named_theorems reads_rules \<open>operations that only read\<close>

lemma readsD: "reads m \<Longrightarrow> m w = (r, w') \<Longrightarrow> w' = w"
  unfolding reads_def by (metis snd_conv)

lemma reads_basic [reads_rules]: "reads (ret a)" "reads (throw e)" "reads skip" "reads (guard b e)" "reads (gets f)"
  by (simp_all add: reads_def ret_def throw_def skip_def guard_def gets_def)

lemma reads_bind [reads_rules]: "reads m \<Longrightarrow> (\<And>a. reads (f a)) \<Longrightarrow> reads (bind m f)"
  unfolding reads_def bind_def by (auto split: prod.split sum.split) (metis snd_conv)+

lemma reads_if [reads_rules]: "(b \<Longrightarrow> reads m) \<Longrightarrow> (\<not> b \<Longrightarrow> reads m') \<Longrightarrow> reads (if b then m else m')"
  by simp

lemma reads_option [reads_rules]:
  "(v = None \<Longrightarrow> reads m) \<Longrightarrow> (\<And>x. v = Some x \<Longrightarrow> reads (f x))
     \<Longrightarrow> reads (case v of None \<Rightarrow> m | Some x \<Rightarrow> f x)"
  by (cases v) simp_all

lemma reads_for_each [reads_rules]: "(\<And>x. x \<in> set xs \<Longrightarrow> reads (f x)) \<Longrightarrow> reads (for_each xs f)"
  by (induction xs) (simp_all add: reads_basic reads_bind)

lemma reads_for_fold [reads_rules]: "(\<And>acc x. x \<in> set xs \<Longrightarrow> reads (f acc x)) \<Longrightarrow> reads (for_fold xs acc f)"
  by (induction xs arbitrary: acc) (simp_all add: reads_basic reads_bind)

lemma reads_sel [reads_rules]: "reads (sel table P)"
  unfolding sel_def by (rule reads_basic)

lemma reads_ts [reads_rules]: "reads (ts_value ctx t)" "reads (ts_nullable ctx v)"
  unfolding ts_nullable_def ts_value_def by (intro reads_rules)+

lemma reads_refuse_if [reads_rules]: "reads (refuse_if bad m)"
  unfolding refuse_if_def by (intro reads_rules)

lemma reads_quiet: "reads m \<Longrightarrow> quiet m"
  by (rule quietI) (simp add: reads_def)

text \<open>The checks of the inserts only read.\<close>

lemma unique_result:
  "unique table same m w = (if list_ex same (table (w_db w)) then (Inl (Db_error m), w) else (Inr (), w))"
  by (simp add: unique_def refuse_if_result)

lemma refers_result:
  "refers table key m i w = (if list_ex (\<lambda>r. key r = i) (table (w_db w)) then (Inr (), w) else (Inl (Db_error m), w))"
  by (simp add: refers_def refuse_if_result)

lemma refers_opt_result:
  "refers_opt table key m v w = (case v of None \<Rightarrow> (Inr (), w) | Some i \<Rightarrow> refers table key m i w)"
  by (simp add: refers_opt_def run_basic split: option.split)

lemmas check_results = unique_result refers_result refers_opt_result ts_value_result ts_nullable_result

text \<open>The same in front of the rest of an operation; none of them changes the state.\<close>

lemma bind_ts_value:
  "bind (ts_value ctx t) f w = (case cx_ts ctx t of
     None \<Rightarrow> (Inl (Db_error ''invalid timestamp''), w) | Some t' \<Rightarrow> f t' w)"
  by (simp add: bind_def ts_value_result split: option.split)

lemma bind_ts_nullable:
  "bind (ts_nullable ctx t) f w = (case t of
     None \<Rightarrow> f None w
   | Some v \<Rightarrow> (case cx_ts ctx v of None \<Rightarrow> (Inl (Db_error ''invalid timestamp''), w) | Some v' \<Rightarrow> f (Some v') w))"
  by (simp add: bind_def ts_nullable_result split: option.split)

lemma bind_unique:
  "bind (unique table same m) f w = (if list_ex same (table (w_db w)) then (Inl (Db_error m), w) else f () w)"
  by (simp add: bind_def unique_result)

lemma bind_refers:
  "bind (refers table key m i) f w = (if list_ex (\<lambda>r. key r = i) (table (w_db w)) then f () w else (Inl (Db_error m), w))"
  by (simp add: bind_def refers_result)

lemma bind_refers_opt:
  "bind (refers_opt table key m v) f w = (case v of
     None \<Rightarrow> f () w | Some i \<Rightarrow> if list_ex (\<lambda>r. key r = i) (table (w_db w)) then f () w else (Inl (Db_error m), w))"
  by (simp add: bind_def refers_opt_result refers_result split: option.split)

lemma bind_assoc: "bind (bind m f) g = bind m (\<lambda>a. bind (f a) g)"
  by (rule ext) (simp add: bind_def split: prod.split sum.split)

lemmas bind_checks = bind_ts_value bind_ts_nullable bind_unique bind_refers bind_refers_opt

lemma distinct_filter_key:
  "distinct (filter Q (map key rows)) \<Longrightarrow> x \<in> set rows \<Longrightarrow> y \<in> set rows \<Longrightarrow> key x = key y \<Longrightarrow> Q (key x) \<Longrightarrow> x = y"
  by (induction rows) (auto simp: image_iff split: if_splits)

lemma map_set_rows: "(\<And>r. key (f r) = key r) \<Longrightarrow> map key (set_rows P f rows) = map key rows"
  by (simp add: set_rows_def)

lemma in_db_run: "in_db f w = (Inr (), w\<lparr>w_db := f (w_db w)\<rparr>)"
  by (simp add: in_db_def modify_def)

lemma update_rows_run: "update_rows upd P f w = (Inr (), w\<lparr>w_db := upd (set_rows P f) (w_db w)\<rparr>)"
  by (simp add: update_rows_def in_db_run)

lemma quiet_refers [quiet_rules]: "quiet (refers table key m i)"
  unfolding refers_def by (intro quiet_rules)

lemma quiet_refers_opt [quiet_rules]: "quiet (refers_opt table key m v)"
  unfolding refers_opt_def by (intro quiet_rules)

lemma quiet_refers_own [quiet_rules]: "quiet (refers_own m i v)"
  unfolding refers_own_def by (intro quiet_rules)

lemma quiet_unique [quiet_rules]: "quiet (unique table same m)"
  unfolding unique_def by (intro quiet_rules)

lemma quiet_refers_links [quiet_rules]: "quiet (refers_links table r t n)"
  unfolding refers_links_def by (intro quiet_rules)

lemma quiet_checked [quiet_rules]:
  "quiet (checked_room ctx a)" "quiet (checked_task ctx b)" "quiet (checked_approval ctx c)"
  "quiet (checked_decision ctx d)" "quiet (checked_handoff ctx e)" "quiet (checked_blocker ctx f)"
  "quiet (checked_goal ctx g)" "quiet (checked_plan ctx h)" "quiet (checked_checkpoint ctx i)"
  unfolding checked_room_def checked_task_def checked_approval_def checked_decision_def checked_handoff_def
    checked_blocker_def checked_goal_def checked_plan_def checked_checkpoint_def
  by (intro quiet_rules)+

end
