(* ===== verification/Execution_State.thy ===== *)
theory Execution_State
  imports Inserts
begin

text \<open>
  \<open>apps/server/src/services/execution-state.ts\<close>: the runs whose process may still be alive although
  the database says they failed, and the runs of a goal that have not settled.
\<close>

section \<open>Joins\<close>

text \<open>\<open>from(a).innerJoin(b, eq(b.id, a.ref))\<close>: the pairs in the order of the first table.\<close>

definition inner_join :: "('a \<Rightarrow> 'b \<Rightarrow> bool) \<Rightarrow> 'a list \<Rightarrow> 'b list \<Rightarrow> ('a \<times> 'b) list" where
  "inner_join on xs ys = concat (map (\<lambda>x. map (Pair x) (filter (on x) ys)) xs)"

definition sel_runs_tasks :: "(run_row \<times> task_row \<Rightarrow> bool) \<Rightarrow> (run_row \<times> task_row) list srv" where
  "sel_runs_tasks P =
     gets (\<lambda>w. filter P (inner_join (\<lambda>r t. tk_id t = rn_taskId r) (d_runs (w_db w)) (d_tasks (w_db w))))"

definition sel_leases_tasks :: "(lease_row \<times> task_row \<Rightarrow> bool) \<Rightarrow> (lease_row \<times> task_row) list srv" where
  "sel_leases_tasks P =
     gets (\<lambda>w. filter P (inner_join (\<lambda>l t. tk_id t = fl_taskId l) (d_leases (w_db w)) (d_tasks (w_db w))))"

lemma set_inner_join: "set (inner_join on xs ys) = {(x, y). x \<in> set xs \<and> y \<in> set ys \<and> on x y}"
  by (auto simp: inner_join_def)

section \<open>Unconfirmed disconnects\<close>

record run_filter =
  rf_goalId :: "ident option"
  rf_computerId :: "ident option"
  rf_taskId :: "ident option"
  rf_agentInstanceId :: "ident option"

definition no_filter :: run_filter where
  "no_filter = \<lparr>rf_goalId = None, rf_computerId = None, rf_taskId = None, rf_agentInstanceId = None\<rparr>"

text \<open>
  \<open>filter.x ? eq(column, filter.x) : undefined\<close>: an absent or empty filter leaves the condition out.
\<close>

definition opt_eq :: "string option \<Rightarrow> string option \<Rightarrow> bool" where
  "opt_eq f column = (case f of None \<Rightarrow> True | Some v \<Rightarrow> v = [] \<or> column = Some v)"

definition disconnect_candidate :: "server_context \<Rightarrow> run_filter \<Rightarrow> run_row \<times> task_row \<Rightarrow> bool" where
  "disconnect_candidate ctx f p =
     (case p of (r, t) \<Rightarrow>
        rn_organizationId r = cx_organizationId ctx \<and> tk_organizationId t = cx_organizationId ctx
        \<and> rn_status r = RS_failed \<and> rn_failureReason r = Some ''daemon_disconnect''
        \<and> opt_eq (rf_goalId f) (tk_goalId t) \<and> opt_eq (rf_computerId f) (Some (rn_computerId r))
        \<and> opt_eq (rf_taskId f) (Some (rn_taskId r))
        \<and> opt_eq (rf_agentInstanceId f) (Some (rn_agentInstanceId r)))"

text \<open>The payload is an object, so the test is that its \<open>process_exit_confirmed\<close> is true.\<close>

definition confirms_exit :: "event_row \<Rightarrow> bool" where
  "confirms_exit e = (map_of (ev_payload e) ''process_exit_confirmed'' = Some (JBool True))"

definition unconfirmedDisconnectRunIds :: "server_context \<Rightarrow> run_filter \<Rightarrow> ident list srv" where
  "unconfirmedDisconnectRunIds ctx f =
     bind (sel_runs_tasks (disconnect_candidate ctx f)) (\<lambda>pairs.
     let candidates = map (\<lambda>p. rn_id (fst p)) pairs in
     if length candidates = 0 then ret []
     else
       bind (sel d_events (\<lambda>e. ev_organizationId e = cx_organizationId ctx
               \<and> (case ev_runId e of None \<Rightarrow> False | Some r \<Rightarrow> List.member candidates r)
               \<and> List.member [''run.failed'', ''run.reconciled''] (ev_type e))) (\<lambda>evidence.
       let confirmed = map ev_runId (filter confirms_exit evidence) in
       ret (filter (\<lambda>i. \<not> List.member confirmed (Some i)) candidates)))"

section \<open>Runs of a goal that have not settled\<close>

definition run_over :: "run_status \<Rightarrow> bool" where
  "run_over s = List.member [RS_completed, RS_failed, RS_cancelled] s"

definition unsettledGoalRunIds :: "server_context \<Rightarrow> ident \<Rightarrow> ident list srv" where
  "unsettledGoalRunIds ctx goalId =
     bind (sel_runs_tasks (\<lambda>(r, t). rn_organizationId r = cx_organizationId ctx
             \<and> tk_organizationId t = cx_organizationId ctx \<and> tk_goalId t = Some goalId
             \<and> \<not> run_over (rn_status r))) (\<lambda>live.
     bind (sel_leases_tasks (\<lambda>(l, t). fl_organizationId l = cx_organizationId ctx
             \<and> tk_organizationId t = cx_organizationId ctx \<and> tk_goalId t = Some goalId
             \<and> fl_status l = LS_held)) (\<lambda>held.
     bind (unconfirmedDisconnectRunIds ctx (no_filter\<lparr>rf_goalId := Some goalId\<rparr>)) (\<lambda>unconfirmed.
     ret (set_list (map (\<lambda>p. rn_id (fst p)) live
            @ concat (map (\<lambda>p. case fl_runId (fst p) of None \<Rightarrow> [] | Some r \<Rightarrow> [r]) held)
            @ unconfirmed)))))"

lemma quiet_unconfirmed [quiet_rules]: "quiet (unconfirmedDisconnectRunIds ctx f)"
  unfolding unconfirmedDisconnectRunIds_def sel_runs_tasks_def Let_def by (intro quiet_rules)

lemma quiet_unsettled [quiet_rules]: "quiet (unsettledGoalRunIds ctx g)"
  unfolding unsettledGoalRunIds_def sel_runs_tasks_def sel_leases_tasks_def by (intro quiet_rules)

section \<open>What they answer\<close>

text \<open>A run whose process is still in doubt: it failed by a disconnect and no event confirms the exit.\<close>

definition exit_confirmed :: "server_context \<Rightarrow> database \<Rightarrow> ident \<Rightarrow> bool" where
  "exit_confirmed ctx db i \<longleftrightarrow> (\<exists>e \<in> set (d_events db). ev_organizationId e = cx_organizationId ctx
     \<and> ev_runId e = Some i \<and> ev_type e \<in> {''run.failed'', ''run.reconciled''} \<and> confirms_exit e)"

lemma unconfirmed_run:
  "\<exists>ids. unconfirmedDisconnectRunIds ctx f w = (Inr ids, w)
     \<and> set ids = {rn_id r | r t. r \<in> set (d_runs (w_db w)) \<and> t \<in> set (d_tasks (w_db w)) \<and> tk_id t = rn_taskId r
          \<and> disconnect_candidate ctx f (r, t) \<and> \<not> exit_confirmed ctx (w_db w) (rn_id r)}"
proof -
  define pairs where "pairs = filter (disconnect_candidate ctx f)
      (inner_join (\<lambda>r t. tk_id t = rn_taskId r) (d_runs (w_db w)) (d_tasks (w_db w)))"
  define candidates where "candidates = map (\<lambda>p. rn_id (fst p)) pairs"
  define confirmed where "confirmed = map ev_runId (filter confirms_exit (filter (\<lambda>e.
      ev_organizationId e = cx_organizationId ctx
      \<and> (case ev_runId e of None \<Rightarrow> False | Some r \<Rightarrow> List.member candidates r)
      \<and> List.member [''run.failed'', ''run.reconciled''] (ev_type e)) (d_events (w_db w))))"
  have confirmed: "Some i \<in> set confirmed \<longleftrightarrow> exit_confirmed ctx (w_db w) i" if "i \<in> set candidates" for i
    using that by (fastforce simp: confirmed_def exit_confirmed_def image_iff)
  have pairs: "set pairs = {(r, t). r \<in> set (d_runs (w_db w)) \<and> t \<in> set (d_tasks (w_db w)) \<and> tk_id t = rn_taskId r
      \<and> disconnect_candidate ctx f (r, t)}"
    by (auto simp: pairs_def set_inner_join)
  let ?ids = "filter (\<lambda>i. \<not> List.member confirmed (Some i)) candidates"
  have "unconfirmedDisconnectRunIds ctx f w = (Inr ?ids, w)"
    unfolding confirmed_def candidates_def pairs_def
    by (simp add: unconfirmedDisconnectRunIds_def sel_runs_tasks_def bind_def gets_def Let_def sel_def ret_def
        del: List.member_iff)
  moreover have "set ?ids = {i \<in> set candidates. \<not> exit_confirmed ctx (w_db w) i}"
    using confirmed by auto
  moreover have "set candidates = {rn_id r | r t. (r, t) \<in> set pairs}"
    by (force simp: candidates_def)
  ultimately show ?thesis unfolding pairs by (intro exI [of _ ?ids]) auto
qed

end
