(* ===== verification/Collaboration_Service.thy ===== *)
theory Collaboration_Service
  imports Inserts
begin

text \<open>
  \<open>apps/server/src/services/collaboration-service.ts\<close>: the records of a team's discussion, that is
  decisions, handoffs and blockers. A record is written by one statement and its event by a
  transaction of its own.
\<close>

section \<open>Records and rows\<close>

record decision_record = base_links +
  dc_id :: ident
  dc_organization_id :: ident
  dc_source_message_id :: "ident option"
  dc_status :: decision_status
  dc_actor_type :: actor_type
  dc_actor_id :: ident
  dc_summary :: string
  dc_rationale :: "string option"
  dc_alternatives :: "string list"
  dc_evidence_refs :: "string list"
  dc_impact_summary :: "string option"
  dc_superseded_by_id :: "ident option"
  dc_created_at :: iso_time
  dc_updated_at :: iso_time

definition mapDecision :: "decision_row \<Rightarrow> decision_record" where
  "mapDecision r = \<lparr>bl_room_id = dr_roomId r, bl_task_id = dr_taskId r, bl_run_id = dr_runId r,
     bl_goal_id = dr_goalId r, bl_plan_id = dr_planId r, dc_id = dr_id r, dc_organization_id = dr_organizationId r,
     dc_source_message_id = dr_sourceMessageId r, dc_status = dr_status r, dc_actor_type = dr_actorType r,
     dc_actor_id = dr_actorId r, dc_summary = dr_summary r, dc_rationale = dr_rationale r,
     dc_alternatives = dr_alternatives r, dc_evidence_refs = dr_evidenceRefs r,
     dc_impact_summary = dr_impactSummary r, dc_superseded_by_id = dr_supersededById r,
     dc_created_at = dr_createdAt r, dc_updated_at = dr_updatedAt r\<rparr>"

definition mapHandoff :: "handoff_row \<Rightarrow> handoff_record" where
  "mapHandoff r = \<lparr>bl_room_id = hf_roomId r, bl_task_id = hf_taskId r, bl_run_id = hf_runId r,
     bl_goal_id = hf_goalId r, bl_plan_id = hf_planId r, ho_id = hf_id r, ho_organization_id = hf_organizationId r,
     ho_sender_type = hf_senderType r, ho_sender_id = hf_senderId r, ho_recipient_type = hf_recipientType r,
     ho_recipient_id = hf_recipientId r, ho_expected_action = hf_expectedAction r,
     ho_blocking_condition = hf_blockingCondition r, ho_priority = hf_priority r, ho_due_at = hf_dueAt r,
     ho_status = hf_status r, ho_next_action = hf_nextAction r, ho_latest_status = hf_latestStatus r,
     ho_created_at = hf_createdAt r, ho_updated_at = hf_updatedAt r\<rparr>"

definition mapBlocker :: "blocker_row \<Rightarrow> blocker_record" where
  "mapBlocker r = \<lparr>bl_room_id = bk_roomId r, bl_task_id = bk_taskId r, bl_run_id = bk_runId r,
     bl_goal_id = bk_goalId r, bl_plan_id = bk_planId r, blk_id = bk_id r, blk_organization_id = bk_organizationId r,
     blk_type = bk_type r, blk_owner_type = bk_ownerType r, blk_owner_id = bk_ownerId r,
     blk_source_kind = bk_sourceKind r, blk_source_id = bk_sourceId r, blk_summary = bk_summary r,
     blk_mitigation = bk_mitigation r, blk_next_action = bk_nextAction r, blk_status = bk_status r,
     blk_created_at = bk_createdAt r, blk_updated_at = bk_updatedAt r\<rparr>"

fun actor_type_text :: "actor_type \<Rightarrow> string" where
  "actor_type_text Act_user = ''user''"
| "actor_type_text Act_agent = ''agent''"
| "actor_type_text Act_system = ''system''"
| "actor_type_text Act_bridge = ''bridge''"

fun decision_status_text :: "decision_status \<Rightarrow> string" where
  "decision_status_text DS_proposed = ''proposed''"
| "decision_status_text DS_accepted = ''accepted''"
| "decision_status_text DS_rejected = ''rejected''"
| "decision_status_text DS_superseded = ''superseded''"

fun handoff_status_text :: "handoff_status \<Rightarrow> string" where
  "handoff_status_text HO_open = ''open''"
| "handoff_status_text HO_accepted = ''accepted''"
| "handoff_status_text HO_completed = ''completed''"
| "handoff_status_text HO_cancelled = ''cancelled''"
| "handoff_status_text HO_expired = ''expired''"

fun blocker_status_text :: "blocker_status \<Rightarrow> string" where
  "blocker_status_text Blk_open = ''open''"
| "blocker_status_text Blk_mitigated = ''mitigated''"
| "blocker_status_text Blk_accepted_risk = ''accepted_risk''"
| "blocker_status_text Blk_resolved = ''resolved''"

fun blocker_type_text :: "blocker_type \<Rightarrow> string" where
  "blocker_type_text BT_approval = ''approval''"
| "blocker_type_text BT_dependency = ''dependency''"
| "blocker_type_text BT_lease_conflict = ''lease_conflict''"
| "blocker_type_text BT_offline_agent = ''offline_agent''"
| "blocker_type_text BT_stale_runtime = ''stale_runtime''"
| "blocker_type_text BT_policy = ''policy''"
| "blocker_type_text BT_budget = ''budget''"
| "blocker_type_text BT_failed_run = ''failed_run''"
| "blocker_type_text BT_missing_artifact = ''missing_artifact''"
| "blocker_type_text BT_human_input = ''human_input''"

fun source_kind_text :: "blocker_source_kind \<Rightarrow> string" where
  "source_kind_text BS_approval = ''approval''"
| "source_kind_text BS_dag = ''dag''"
| "source_kind_text BS_lease = ''lease''"
| "source_kind_text BS_run = ''run''"
| "source_kind_text BS_presence = ''presence''"
| "source_kind_text BS_manual = ''manual''"

section \<open>Links\<close>

definition emit_record :: "server_context \<Rightarrow> string \<Rightarrow> ident \<Rightarrow> ident \<Rightarrow> json_object \<Rightarrow> unit srv" where
  "emit_record ctx ty correlationId roomId payload =
     transaction (emit ctx ((event_of ty Act_system ''system'' correlationId)\<lparr>es_roomId := Some roomId,
       es_payload := payload\<rparr>))"

text \<open>\<open>RecordLinks & { source_message_id }\<close>.\<close>

record record_links = base_links +
  lk_source_message_id :: "ident option"

definition requireRoom :: "server_context \<Rightarrow> ident \<Rightarrow> room_row srv" where
  "requireRoom ctx roomId =
     bind (sel d_rooms (\<lambda>r. rm_id r = roomId \<and> rm_organizationId r = cx_organizationId ctx)) (\<lambda>rows.
     case first rows of
       None \<Rightarrow> throw (notFound (''room not found: '' @ roomId) [(''room_id'', JStr roomId)])
     | Some room \<Rightarrow> ret room)"

text \<open>\<open>input.source_message_id != null && input.source_message_id !== ""\<close>.\<close>

definition given :: "string option \<Rightarrow> bool" where
  "given v = (case v of None \<Rightarrow> False | Some x \<Rightarrow> x \<noteq> [])"

definition assertOptionalLinks :: "server_context \<Rightarrow> record_links \<Rightarrow> unit srv" where
  "assertOptionalLinks ctx input =
     bind (requireRoom ctx (bl_room_id input)) (\<lambda>_.
     bind (case bl_task_id input of
             None \<Rightarrow> skip
           | Some i \<Rightarrow> bind (sel d_tasks (\<lambda>t. tk_id t = i \<and> tk_organizationId t = cx_organizationId ctx)) (\<lambda>rows.
               guard (rows \<noteq> []) (notFound (''task not found: '' @ i) [(''task_id'', JStr i)]))) (\<lambda>_.
     bind (case bl_run_id input of
             None \<Rightarrow> skip
           | Some i \<Rightarrow> bind (sel d_runs (\<lambda>r. rn_id r = i \<and> rn_organizationId r = cx_organizationId ctx)) (\<lambda>rows.
               guard (rows \<noteq> []) (notFound (''run not found: '' @ i) [(''run_id'', JStr i)]))) (\<lambda>_.
     if \<not> given (lk_source_message_id input) then skip
     else
       (let i = the (lk_source_message_id input) in
        bind (sel d_messages (\<lambda>m. msg_id m = i \<and> msg_organizationId m = cx_organizationId ctx)) (\<lambda>rows.
        case first rows of
          None \<Rightarrow> throw (notFound (''message not found: '' @ i) [(''message_id'', JStr i)])
        | Some m \<Rightarrow> guard (msg_roomId m = bl_room_id input)
            (validation ''source_message_id must belong to the target room''
              [(''room_id'', JStr (bl_room_id input)), (''source_message_id'', JStr i)]))))))"

section \<open>Decisions\<close>

record create_decision_input = record_links +
  ci_actor_type :: actor_type
  ci_actor_id :: ident
  ci_summary :: string
  ci_rationale :: "string option"
  ci_alternatives :: "string list option"
  ci_evidence_refs :: "string list option"
  ci_impact_summary :: "string option"

definition getDecision :: "server_context \<Rightarrow> ident \<Rightarrow> decision_record option srv" where
  "getDecision ctx i =
     bind (sel d_decisions (\<lambda>r. dr_id r = i \<and> dr_organizationId r = cx_organizationId ctx)) (\<lambda>rows.
     ret (map_option mapDecision (first rows)))"

definition promoted :: "server_context \<Rightarrow> ident option \<Rightarrow> decision_row option srv" where
  "promoted ctx source =
     (if \<not> given source then ret None
      else bind (sel d_decisions (\<lambda>r. dr_organizationId r = cx_organizationId ctx \<and> dr_sourceMessageId r = source))
             (\<lambda>rows. ret (first rows)))"

definition createDecision :: "server_context \<Rightarrow> create_decision_input \<Rightarrow> decision_record option srv" where
  "createDecision ctx input =
     bind (assertOptionalLinks ctx (record_links.truncate input)) (\<lambda>_.
     bind (promoted ctx (lk_source_message_id input)) (\<lambda>existing.
     case existing of
       Some e \<Rightarrow> ret (Some (mapDecision e))
     | None \<Rightarrow>
         bind (nowIso ctx) (\<lambda>now.
         bind (generate ctx IP_decision) (\<lambda>i.
         bind (insert_decision ctx \<lparr>dr_id = i, dr_organizationId = cx_organizationId ctx,
                 dr_roomId = bl_room_id input, dr_taskId = bl_task_id input, dr_runId = bl_run_id input,
                 dr_goalId = bl_goal_id input, dr_planId = bl_plan_id input,
                 dr_sourceMessageId = lk_source_message_id input, dr_status = DS_proposed,
                 dr_actorType = ci_actor_type input, dr_actorId = ci_actor_id input,
                 dr_summary = ci_summary input, dr_rationale = ci_rationale input,
                 dr_alternatives = (case ci_alternatives input of None \<Rightarrow> [] | Some l \<Rightarrow> l),
                 dr_evidenceRefs = (case ci_evidence_refs input of None \<Rightarrow> [] | Some l \<Rightarrow> l),
                 dr_impactSummary = ci_impact_summary input, dr_supersededById = None,
                 dr_createdAt = now, dr_updatedAt = now\<rparr>) (\<lambda>_.
         bind (emit_record ctx ''decision.proposed'' i (bl_room_id input)
                 [(''decision_id'', JStr i), (''status'', JStr ''proposed''),
                  (''actor_type'', JStr (actor_type_text (ci_actor_type input))),
                  (''actor_id'', JStr (ci_actor_id input))]) (\<lambda>_.
         getDecision ctx i))))))"

text \<open>\<open>opts.x ?? existing.x\<close>.\<close>

definition coalesce :: "'a option \<Rightarrow> 'a option \<Rightarrow> 'a option" where
  "coalesce new old = (case new of None \<Rightarrow> old | Some _ \<Rightarrow> new)"

definition setDecisionStatus ::
  "server_context \<Rightarrow> ident \<Rightarrow> decision_status \<Rightarrow> ident option \<Rightarrow> decision_record option srv" where
  "setDecisionStatus ctx i status superseded_by_id =
     bind (getDecision ctx i) (\<lambda>found.
     case found of
       None \<Rightarrow> ret None
     | Some existing \<Rightarrow>
         bind (nowIso ctx) (\<lambda>now.
         bind (ts_value ctx now) (\<lambda>updated.
         bind (update_rows d_decisions_update
                 (\<lambda>r. dr_id r = i \<and> dr_organizationId r = cx_organizationId ctx)
                 (\<lambda>r. r\<lparr>dr_status := status,
                        dr_supersededById := coalesce superseded_by_id (dc_superseded_by_id existing),
                        dr_updatedAt := updated\<rparr>)) (\<lambda>_.
         bind (emit_record ctx (''decision.'' @ decision_status_text status) i (bl_room_id existing)
                 [(''decision_id'', JStr i), (''from'', JStr (decision_status_text (dc_status existing))),
                  (''to'', JStr (decision_status_text status))]) (\<lambda>_.
         getDecision ctx i)))))"

definition listDecisions :: "server_context \<Rightarrow> ident \<Rightarrow> decision_record list srv" where
  "listDecisions ctx roomId =
     bind (requireRoom ctx roomId) (\<lambda>_.
     bind (sel d_decisions (\<lambda>r. dr_organizationId r = cx_organizationId ctx \<and> dr_roomId r = roomId)) (\<lambda>rows.
     ret (map mapDecision (order_desc dr_createdAt rows))))"

section \<open>Handoffs\<close>

record create_handoff_input = base_links +
  hi_sender_type :: actor_type
  hi_sender_id :: ident
  hi_recipient_type :: actor_type
  hi_recipient_id :: ident
  hi_expected_action :: string
  hi_blocking_condition :: "string option"
  hi_priority :: "handoff_priority option"
  hi_due_at :: "iso_time option"

text \<open>An input that has no \<open>source_message_id\<close>.\<close>

definition links_of :: "base_links \<Rightarrow> record_links" where
  "links_of b = base_links.extend b \<lparr>lk_source_message_id = None\<rparr>"

definition getHandoff :: "server_context \<Rightarrow> ident \<Rightarrow> handoff_record option srv" where
  "getHandoff ctx i =
     bind (sel d_handoffs (\<lambda>r. hf_id r = i \<and> hf_organizationId r = cx_organizationId ctx)) (\<lambda>rows.
     ret (map_option mapHandoff (first rows)))"

definition createHandoff :: "server_context \<Rightarrow> create_handoff_input \<Rightarrow> handoff_record option srv" where
  "createHandoff ctx input =
     bind (assertOptionalLinks ctx (links_of (base_links.truncate input))) (\<lambda>_.
     bind (nowIso ctx) (\<lambda>now.
     bind (generate ctx IP_handoff) (\<lambda>i.
     bind (insert_handoff ctx \<lparr>hf_id = i, hf_organizationId = cx_organizationId ctx,
             hf_roomId = bl_room_id input, hf_taskId = bl_task_id input, hf_runId = bl_run_id input,
             hf_goalId = bl_goal_id input, hf_planId = bl_plan_id input,
             hf_senderType = hi_sender_type input, hf_senderId = hi_sender_id input,
             hf_recipientType = hi_recipient_type input, hf_recipientId = hi_recipient_id input,
             hf_expectedAction = hi_expected_action input, hf_blockingCondition = hi_blocking_condition input,
             hf_priority = hi_priority input, hf_dueAt = hi_due_at input, hf_status = HO_open,
             hf_nextAction = None, hf_latestStatus = None, hf_createdAt = now, hf_updatedAt = now\<rparr>) (\<lambda>_.
     bind (emit_record ctx ''handoff.opened'' i (bl_room_id input)
             [(''handoff_id'', JStr i), (''sender_type'', JStr (actor_type_text (hi_sender_type input))),
              (''sender_id'', JStr (hi_sender_id input)),
              (''recipient_type'', JStr (actor_type_text (hi_recipient_type input))),
              (''recipient_id'', JStr (hi_recipient_id input))]) (\<lambda>_.
     getHandoff ctx i)))))"

definition setHandoffStatus ::
  "server_context \<Rightarrow> ident \<Rightarrow> handoff_status \<Rightarrow> string option \<Rightarrow> string option \<Rightarrow> handoff_record option srv" where
  "setHandoffStatus ctx i status next_action latest_status =
     bind (getHandoff ctx i) (\<lambda>found.
     case found of
       None \<Rightarrow> ret None
     | Some existing \<Rightarrow>
         bind (nowIso ctx) (\<lambda>now.
         bind (ts_value ctx now) (\<lambda>updated.
         bind (update_rows d_handoffs_update
                 (\<lambda>r. hf_id r = i \<and> hf_organizationId r = cx_organizationId ctx)
                 (\<lambda>r. r\<lparr>hf_status := status, hf_nextAction := coalesce next_action (ho_next_action existing),
                        hf_latestStatus := coalesce latest_status (ho_latest_status existing),
                        hf_updatedAt := updated\<rparr>)) (\<lambda>_.
         bind (emit_record ctx (''handoff.'' @ (if status = HO_open then ''opened'' else handoff_status_text status))
                 i (bl_room_id existing)
                 [(''handoff_id'', JStr i), (''from'', JStr (handoff_status_text (ho_status existing))),
                  (''to'', JStr (handoff_status_text status))]) (\<lambda>_.
         getHandoff ctx i)))))"

definition listHandoffs :: "server_context \<Rightarrow> ident \<Rightarrow> handoff_record list srv" where
  "listHandoffs ctx roomId =
     bind (requireRoom ctx roomId) (\<lambda>_.
     bind (sel d_handoffs (\<lambda>r. hf_organizationId r = cx_organizationId ctx \<and> hf_roomId r = roomId)) (\<lambda>rows.
     ret (map mapHandoff (order_desc hf_createdAt rows))))"

definition whoWaitsOnWhom :: "server_context \<Rightarrow> ident option \<Rightarrow> wait_edge list srv" where
  "whoWaitsOnWhom ctx roomId =
     bind (case roomId of None \<Rightarrow> skip | Some r \<Rightarrow> bind (requireRoom ctx r) (\<lambda>_. skip)) (\<lambda>_.
     bind (sel d_handoffs (\<lambda>h. hf_organizationId h = cx_organizationId ctx
             \<and> (case roomId of None \<Rightarrow> True | Some r \<Rightarrow> hf_roomId h = r))) (\<lambda>rows.
     ret (waitEdgesFromHandoffs (map mapHandoff rows))))"

section \<open>Blockers\<close>

record create_blocker_input = base_links +
  bi_type :: blocker_type
  bi_owner_type :: actor_type
  bi_owner_id :: ident
  bi_source_kind :: "blocker_source_kind option"
  bi_source_id :: "ident option"
  bi_summary :: string
  bi_mitigation :: "string option"
  bi_next_action :: "string option"

definition getBlocker :: "server_context \<Rightarrow> ident \<Rightarrow> blocker_record option srv" where
  "getBlocker ctx i =
     bind (sel d_blockers (\<lambda>r. bk_id r = i \<and> bk_organizationId r = cx_organizationId ctx)) (\<lambda>rows.
     ret (map_option mapBlocker (first rows)))"

definition createBlocker :: "server_context \<Rightarrow> create_blocker_input \<Rightarrow> blocker_record option srv" where
  "createBlocker ctx input =
     bind (assertOptionalLinks ctx (links_of (base_links.truncate input))) (\<lambda>_.
     bind (nowIso ctx) (\<lambda>now.
     bind (generate ctx IP_blocker) (\<lambda>i.
     bind (insert_blocker ctx \<lparr>bk_id = i, bk_organizationId = cx_organizationId ctx,
             bk_roomId = bl_room_id input, bk_taskId = bl_task_id input, bk_runId = bl_run_id input,
             bk_goalId = bl_goal_id input, bk_planId = bl_plan_id input, bk_type = bi_type input,
             bk_ownerType = bi_owner_type input, bk_ownerId = bi_owner_id input,
             bk_sourceKind = bi_source_kind input, bk_sourceId = bi_source_id input,
             bk_summary = bi_summary input, bk_mitigation = bi_mitigation input,
             bk_nextAction = bi_next_action input, bk_status = Blk_open,
             bk_createdAt = now, bk_updatedAt = now\<rparr>) (\<lambda>_.
     bind (emit_record ctx ''blocker.opened'' i (bl_room_id input)
             [(''blocker_id'', JStr i), (''type'', JStr (blocker_type_text (bi_type input))),
              (''owner_type'', JStr (actor_type_text (bi_owner_type input))),
              (''owner_id'', JStr (bi_owner_id input)),
              (''source_kind'', jopt (map_option source_kind_text (bi_source_kind input)))]) (\<lambda>_.
     getBlocker ctx i)))))"

fun blocker_event_type :: "blocker_status \<Rightarrow> string" where
  "blocker_event_type Blk_mitigated = ''blocker.mitigated''"
| "blocker_event_type Blk_resolved = ''blocker.resolved''"
| "blocker_event_type Blk_accepted_risk = ''blocker.accepted_risk''"
| "blocker_event_type Blk_open = ''blocker.opened''"

definition setBlockerStatus ::
  "server_context \<Rightarrow> ident \<Rightarrow> blocker_status \<Rightarrow> string option \<Rightarrow> string option \<Rightarrow> blocker_record option srv" where
  "setBlockerStatus ctx i status mitigation next_action =
     bind (getBlocker ctx i) (\<lambda>found.
     case found of
       None \<Rightarrow> ret None
     | Some existing \<Rightarrow>
         bind (nowIso ctx) (\<lambda>now.
         bind (ts_value ctx now) (\<lambda>updated.
         bind (update_rows d_blockers_update
                 (\<lambda>r. bk_id r = i \<and> bk_organizationId r = cx_organizationId ctx)
                 (\<lambda>r. r\<lparr>bk_status := status, bk_mitigation := coalesce mitigation (blk_mitigation existing),
                        bk_nextAction := coalesce next_action (blk_next_action existing),
                        bk_updatedAt := updated\<rparr>)) (\<lambda>_.
         bind (emit_record ctx (blocker_event_type status) i (bl_room_id existing)
                 [(''blocker_id'', JStr i), (''from'', JStr (blocker_status_text (blk_status existing))),
                  (''to'', JStr (blocker_status_text status))]) (\<lambda>_.
         getBlocker ctx i)))))"

definition resolve_one ::
  "server_context \<Rightarrow> blocker_source_kind \<Rightarrow> ident \<Rightarrow> ident list \<Rightarrow> blocker_row \<Rightarrow> ident list srv" where
  "resolve_one ctx sourceKind sourceId resolved r =
     (if bk_status r = Blk_open \<or> bk_status r = Blk_mitigated
      then
        bind (setBlockerStatus ctx (bk_id r) Blk_resolved
                (Some (''auto-resolved by '' @ source_kind_text sourceKind @ '' '' @ sourceId)) None) (\<lambda>_.
        ret (resolved @ [bk_id r]))
      else ret resolved)"

definition resolveBlockersForSource :: "server_context \<Rightarrow> blocker_source_kind \<Rightarrow> ident \<Rightarrow> ident list srv" where
  "resolveBlockersForSource ctx sourceKind sourceId =
     bind (sel d_blockers (\<lambda>b. bk_organizationId b = cx_organizationId ctx \<and> bk_sourceKind b = Some sourceKind
             \<and> bk_sourceId b = Some sourceId)) (\<lambda>rows.
     for_fold rows [] (resolve_one ctx sourceKind sourceId))"

definition listBlockers :: "server_context \<Rightarrow> ident \<Rightarrow> blocker_record list srv" where
  "listBlockers ctx roomId =
     bind (requireRoom ctx roomId) (\<lambda>_.
     bind (sel d_blockers (\<lambda>b. bk_organizationId b = cx_organizationId ctx \<and> bk_roomId b = roomId)) (\<lambda>rows.
     ret (map mapBlocker (order_desc bk_createdAt rows))))"

section \<open>Automatic resolution\<close>

lemma quiet_emit_record [quiet_rules]: "quiet (emit_record ctx ty c r p)"
  unfolding emit_record_def by (intro quiet_rules)

lemma emit_record_run: "emit_record ctx ty c r p w = (x, w') \<Longrightarrow> core w' = core w"
  by (rule quiet_run [OF quiet_emit_record])

definition blocker_of :: "server_context \<Rightarrow> ident \<Rightarrow> blocker_row \<Rightarrow> bool" where
  "blocker_of ctx i r \<longleftrightarrow> bk_id r = i \<and> bk_organizationId r = cx_organizationId ctx"

lemma getBlocker_run: "getBlocker ctx i w = (Inr (map_option mapBlocker (find (blocker_of ctx i) (d_blockers (w_db w)))), w)"
  by (simp add: getBlocker_def bind_sel run_basic first_filter blocker_of_def [abs_def])

lemma setBlockerStatus_run:
  assumes "setBlockerStatus ctx i status mitigation next_action w = (Inr res, w')"
    and "find (blocker_of ctx i) (d_blockers (w_db w)) = Some e"
  shows "\<exists>t. core w' = (core w)\<lparr>d_blockers := set_rows (blocker_of ctx i) (\<lambda>r. r\<lparr>bk_status := status,
      bk_mitigation := coalesce mitigation (bk_mitigation e), bk_nextAction := coalesce next_action (bk_nextAction e),
      bk_updatedAt := t\<rparr>) (d_blockers (w_db w))\<rparr>"
proof -
  define now where "now = cx_now ctx (w_clock w)"
  from assms obtain t x w2 where
    ts: "cx_ts ctx now = Some t"
    and emitted: "emit_record ctx (blocker_event_type status) i (bk_roomId e)
        [(''blocker_id'', JStr i), (''from'', JStr (blocker_status_text (bk_status e))),
         (''to'', JStr (blocker_status_text status))]
        (w\<lparr>w_clock := w_clock w + 1, w_db := d_blockers_update (set_rows (blocker_of ctx i) (\<lambda>r. r\<lparr>bk_status := status,
           bk_mitigation := coalesce mitigation (bk_mitigation e), bk_nextAction := coalesce next_action (bk_nextAction e),
           bk_updatedAt := t\<rparr>)) (w_db w)\<rparr>) = (Inr x, w2)"
    and last: "getBlocker ctx i w2 = (Inr res, w')"
    unfolding setBlockerStatus_def bind_run [OF getBlocker_run]
    by (auto simp: bind_nowIso bind_Inr ts_value_result update_rows_run blocker_of_def [abs_def] mapBlocker_def now_def
        split: option.splits)
  from last have "w' = w2" by (simp add: getBlocker_run)
  with emit_record_run [OF emitted] show ?thesis by (intro exI [of _ t]) (simp add: core_def)
qed

text \<open>What happened to a row when the blockers of \<open>ids\<close> were resolved for a source.\<close>

definition resolved_row :: "server_context \<Rightarrow> string \<Rightarrow> ident list \<Rightarrow> blocker_row \<Rightarrow> blocker_row \<Rightarrow> bool" where
  "resolved_row ctx note ids r r' \<longleftrightarrow>
     (if bk_id r \<in> set ids \<and> bk_organizationId r = cx_organizationId ctx
      then \<exists>t. r' = r\<lparr>bk_status := Blk_resolved, bk_mitigation := Some note, bk_updatedAt := t\<rparr> else r' = r)"

definition active_for :: "server_context \<Rightarrow> blocker_source_kind \<Rightarrow> ident \<Rightarrow> blocker_row \<Rightarrow> bool" where
  "active_for ctx kind source b \<longleftrightarrow> bk_organizationId b = cx_organizationId ctx \<and> bk_sourceKind b = Some kind
     \<and> bk_sourceId b = Some source \<and> isActiveBlocker (bk_status b)"

lemma list_all2_left: "list_all2 R xs ys \<Longrightarrow> x \<in> set xs \<Longrightarrow> \<exists>y \<in> set ys. R x y"
  by (induction rule: list_all2_induct) auto

lemma list_all2_right: "list_all2 R xs ys \<Longrightarrow> y \<in> set ys \<Longrightarrow> \<exists>x \<in> set xs. R x y"
  by (induction rule: list_all2_induct) auto

lemma find_key:
  assumes "distinct (map key rows)" "r \<in> set rows" "Q r"
  shows "find (\<lambda>x. key x = key r \<and> Q x) rows = Some r"
  using assms
proof (induction rows)
  case (Cons x rows)
  show ?case
  proof (cases "key x = key r")
    case True
    then have "x = r" using Cons.prems by (auto simp: image_iff)
    then show ?thesis using Cons.prems(3) by simp
  next
    case False
    then show ?thesis using Cons by auto
  qed
qed simp

lemma resolved_rows_ids: "list_all2 (resolved_row ctx note ids) rows rows' \<Longrightarrow> map bk_id rows' = map bk_id rows"
  by (induction rule: list_all2_induct) (auto simp: resolved_row_def split: if_splits)

lemma resolved_row_step:
  assumes "resolved_row ctx note ids r r'" "distinct (map bk_id rows)" "r \<in> set rows" "x \<in> set rows"
    and "bk_id x \<notin> set ids" "bk_organizationId x = cx_organizationId ctx"
  shows "resolved_row ctx note (ids @ [bk_id x]) r
     (if blocker_of ctx (bk_id x) r' then r'\<lparr>bk_status := Blk_resolved, bk_mitigation := Some note,
        bk_nextAction := bk_nextAction x, bk_updatedAt := t\<rparr> else r')"
proof (cases "bk_id r = bk_id x")
  case True
  then have "r = x" using assms(2-4) by (meson eq_key_imp_eq_value distinct_map inj_onD)
  then have "r' = x" using assms(1,5) by (simp add: resolved_row_def)
  then show ?thesis using \<open>r = x\<close> assms(6) by (auto simp: resolved_row_def blocker_of_def)
next
  case False
  moreover from this have "bk_id r' \<noteq> bk_id x" using assms(1) by (auto simp: resolved_row_def split: if_splits)
  ultimately show ?thesis using assms(1) by (simp add: resolved_row_def blocker_of_def)
qed

lemma resolve_one_run:
  assumes run: "resolve_one ctx kind source acc x v = (Inr acc', v')"
    and rows: "list_all2 (resolved_row ctx note acc) rows (d_blockers (w_db v))"
    and nt: "note = ''auto-resolved by '' @ source_kind_text kind @ '' '' @ source"
    and x: "x \<in> set rows" "bk_id x \<notin> set acc" "bk_organizationId x = cx_organizationId ctx"
    and key: "distinct (map bk_id rows)"
  shows "acc' = (if isActiveBlocker (bk_status x) then acc @ [bk_id x] else acc)
    \<and> list_all2 (resolved_row ctx note acc') rows (d_blockers (w_db v'))
    \<and> core v' = (core v)\<lparr>d_blockers := d_blockers (w_db v')\<rparr>"
proof (cases "isActiveBlocker (bk_status x)")
  case False
  then show ?thesis using run rows
    by (simp add: resolve_one_def isActiveBlocker_def run_basic)
next
  case True
  obtain y where y: "y \<in> set (d_blockers (w_db v))" "resolved_row ctx note acc x y"
    using list_all2_left [OF rows x(1)] by auto
  then have "y = x" using x(2) by (simp add: resolved_row_def)
  with y have "x \<in> set (d_blockers (w_db v))" by simp
  moreover have "distinct (map bk_id (d_blockers (w_db v)))" using resolved_rows_ids [OF rows] key by simp
  ultimately have found: "find (blocker_of ctx (bk_id x)) (d_blockers (w_db v)) = Some x"
    using find_key [of bk_id "d_blockers (w_db v)" x "\<lambda>r. bk_organizationId r = cx_organizationId ctx"] x(3)
    by (simp add: blocker_of_def [abs_def])
  from run True obtain res where
    set: "setBlockerStatus ctx (bk_id x) Blk_resolved (Some note) None v = (Inr res, v')" and acc': "acc' = acc @ [bk_id x]"
    by (auto simp: resolve_one_def isActiveBlocker_def bind_Inr run_basic nt)
  from setBlockerStatus_run [OF set found] obtain t where
    core: "core v' = (core v)\<lparr>d_blockers := set_rows (blocker_of ctx (bk_id x)) (\<lambda>r. r\<lparr>bk_status := Blk_resolved,
      bk_mitigation := Some note, bk_nextAction := bk_nextAction x, bk_updatedAt := t\<rparr>) (d_blockers (w_db v))\<rparr>"
    by (auto simp: coalesce_def)
  from arg_cong [OF this, of d_blockers] have
    ys: "d_blockers (w_db v') = set_rows (blocker_of ctx (bk_id x)) (\<lambda>r. r\<lparr>bk_status := Blk_resolved,
      bk_mitigation := Some note, bk_nextAction := bk_nextAction x, bk_updatedAt := t\<rparr>) (d_blockers (w_db v))"
    by simp
  have "list_all2 (resolved_row ctx note acc') rows (d_blockers (w_db v'))"
    unfolding ys set_rows_def acc' list_all2_map2
    by (rule list.rel_mono_strong [OF rows]) (rule resolved_row_step [OF _ key _ x(1,2,3)])
  then show ?thesis using True acc' core ys by simp
qed

text \<open>
  Property C21. The resolution of a source resolves its blockers and nothing else. When the call
  returns, the ids are those of the organization's active blockers linked to the source, in table
  order; exactly those rows became resolved, with the note that names the source and otherwise as
  they were; no other row of any table but the event log changed, and no active blocker of the
  source is left.
\<close>

theorem resolve_source_exact:
  assumes "resolveBlockersForSource ctx kind source w = (Inr ids, w')"
    and "distinct (map bk_id (d_blockers (w_db w)))"
  shows "ids = map bk_id (filter (active_for ctx kind source) (d_blockers (w_db w)))
    \<and> list_all2 (resolved_row ctx (''auto-resolved by '' @ source_kind_text kind @ '' '' @ source) ids)
        (d_blockers (w_db w)) (d_blockers (w_db w'))
    \<and> core w' = (core w)\<lparr>d_blockers := d_blockers (w_db w')\<rparr>
    \<and> filter (active_for ctx kind source) (d_blockers (w_db w')) = []"
proof -
  define linked where "linked = (\<lambda>b :: blocker_row. bk_organizationId b = cx_organizationId ctx \<and> bk_sourceKind b = Some kind
      \<and> bk_sourceId b = Some source)"
  define why where "why = ''auto-resolved by '' @ source_kind_text kind @ '' '' @ source"
  define rows where "rows = d_blockers (w_db w)"
  have active: "active_for ctx kind source b \<longleftrightarrow> linked b \<and> isActiveBlocker (bk_status b)" for b
    by (auto simp: active_for_def linked_def)
  have loop: "for_fold (filter linked rows) [] (resolve_one ctx kind source) w = (Inr ids, w')"
    using assms(1) by (simp add: resolveBlockersForSource_def bind_sel linked_def rows_def)
  have key: "distinct (map bk_id rows)" using assms(2) by (simp add: rows_def)
  have result: "ids = map bk_id (filter (\<lambda>b. isActiveBlocker (bk_status b)) (filter linked rows))
      \<and> list_all2 (resolved_row ctx why ids) rows (d_blockers (w_db w'))
      \<and> core w' = (core w)\<lparr>d_blockers := d_blockers (w_db w')\<rparr>"
  proof (rule for_fold_returns [OF loop, where J = "\<lambda>pre acc v.
        acc = map bk_id (filter (\<lambda>b. isActiveBlocker (bk_status b)) pre)
        \<and> list_all2 (resolved_row ctx why acc) rows (d_blockers (w_db v))
        \<and> core v = (core w)\<lparr>d_blockers := d_blockers (w_db v)\<rparr>"], goal_cases)
    case 1
    show ?case by (simp add: rows_def resolved_row_def list.rel_refl)
  next
    case (2 pre x post acc v acc' v')
    have "x \<in> set (filter linked rows)" unfolding 2(1) by simp
    then have x: "x \<in> set rows" "bk_organizationId x = cx_organizationId ctx" by (auto simp: linked_def)
    have "distinct (map bk_id (filter linked rows))" using key by (rule distinct_map_filter)
    then have "bk_id x \<notin> bk_id ` set pre" unfolding 2(1) by auto
    then have fresh: "bk_id x \<notin> set acc" using 2(2) by auto
    have "list_all2 (resolved_row ctx why acc) rows (d_blockers (w_db v))" using 2(2) by blast
    note step = resolve_one_run [OF 2(3) this why_def x(1) fresh x(2) key]
    have "acc' = map bk_id (filter (\<lambda>b. isActiveBlocker (bk_status b)) (pre @ [x]))" using step 2(2) by simp
    moreover have "core v' = (core w)\<lparr>d_blockers := d_blockers (w_db v')\<rparr>" using step 2(2) by simp
    ultimately show ?case using step by blast
  qed
  have none_left: "\<not> active_for ctx kind source r'" if "r' \<in> set (d_blockers (w_db w'))" for r'
  proof -
    from that result obtain r where r: "r \<in> set rows" "resolved_row ctx why ids r r'"
      using list_all2_right [of "resolved_row ctx why ids" rows "d_blockers (w_db w')" r'] by auto
    show ?thesis
    proof (cases "bk_id r \<in> set ids \<and> bk_organizationId r = cx_organizationId ctx")
      case True
      then show ?thesis using r(2) by (auto simp: resolved_row_def active_for_def isActiveBlocker_def)
    next
      case False
      then have "r' = r" using r(2) by (simp add: resolved_row_def split: if_splits)
      moreover have "\<not> active_for ctx kind source r" using False r(1) result active by (auto simp: linked_def)
      ultimately show ?thesis by simp
    qed
  qed
  have "filter (active_for ctx kind source) rows = filter (\<lambda>b. isActiveBlocker (bk_status b)) (filter linked rows)"
    unfolding filter_filter by (rule filter_cong) (auto simp: active)
  then have "ids = map bk_id (filter (active_for ctx kind source) rows)" using result by simp
  moreover have "filter (active_for ctx kind source) (d_blockers (w_db w')) = []"
    using none_left by (simp add: filter_empty_conv)
  ultimately show ?thesis using result unfolding rows_def why_def by blast
qed

definition demo_room :: room_row where
  "demo_room = \<lparr>rm_id = ''room_1'', rm_organizationId = ''org_1'', rm_projectId = None, rm_taskId = None,
     rm_goalId = None, rm_type = RT_task, rm_name = ''Room'', rm_description = [], rm_createdAt = ''2026-06-11''\<rparr>"

definition demo_blocker :: "ident option \<Rightarrow> create_blocker_input" where
  "demo_blocker source = \<lparr>bl_room_id = ''room_1'', bl_task_id = None, bl_run_id = None, bl_goal_id = None,
     bl_plan_id = None, bi_type = BT_approval, bi_owner_type = Act_user, bi_owner_id = ''u1'',
     bi_source_kind = Some BS_approval, bi_source_id = source, bi_summary = ''waiting'', bi_mitigation = None,
     bi_next_action = None\<rparr>"

definition demo_blocked_world :: world where
  "demo_blocked_world =
     (let w0 = demo_world\<lparr>w_db := empty_db\<lparr>d_rooms := [demo_room]\<rparr>\<rparr>;
          ctx = demo_ctx\<lparr>cx_ulid := (\<lambda>n. replicate n (CHR ''Z''))\<rparr>;
          w1 = snd (createBlocker ctx (demo_blocker (Some ''appr_1'')) w0)
      in snd (createBlocker ctx (demo_blocker None) w1))"

lemma demo_resolve:
  "map bk_sourceId (d_blockers (w_db demo_blocked_world)) = [Some ''appr_1'', None]
     \<and> distinct (map bk_id (d_blockers (w_db demo_blocked_world)))
     \<and> (case fst (resolveBlockersForSource demo_ctx BS_approval ''appr_1'' demo_blocked_world) of
          Inr ids \<Rightarrow> length ids = 1 | Inl _ \<Rightarrow> False)"
  by code_simp

lemma resolve_source_exact_witness:
  "filter (active_for demo_ctx BS_approval ''appr_1'')
      (d_blockers (w_db (snd (resolveBlockersForSource demo_ctx BS_approval ''appr_1'' demo_blocked_world)))) = []
   \<and> length (filter (active_for demo_ctx BS_approval ''appr_1'') (d_blockers (w_db demo_blocked_world))) = 1"
proof -
  obtain ids where ids: "fst (resolveBlockersForSource demo_ctx BS_approval ''appr_1'' demo_blocked_world) = Inr ids"
    "length ids = 1"
    using demo_resolve by (auto split: sum.splits)
  then have run: "resolveBlockersForSource demo_ctx BS_approval ''appr_1'' demo_blocked_world
      = (Inr ids, snd (resolveBlockersForSource demo_ctx BS_approval ''appr_1'' demo_blocked_world))"
    by (simp add: prod_eq_iff)
  have key: "distinct (map bk_id (d_blockers (w_db demo_blocked_world)))" using demo_resolve by blast
  from resolve_source_exact [OF run key] ids(2) show ?thesis by (metis length_map)
qed

section \<open>Promotion of a message\<close>

text \<open>No message is promoted to two decisions.\<close>

definition promoted_once :: "database \<Rightarrow> bool" where
  "promoted_once db \<longleftrightarrow> distinct (filter (\<lambda>s. s \<noteq> None) (map dr_sourceMessageId (d_decisions db)))"

lemma checked_decision_ok:
  assumes "checked_decision ctx row w = (Inr r, w')"
  shows "w' = w \<and> dr_sourceMessageId r = dr_sourceMessageId row
    \<and> (dr_sourceMessageId row = None \<or> dr_sourceMessageId row \<notin> dr_sourceMessageId ` set (d_decisions (w_db w)))"
  using assms
  by (auto simp: checked_decision_def bind_checks bind_assoc refers_links_def run_basic list_ex_iff
      split: option.splits if_splits)

lemma keeps_insert_decision: "keeps (\<lambda>w. promoted_once (core w)) (insert_decision ctx row)"
proof (rule keepsI)
  fix w assume ok: "promoted_once (core w)"
  show "promoted_once (core (snd (insert_decision ctx row w)))"
  proof (cases "checked_decision ctx row w")
    case (Pair res w1)
    have same: "core w1 = core w" using quiet_run [OF quiet_checked(4) Pair] .
    show ?thesis
    proof (cases res)
      case (Inl e)
      then show ?thesis using Pair ok same by (simp add: insert_decision_def bind_def)
    next
      case (Inr r)
      with Pair have run: "checked_decision ctx row w = (Inr r, w1)" by simp
      from checked_decision_ok [OF run] ok show ?thesis
        by (auto simp: insert_decision_def bind_run [where m = "checked_decision ctx row", OF run] in_db_run core_def
            promoted_once_def)
    qed
  qed
qed

lemma quiet_requireRoom [quiet_rules]: "quiet (requireRoom ctx i)"
  unfolding requireRoom_def by (intro quiet_rules)

lemma quiet_assertOptionalLinks [quiet_rules]: "quiet (assertOptionalLinks ctx input)"
  unfolding assertOptionalLinks_def Let_def by (intro quiet_rules)

lemma quiet_reads [quiet_rules]: "quiet (getDecision ctx i)" "quiet (getHandoff ctx i)" "quiet (getBlocker ctx i)"
  "quiet (promoted ctx s)"
  unfolding getDecision_def getHandoff_def getBlocker_def promoted_def by (intro quiet_rules)+

abbreviation promoted_inv :: "world \<Rightarrow> bool" where
  "promoted_inv w \<equiv> promoted_once (core w)"

lemma quiet_promoted: "quiet m \<Longrightarrow> keeps promoted_inv m"
  by (rule quiet_keeps)

lemma keeps_createDecision: "keeps promoted_inv (createDecision ctx input)"
  unfolding createDecision_def
  by (intro keeps_bind keeps_option keeps_ret keeps_insert_decision quiet_promoted quiet_rules)

lemma keeps_setDecisionStatus: "keeps promoted_inv (setDecisionStatus ctx i status s)"
proof -
  have upd: "keeps promoted_inv (update_rows d_decisions_update P (\<lambda>r. r\<lparr>dr_status := a, dr_supersededById := b,
      dr_updatedAt := c\<rparr>))" for P a b c
    by (rule keepsI) (simp add: update_rows_run promoted_once_def map_set_rows)
  show ?thesis
    unfolding setDecisionStatus_def
    by (intro keeps_bind keeps_option keeps_ret upd quiet_promoted quiet_rules)
qed

inductive decision_step :: "world \<Rightarrow> world \<Rightarrow> bool" where
  step_create: "decision_step w (snd (createDecision ctx input w))"
| step_status: "decision_step w (snd (setDecisionStatus ctx i status s w))"
| step_read: "decision_step w (snd (listDecisions ctx room w))"

lemma decision_steps: "decision_step\<^sup>*\<^sup>* w w' \<Longrightarrow> promoted_inv w \<Longrightarrow> promoted_inv w'"
proof (induction rule: rtranclp_induct)
  case (step v u)
  have v: "promoted_inv v" using step by blast
  have list: "keeps promoted_inv (listDecisions ctx room)" for ctx room
    unfolding listDecisions_def by (intro quiet_promoted quiet_rules)
  from step.hyps(2) show ?case
  proof cases
    case step_create
    then show ?thesis using keepsD [OF keeps_createDecision v] by simp
  next
    case step_status
    then show ?thesis using keepsD [OF keeps_setDecisionStatus v] by simp
  next
    case step_read
    then show ?thesis using keepsD [OF list v] by simp
  qed
qed simp

lemma reads_requireRoom [reads_rules]: "reads (requireRoom ctx i)"
  unfolding requireRoom_def by (intro reads_rules)

lemma reads_assertOptionalLinks [reads_rules]: "reads (assertOptionalLinks ctx input)"
  unfolding assertOptionalLinks_def Let_def by (intro reads_rules)

text \<open>
  Property C22. A message is promoted to one decision. Whatever the services do, the decisions of a
  database that promotes no message twice keep doing so, for all organizations together; and while
  a message has a decision, promoting it again writes nothing: the call fails on its links or
  returns that decision.
\<close>

theorem decision_promoted_once:
  assumes "promoted_once (core w0)" and "decision_step\<^sup>*\<^sup>* w0 w"
    and "d \<in> set (d_decisions (w_db w))" "dr_organizationId d = cx_organizationId ctx"
    and "dr_sourceMessageId d = Some s" "s \<noteq> []" "lk_source_message_id input = Some s"
  shows "promoted_once (core w) \<and> snd (createDecision ctx input w) = w
    \<and> (case fst (createDecision ctx input w) of Inl e \<Rightarrow> True | Inr r \<Rightarrow> r = Some (mapDecision d))"
proof -
  have once: "promoted_once (core w)" using decision_steps assms(1,2) by blast
  let ?P = "\<lambda>r. dr_organizationId r = cx_organizationId ctx \<and> dr_sourceMessageId r = Some s"
  obtain e where e: "find ?P (d_decisions (w_db w)) = Some e"
    using assms(3-5) by (cases "find ?P (d_decisions (w_db w))") (auto simp: find_None_iff)
  have "e = d"
    using distinct_filter_key [OF once [unfolded promoted_once_def], of e d] find_Some_D [OF e] assms(3,5) by simp
  have promoted: "promoted ctx (Some s) w = (Inr (Some d), w)"
    using e assms(6) by (simp add: promoted_def given_def bind_sel first_filter run_basic \<open>e = d\<close>)
  show ?thesis
  proof (cases "assertOptionalLinks ctx (record_links.truncate input) w")
    case (Pair res w1)
    have w1: "w1 = w" by (rule readsD [OF reads_assertOptionalLinks Pair])
    show ?thesis
    proof (cases res)
      case (Inl e)
      then show ?thesis using Pair w1 once by (simp add: createDecision_def bind_def)
    next
      case (Inr u)
      then have links: "assertOptionalLinks ctx (record_links.truncate input) w = (Inr u, w)" using Pair w1 by simp
      have "createDecision ctx input w = (Inr (Some (mapDecision d)), w)"
        unfolding createDecision_def bind_run [where m = "assertOptionalLinks ctx (record_links.truncate input)", OF links]
          assms(7) bind_run [where m = "promoted ctx (Some s)", OF promoted]
        by (simp add: run_basic)
      then show ?thesis using once by simp
    qed
  qed
qed

definition demo_decision :: create_decision_input where
  "demo_decision = \<lparr>bl_room_id = ''room_1'', bl_task_id = None, bl_run_id = None, bl_goal_id = None,
     bl_plan_id = None, lk_source_message_id = Some ''msg_1'', ci_actor_type = Act_user, ci_actor_id = ''u1'',
     ci_summary = ''use it'', ci_rationale = None, ci_alternatives = None, ci_evidence_refs = None,
     ci_impact_summary = None\<rparr>"

definition demo_message :: message_row where
  "demo_message = \<lparr>msg_id = ''msg_1'', msg_position = 1, msg_organizationId = ''org_1'', msg_roomId = ''room_1'',
     msg_taskId = None, msg_runId = None, msg_threadRootId = None, msg_replyCount = 0, msg_clientRequestId = None,
     msg_clientRequestHash = None, msg_actorType = Act_user, msg_actorId = ''u1'', msg_kind = ''text'',
     msg_body = ''use it'', msg_payload = [], msg_moderatedAt = None, msg_moderatedByUserId = None,
     msg_createdAt = ''2026-06-11''\<rparr>"

definition demo_room_world :: world where
  "demo_room_world = demo_world\<lparr>w_db := empty_db\<lparr>d_rooms := [demo_room], d_messages := [demo_message]\<rparr>\<rparr>"

lemma demo_promoted:
  "map dr_sourceMessageId (d_decisions (w_db (snd (createDecision demo_ctx demo_decision demo_room_world)))) = [Some ''msg_1'']
     \<and> map dr_organizationId (d_decisions (w_db (snd (createDecision demo_ctx demo_decision demo_room_world)))) = [''org_1'']"
  by code_simp

lemma decision_promoted_once_witness:
  "let w = snd (createDecision demo_ctx demo_decision demo_room_world)
   in length (d_decisions (w_db w)) = 1 \<and> snd (createDecision demo_ctx demo_decision w) = w"
proof -
  let ?w = "snd (createDecision demo_ctx demo_decision demo_room_world)"
  obtain d where d: "d_decisions (w_db ?w) = [d]" "dr_sourceMessageId d = Some ''msg_1''" "dr_organizationId d = ''org_1''"
    using demo_promoted by (auto simp: map_eq_Cons_conv)
  have "decision_step\<^sup>*\<^sup>* demo_room_world ?w" using step_create by (rule r_into_rtranclp)
  moreover have "promoted_once (core demo_room_world)"
    by (simp add: promoted_once_def demo_room_world_def demo_world_def empty_db_def)
  ultimately show ?thesis
    using decision_promoted_once [of demo_room_world ?w d demo_ctx "''msg_1''" demo_decision] d
    by (simp add: demo_ctx_def demo_decision_def)
qed

end
