(* ===== verification/Evolution.thy ===== *)
theory Evolution
  imports Inserts Transition_Service
begin

text \<open>
  What the services may do to the database over time: an order on databases that every step
  respects (rows that only ever move forward, marks that are never taken back), proved once for the
  operations' composition and then used for each service's own order.
\<close>

definition moves :: "(database \<Rightarrow> database \<Rightarrow> bool) \<Rightarrow> 'a srv \<Rightarrow> bool" where
  "moves R m \<longleftrightarrow> (\<forall>w. R (w_db w) (w_db (snd (m w))))"

lemma movesI: "(\<And>w. R (w_db w) (w_db (snd (m w)))) \<Longrightarrow> moves R m"
  by (simp add: moves_def)

lemma movesD: "moves R m \<Longrightarrow> R (w_db w) (w_db (snd (m w)))"
  by (simp add: moves_def)

lemma moves_run: "moves R m \<Longrightarrow> m w = (r, w') \<Longrightarrow> R (w_db w) (w_db w')"
  using movesD [of R m w] by simp

locale db_order =
  fixes R :: "database \<Rightarrow> database \<Rightarrow> bool"
  assumes order_refl: "R d d"
    and order_trans: "R d d' \<Longrightarrow> R d' d'' \<Longrightarrow> R d d''"
begin

lemma moves_reads: "reads m \<Longrightarrow> moves R m"
  by (rule movesI) (simp add: reads_def order_refl)

lemma moves_ret: "moves R (ret a)"
  and moves_throw: "moves R (throw e)"
  and moves_skip: "moves R skip"
  and moves_guard: "moves R (guard b e)"
  and moves_gets: "moves R (gets f)"
  and moves_sel: "moves R (sel table P)"
  and moves_ts_value: "moves R (ts_value ctx t)"
  and moves_ts_nullable: "moves R (ts_nullable ctx v)"
  and moves_refuse_if: "moves R (refuse_if bad msg)"
  by (rule moves_reads, rule reads_rules)+

lemma moves_lift_sum: "moves R (lift_sum g r)"
  by (rule movesI) (simp add: lift_sum_def run_basic order_refl split: sum.split)

lemma moves_nowIso: "moves R (nowIso ctx)"
  by (rule movesI) (simp add: nowIso_def order_refl)

lemma moves_generate: "moves R (generate ctx p)"
  by (rule movesI) (simp add: generate_def order_refl)

lemma moves_bind: "moves R m \<Longrightarrow> (\<And>a. moves R (f a)) \<Longrightarrow> moves R (bind m f)"
proof (rule movesI)
  fix w assume m: "moves R m" and f: "\<And>a. moves R (f a)"
  show "R (w_db w) (w_db (snd (bind m f w)))"
  proof (cases "m w")
    case (Pair r w1)
    have "R (w_db w) (w_db w1)" by (rule moves_run [OF m Pair])
    then show ?thesis
      using order_trans movesD [OF f] Pair by (cases r) (auto simp: bind_def)
  qed
qed

lemma moves_if: "(b \<Longrightarrow> moves R m) \<Longrightarrow> (\<not> b \<Longrightarrow> moves R m') \<Longrightarrow> moves R (if b then m else m')"
  by simp

lemma moves_option:
  "(v = None \<Longrightarrow> moves R m) \<Longrightarrow> (\<And>x. v = Some x \<Longrightarrow> moves R (f x))
     \<Longrightarrow> moves R (case v of None \<Rightarrow> m | Some x \<Rightarrow> f x)"
  by (cases v) simp_all

lemma moves_Let: "(\<And>y. moves R (f y)) \<Longrightarrow> moves R (let y = x in f y)"
  by simp

lemma moves_for_each: "(\<And>x. x \<in> set xs \<Longrightarrow> moves R (f x)) \<Longrightarrow> moves R (for_each xs f)"
  by (induction xs) (simp_all add: moves_skip moves_bind)

lemma moves_for_fold: "(\<And>acc x. x \<in> set xs \<Longrightarrow> moves R (f acc x)) \<Longrightarrow> moves R (for_fold xs acc f)"
  by (induction xs arbitrary: acc) (simp_all add: moves_ret moves_bind)

lemma moves_transaction: "moves R m \<Longrightarrow> moves R (transaction m)"
proof (rule movesI)
  fix w assume m: "moves R m"
  from transaction_cases [of m w] show "R (w_db w) (w_db (snd (transaction m w)))"
    using movesD [OF m, of w] order_refl by (elim disjE) simp_all
qed

lemma moves_in_db: "(\<And>db. R db (f db)) \<Longrightarrow> moves R (in_db f)"
  by (rule movesI) (simp add: in_db_run)

lemmas moves_rules =
  moves_ret moves_throw moves_skip moves_guard moves_gets moves_sel moves_ts_value moves_ts_nullable
  moves_refuse_if moves_lift_sum moves_nowIso moves_generate moves_bind moves_if moves_option
  moves_Let moves_for_each moves_for_fold moves_transaction

text \<open>Any sequence of steps each of which respects the order respects it.\<close>

lemma order_steps:
  assumes "step\<^sup>*\<^sup>* w w'" and "\<And>v v'. step v v' \<Longrightarrow> R (w_db v) (w_db v')"
  shows "R (w_db w) (w_db w')"
  using assms(1) by induction (auto intro: order_refl order_trans assms(2))

end

text \<open>An order on one table only: whatever leaves the table alone respects it.\<close>

locale table_order = db_order R for R :: "database \<Rightarrow> database \<Rightarrow> bool" +
  fixes table :: "database \<Rightarrow> 'r list"
  assumes order_table: "table d = table d' \<Longrightarrow> R d d'"
begin

lemma moves_leaves: "leaves table m \<Longrightarrow> moves R m"
  by (rule movesI) (simp add: leaves_def order_table)

end

text \<open>The writes leave the other tables alone.\<close>

lemma leaves_update: "(\<And>f db. part (upd f db) = part db) \<Longrightarrow> leaves part (update_rows upd P g)"
  by (simp add: leaves_def update_rows_run)

lemma leaves_basic [leaves_rules]: "leaves part (nowIso ctx)" "leaves part (generate ctx p)"
  "leaves part (sel table P)" "leaves part (ts_value ctx t)" "leaves part (ts_nullable ctx v)"
  "leaves part (refuse_if bad msg)"
  by (simp_all add: leaves_def nowIso_def generate_def sel_def gets_def ts_value_result ts_nullable_result
      refuse_if_result split: option.split)

lemma leaves_update_tasks: "(\<And>f db. part (d_tasks_update f db) = part db) \<Longrightarrow> leaves part (update_tasks P g)"
  by (simp add: leaves_def update_tasks_run)

lemma leaves_update_runs: "(\<And>f db. part (d_runs_update f db) = part db) \<Longrightarrow> leaves part (update_runs P g)"
  by (simp add: leaves_def update_runs_run)

text \<open>A part that the log does not touch, given so that the simplifier can discharge it.\<close>

lemma leaves_emit: "(\<And>f db. part (d_events_update f db) = part db) \<Longrightarrow> leaves part (emit ctx spec)"
  by (rule leaves_quiet) (intro quiet_rules | simp)+

lemma leaves_transitionTask:
  assumes "logs_only params" and tasks: "\<And>f db. part (d_tasks_update f db) = part db"
    and events: "\<And>f db. part (d_events_update f db) = part db"
  shows "leaves part (transitionTask ctx params)"
proof -
  have "leaves part (transition_events ctx params to changed)" for to changed
    by (rule leaves_quiet [OF quiet_transition_events [OF assms(1)]]) (simp add: events)
  then show ?thesis
    unfolding transitionTask_def transition_events_def [symmetric] Let_def
    by (intro leaves_rules leaves_update_tasks [OF tasks])
qed

lemma leaves_transitionRun:
  "(\<And>f db. part (d_runs_update f db) = part db) \<Longrightarrow> leaves part (transitionRun ctx params)"
  unfolding transitionRun_def by (intro leaves_rules leaves_update_runs)

section \<open>Calls that return\<close>

text \<open>The result of a call, for a call known to return.\<close>

definition returns :: "'a srv \<Rightarrow> world \<Rightarrow> bool" where
  "returns m w = (case fst (m w) of Inl e \<Rightarrow> False | Inr a \<Rightarrow> True)"

lemma returnsE: "returns m w \<Longrightarrow> (\<And>a. m w = (Inr a, snd (m w)) \<Longrightarrow> thesis) \<Longrightarrow> thesis"
  by (cases "m w"; cases "fst (m w)") (simp_all add: returns_def)

text \<open>Rules for what holds after a call that returned.\<close>

lemma triple_tx: "triple P m Q (\<lambda>_ _. True) \<Longrightarrow> triple P (transaction m) Q (\<lambda>_ _. True)"
  by (rule tripleI) (auto simp: transaction_ok dest: tripleD)

lemma triple_sel_rows:
  assumes "\<And>rows. triple (\<lambda>w. P w \<and> table (w_db w) = rows) (f (filter p rows)) Q E"
  shows "triple P (bind (sel table p) f) Q E"
  unfolding triple_def bind_sel
proof (intro allI impI)
  fix w assume "P w"
  then show "case f (filter p (table (w_db w))) w of (Inl e, w') \<Rightarrow> E e w' | (Inr a, w') \<Rightarrow> Q a w'"
    using assms [of "table (w_db w)"] by (simp add: triple_def)
qed

lemma triple_sel_known:
  "triple (\<lambda>w. table (w_db w) = rows) (f (filter p rows)) Q E \<Longrightarrow> triple (\<lambda>w. table (w_db w) = rows) (bind (sel table p) f) Q E"
  by (auto simp: triple_def bind_sel)

lemma bind_InrE:
  assumes "bind m f w = (Inr b, w')" obtains a w1 where "m w = (Inr a, w1)" "f a w1 = (Inr b, w')"
  using assms by (auto simp: bind_Inr)

lemma bind_err: "m w = (Inl e, w') \<Longrightarrow> bind m f w = (Inl e, w')"
  by (simp add: bind_def)

lemma guard_Inr: "guard b e w = (Inr u, w') \<Longrightarrow> b \<and> w' = w"
  by (auto simp: guard_def run_basic split: if_splits)

text \<open>The one event an emission appends.\<close>

definition event_for :: "server_context \<Rightarrow> event_spec \<Rightarrow> event_row \<Rightarrow> bool" where
  "event_for ctx spec e \<longleftrightarrow> ev_type e = es_type spec \<and> ev_organizationId e = cx_organizationId ctx
     \<and> ev_projectId e = es_projectId spec \<and> ev_taskId e = es_taskId spec \<and> ev_roomId e = es_roomId spec
     \<and> ev_runId e = es_runId spec \<and> ev_goalId e = es_goalId spec \<and> ev_payload e = es_payload spec
     \<and> ev_actorType e = es_actorType spec \<and> ev_actorId e = es_actorId spec"

lemma emit_id_log:
  assumes "emit_id ctx spec w = (Inr i, w')"
  shows "\<exists>e. w_db w' = (w_db w)\<lparr>d_events := d_events (w_db w) @ [e]\<rparr> \<and> event_for ctx spec e \<and> ev_id e = i"
proof -
  from assms obtain input w1 ref w2 where input: "buildEvent ctx spec w = (Inr input, w1)"
    and app: "appendEvent ctx input w1 = (Inr ref, w2)" and i: "i = ev_id input" "w' = w2"
    unfolding emit_id_def by (elim bind_InrE) (auto simp: run_basic)
  have w1: "w_db w1 = w_db w" and spec: "ev_type input = es_type spec" "ev_organizationId input = cx_organizationId ctx"
    "ev_projectId input = es_projectId spec" "ev_taskId input = es_taskId spec" "ev_roomId input = es_roomId spec"
    "ev_runId input = es_runId spec" "ev_goalId input = es_goalId spec" "ev_payload input = es_payload spec"
    "ev_actorType input = es_actorType spec" "ev_actorId input = es_actorId spec"
    using input by (auto simp: buildEvent_def bind_def generate_def nowIso_def run_basic)
  from app obtain t where t: "w_db w2 = (w_db w1)\<lparr>d_events := d_events (w_db w1) @ [logged input t (w_seq w1 + 1)]\<rparr>"
    by (auto simp: appendEvent_result split: option.splits if_splits)
  have "event_for ctx spec (logged input t (w_seq w1 + 1))"
    by (simp add: event_for_def logged_def event_input.defs spec)
  then show ?thesis using t w1 i by (intro exI [of _ "logged input t (w_seq w1 + 1)"]) simp
qed

lemma emit_as_id: "emit ctx spec = bind (emit_id ctx spec) (\<lambda>_. skip)"
  by (simp add: emit_def emit_id_def bind_assoc)

lemma emit_log:
  assumes "emit ctx spec w = (Inr u, w')"
  shows "\<exists>e. w_db w' = (w_db w)\<lparr>d_events := d_events (w_db w) @ [e]\<rparr> \<and> event_for ctx spec e"
  using assms unfolding emit_as_id by (elim bind_InrE) (auto simp: run_basic dest!: emit_id_log)

end
