(* ===== verification/Approval_Service.thy ===== *)
theory Approval_Service
  imports Collaboration_Service Evolution
begin

text \<open>
  \<open>apps/server/src/services/approval-service.ts\<close>: approvals of running tasks, and the approval of
  a task's execution (the gate), which is asked for before dispatch, checked and bound to the run at
  dispatch, and superseded by the next request.
\<close>

section \<open>Records\<close>

record approval =
  av_id :: ident
  av_organization_id :: ident
  av_task_id :: ident
  av_run_id :: "ident option"
  av_requested_by_type :: created_by_type
  av_requested_by_id :: ident
  av_action :: string
  av_risk :: risk
  av_summary :: string
  av_payload_ref :: "string option"
  av_status :: approval_status
  av_resolved_by :: "ident option"
  av_resolved_at :: "iso_time option"
  av_expires_at :: "iso_time option"
  av_created_at :: iso_time

definition mapApproval :: "approval_row \<Rightarrow> approval" where
  "mapApproval r = \<lparr>av_id = ap_id r, av_organization_id = ap_organizationId r, av_task_id = ap_taskId r,
     av_run_id = ap_runId r, av_requested_by_type = ap_requestedByType r,
     av_requested_by_id = ap_requestedById r, av_action = ap_action r, av_risk = ap_risk r,
     av_summary = ap_summary r, av_payload_ref = ap_payloadRef r, av_status = ap_status r,
     av_resolved_by = ap_resolvedBy r, av_resolved_at = ap_resolvedAt r, av_expires_at = ap_expiresAt r,
     av_created_at = ap_createdAt r\<rparr>"

record request_approval_params =
  ra_taskId :: ident
  ra_runId :: "ident option"
  ra_action :: string
  ra_risk :: risk
  ra_summary :: string

datatype approval_outcome = AO_approved | AO_rejected | AO_needs_more_info

record resolve_approval_request =
  rq_decision :: approval_outcome
  rq_comment :: "string option"

fun approval_outcome_text :: "approval_outcome \<Rightarrow> string" where
  "approval_outcome_text AO_approved = ''approved''"
| "approval_outcome_text AO_rejected = ''rejected''"
| "approval_outcome_text AO_needs_more_info = ''needs_more_info''"

definition EXECUTION_GATE_CURRENT :: string where
  "EXECUTION_GATE_CURRENT = ''execution-gate/current''"

definition EXECUTION_GATE_SUPERSEDED :: string where
  "EXECUTION_GATE_SUPERSEDED = ''execution-gate/superseded''"

section \<open>Requests\<close>

definition requestApproval :: "server_context \<Rightarrow> request_approval_params \<Rightarrow> approval srv" where
  "requestApproval ctx params =
     bind (nowIso ctx) (\<lambda>now.
     transaction (
       bind (sel d_tasks (\<lambda>t. tk_id t = ra_taskId params \<and> tk_organizationId t = cx_organizationId ctx)) (\<lambda>rows.
       case first rows of
         None \<Rightarrow> throw (notFound (''task not found: '' @ ra_taskId params) [(''task_id'', JStr (ra_taskId params))])
       | Some task \<Rightarrow>
           bind (guard (tk_status task = TS_running)
                  (invalidState (''task must be '' @ quoted ''running'' @ '' to request approval (is '' @ quoted (task_status_text (tk_status task)) @ '')'')
                    [(''status'', JStr (task_status_text (tk_status task)))])) (\<lambda>_.
           bind (generate ctx IP_approval) (\<lambda>approvalId.
           bind (insert_approval ctx \<lparr>ap_id = approvalId, ap_organizationId = cx_organizationId ctx,
                   ap_taskId = ra_taskId params, ap_runId = ra_runId params, ap_requestedByType = By_system,
                   ap_requestedById = ''control_plane'', ap_action = ra_action params, ap_risk = ra_risk params,
                   ap_summary = ra_summary params, ap_payloadRef = None, ap_status = AS_pending,
                   ap_resolvedBy = None, ap_resolvedAt = None, ap_expiresAt = None, ap_createdAt = now\<rparr>) (\<lambda>_.
           bind (transitionTask ctx \<lparr>tp_taskId = ra_taskId params, tp_from = TS_running,
                   tp_trigger = TT_approval_requested, tp_now = now,
                   tp_events = Some (\<lambda>_. build_all ctx
                     [(event_of ''approval.requested'' Act_system ''control_plane'' (ra_taskId params))\<lparr>
                        es_projectId := Some (tk_projectId task), es_taskId := Some (ra_taskId params),
                        es_roomId := tk_roomId task, es_runId := ra_runId params,
                        es_payload := [(''approval_id'', JStr approvalId), (''action'', JStr (ra_action params)),
                          (''risk'', JStr (risk_text (ra_risk params))), (''summary'', JStr (ra_summary params))]\<rparr>])\<rparr>) (\<lambda>transition.
           bind (guard (tres_changed transition)
                  (conflict_error ''task is no longer running; approval was not requested'' [])) (\<lambda>_.
           bind (sel d_approvals (\<lambda>a. ap_id a = approvalId)) (\<lambda>found.
           case first found of
             None \<Rightarrow> throw (Plain_error ''requestApproval: approval missing after insert'')
           | Some row \<Rightarrow> ret (mapApproval row))))))))))"

text \<open>\<open>{ ...(cond ? { status: "expired", resolvedAt: now } : {}) }\<close> of the superseding update.\<close>

definition supersede :: "server_context \<Rightarrow> iso_time \<Rightarrow> approval_row \<Rightarrow> unit srv" where
  "supersede ctx now approval =
     (if ap_status approval = AS_pending \<or> ap_status approval = AS_needs_more_info
      then bind (ts_value ctx now) (\<lambda>resolved.
           update_rows d_approvals_update (\<lambda>a. ap_id a = ap_id approval)
             (\<lambda>a. a\<lparr>ap_payloadRef := Some EXECUTION_GATE_SUPERSEDED, ap_status := AS_expired,
                    ap_resolvedAt := Some resolved\<rparr>))
      else update_rows d_approvals_update (\<lambda>a. ap_id a = ap_id approval)
             (\<lambda>a. a\<lparr>ap_payloadRef := Some EXECUTION_GATE_SUPERSEDED\<rparr>))"

definition relink_blocker ::
  "server_context \<Rightarrow> ident \<Rightarrow> iso_time \<Rightarrow> json list \<Rightarrow> blocker_row \<Rightarrow> json list srv" where
  "relink_blocker ctx i now acc b =
     bind (ts_value ctx now) (\<lambda>updated.
     bind (update_rows d_blockers_update (\<lambda>r. bk_id r = bk_id b)
             (\<lambda>r. r\<lparr>bk_sourceId := Some i, bk_updatedAt := updated\<rparr>)) (\<lambda>_.
     ret (acc @ [JObj [(''blocker_id'', JStr (bk_id b)), (''previous_source_id'', jopt (bk_sourceId b)),
                       (''source_id'', JStr i)]])))"

text \<open>\<open>action = 'execution.start'\<close> for the task and the caller's organization.\<close>

definition execution_gate :: "server_context \<Rightarrow> ident \<Rightarrow> approval_row \<Rightarrow> bool" where
  "execution_gate ctx taskId a \<longleftrightarrow> ap_taskId a = taskId \<and> ap_organizationId a = cx_organizationId ctx
     \<and> ap_action a = ''execution.start''"

definition requestExecutionApproval :: "server_context \<Rightarrow> ident \<Rightarrow> string \<Rightarrow> risk \<Rightarrow> approval srv" where
  "requestExecutionApproval ctx taskId input_summary risk =
     (let summary = trim input_summary in
      bind (guard (\<not> (summary = [] \<or> length summary > 4000))
             (validation ''A summary (1-4000 characters) and valid risk are required'' [])) (\<lambda>_.
      transaction (
        bind (sel d_tasks (\<lambda>t. tk_id t = taskId \<and> tk_organizationId t = cx_organizationId ctx)) (\<lambda>rows.
        case first rows of
          None \<Rightarrow> throw (notFound ''task not found'' [])
        | Some task \<Rightarrow>
            bind (guard (tk_status task = TS_ready)
                   (invalidState ''Only a ready task can request approval before execution'' [])) (\<lambda>_.
            bind (sel d_approvals (execution_gate ctx taskId)) (\<lambda>prior.
            let current = filter (\<lambda>a. ap_payloadRef a \<noteq> Some EXECUTION_GATE_SUPERSEDED) prior in
            bind (generate ctx IP_approval) (\<lambda>i.
            bind (nowIso ctx) (\<lambda>now.
            bind (for_each current (supersede ctx now)) (\<lambda>_.
            bind (insert_approval ctx \<lparr>ap_id = i, ap_organizationId = cx_organizationId ctx, ap_taskId = taskId,
                    ap_runId = None, ap_requestedByType = By_user, ap_requestedById = cx_actorUserId ctx,
                    ap_action = ''execution.start'', ap_risk = risk, ap_summary = summary,
                    ap_payloadRef = Some EXECUTION_GATE_CURRENT, ap_status = AS_pending, ap_resolvedBy = None,
                    ap_resolvedAt = None, ap_expiresAt = None, ap_createdAt = now\<rparr>) (\<lambda>_.
            bind (if length prior > 0
                  then bind (sel d_blockers (\<lambda>b. bk_organizationId b = cx_organizationId ctx
                          \<and> bk_sourceKind b = Some BS_approval
                          \<and> (case bk_sourceId b of None \<Rightarrow> False | Some s \<Rightarrow> List.member (map ap_id prior) s)
                          \<and> List.member [Blk_open, Blk_mitigated, Blk_accepted_risk] (bk_status b))) (\<lambda>linked.
                       for_fold linked [] (relink_blocker ctx i now))
                  else ret []) (\<lambda>relinkedBlockers.
            bind (emit ctx ((event_of ''approval.requested'' Act_user (cx_actorUserId ctx) taskId)\<lparr>
                    es_projectId := Some (tk_projectId task), es_taskId := Some taskId, es_roomId := tk_roomId task,
                    es_payload := [(''approval_id'', JStr i), (''action'', JStr ''execution.start''),
                      (''summary'', JStr summary), (''risk'', JStr (risk_text risk)),
                      (''superseded_approval_ids'', JArr (map (\<lambda>a. JStr (ap_id a)) current)),
                      (''relinked_blockers'', JArr relinkedBlockers)]\<rparr>)) (\<lambda>_.
            bind (sel d_approvals (\<lambda>a. ap_id a = i)) (\<lambda>found.
            case first found of
              None \<Rightarrow> throw (Plain_error ''undefined approval row'')
            | Some row \<Rightarrow> ret (mapApproval row))))))))))))))"

section \<open>Dispatch\<close>

definition assertExecutionApprovalGranted :: "server_context \<Rightarrow> ident \<Rightarrow> unit srv" where
  "assertExecutionApprovalGranted ctx taskId =
     bind (sel d_approvals (execution_gate ctx taskId)) (\<lambda>gates.
     let current = filter (\<lambda>g. ap_payloadRef g \<noteq> Some EXECUTION_GATE_SUPERSEDED) gates in
     guard (\<not> ((length gates > 0 \<and> length current \<noteq> 1)
              \<or> list_ex (\<lambda>g. ap_payloadRef g \<noteq> Some EXECUTION_GATE_CURRENT \<or> ap_status g \<noteq> AS_approved
                    \<or> ap_runId g \<noteq> None) current))
       (conflict_error ''Execution approval is required before this task can start'' []))"

text \<open>The foreign key of \<open>run_id\<close> is checked when there is a row to change.\<close>

definition bindExecutionApprovalToRun :: "server_context \<Rightarrow> ident \<Rightarrow> ident \<Rightarrow> unit srv" where
  "bindExecutionApprovalToRun ctx taskId runId =
     (let granted = (\<lambda>a. execution_gate ctx taskId a \<and> ap_status a = AS_approved
                       \<and> ap_payloadRef a = Some EXECUTION_GATE_CURRENT) in
      bind (sel d_approvals granted) (\<lambda>rows.
      bind (if rows = [] then skip else refers d_runs rn_id ''approvals_run_id_fk'' runId) (\<lambda>_.
      update_rows d_approvals_update granted (\<lambda>a. a\<lparr>ap_runId := Some runId\<rparr>))))"

text \<open>\<open>GET /api/v1/approvals?status=\<close>; the query is compared as text.\<close>

fun approval_status_text :: "approval_status \<Rightarrow> string" where
  "approval_status_text AS_pending = ''pending''"
| "approval_status_text AS_approved = ''approved''"
| "approval_status_text AS_rejected = ''rejected''"
| "approval_status_text AS_needs_more_info = ''needs_more_info''"
| "approval_status_text AS_expired = ''expired''"

definition listApprovals :: "server_context \<Rightarrow> string option \<Rightarrow> approval list srv" where
  "listApprovals ctx status =
     bind (sel d_approvals (\<lambda>a. ap_organizationId a = cx_organizationId ctx
             \<and> (case status of None \<Rightarrow> True | Some s \<Rightarrow> s = [] \<or> approval_status_text (ap_status a) = s))) (\<lambda>rows.
     ret (map mapApproval (order_asc (\<lambda>a. ap_createdAt a) (order_asc ap_id rows))))"

section \<open>Resolution\<close>

fun approval_trigger_of :: "approval_outcome \<Rightarrow> approval_trigger" where
  "approval_trigger_of AO_approved = AT_approve"
| "approval_trigger_of AO_rejected = AT_reject"
| "approval_trigger_of AO_needs_more_info = AT_need_more_info"

definition resolve_linked :: "server_context \<Rightarrow> iso_time \<Rightarrow> approval_row \<Rightarrow> blocker_row \<Rightarrow> unit srv" where
  "resolve_linked ctx now approval b =
     bind (ts_value ctx now) (\<lambda>updated.
     bind (update_rows d_blockers_update (\<lambda>r. bk_id r = bk_id b)
             (\<lambda>r. r\<lparr>bk_status := Blk_resolved, bk_updatedAt := updated,
                    bk_mitigation := Some (''auto-resolved by approval '' @ ap_id approval)\<rparr>)) (\<lambda>_.
     emit ctx ((event_of ''blocker.resolved'' Act_system ''system'' (bk_id b))\<lparr>
        es_roomId := Some (bk_roomId b), es_taskId := bk_taskId b, es_runId := bk_runId b,
        es_goalId := bk_goalId b,
        es_payload := [(''blocker_id'', JStr (bk_id b)), (''from'', JStr (blocker_status_text (bk_status b))),
          (''to'', JStr ''resolved''), (''source_kind'', JStr ''approval''),
          (''source_id'', JStr (ap_id approval))]\<rparr>)))"

text \<open>The row is read before and again after the task's lock, so the model reads it twice.\<close>

definition approval_row_of :: "server_context \<Rightarrow> ident \<Rightarrow> server_error \<Rightarrow> approval_row srv" where
  "approval_row_of ctx i e =
     bind (sel d_approvals (\<lambda>a. ap_id a = i \<and> ap_organizationId a = cx_organizationId ctx)) (\<lambda>rows.
     case first rows of None \<Rightarrow> throw e | Some a \<Rightarrow> ret a)"

definition decides :: "approval_outcome \<Rightarrow> bool" where
  "decides d \<longleftrightarrow> d = AO_approved \<or> d = AO_rejected"

definition resolve_tx :: "server_context \<Rightarrow> ident \<Rightarrow> resolve_approval_request \<Rightarrow> iso_time \<Rightarrow> approval srv" where
  "resolve_tx ctx approvalId req now =
     bind (approval_row_of ctx approvalId
            (notFound (''approval not found: '' @ approvalId) [(''approval_id'', JStr approvalId)])) (\<lambda>initial.
     bind (sel d_tasks (\<lambda>t. tk_id t = ap_taskId initial \<and> tk_organizationId t = cx_organizationId ctx)) (\<lambda>tasks.
     case first tasks of
       None \<Rightarrow> throw (Plain_error ''resolveApproval: task missing for approval'')
     | Some task \<Rightarrow>
         bind (approval_row_of ctx approvalId (notFound ''approval no longer exists'' [])) (\<lambda>approval.
         let executionGate = (ap_action approval = ''execution.start'');
             fromStatus = ap_status approval;
             trigger = approval_trigger_of (rq_decision req) in
         bind (guard (\<not> (executionGate \<and> ap_payloadRef approval \<noteq> Some EXECUTION_GATE_CURRENT))
                (conflict_error ''This execution approval has been superseded; review the current request'' [])) (\<lambda>_.
         bind (guard (canTransitionApproval fromStatus trigger)
                (invalidState (''cannot resolve approval in status '' @ quoted (approval_status_text fromStatus))
                  [(''status'', JStr (approval_status_text fromStatus))])) (\<lambda>_.
         bind (lift_sum Transition_error (applyApprovalTransition fromStatus trigger)) (\<lambda>toStatus.
         bind (guard (\<not> ((executionGate \<and> tk_status task \<noteq> TS_ready)
                        \<or> (\<not> executionGate \<and> tk_status task \<noteq> TS_awaiting_approval)))
                (invalidState (''task must be '' @ quoted (if executionGate then ''ready'' else ''awaiting_approval'')
                     @ '' to resolve approval (is '' @ quoted (task_status_text (tk_status task)) @ '')'')
                  [(''status'', JStr (task_status_text (tk_status task)))])) (\<lambda>_.
         bind (ts_value ctx now) (\<lambda>resolvedAt.
         bind (update_rows d_approvals_update (\<lambda>a. ap_id a = approvalId)
                 (\<lambda>a. a\<lparr>ap_status := toStatus, ap_resolvedBy := Some (cx_actorUserId ctx),
                        ap_resolvedAt := Some resolvedAt\<rparr>)) (\<lambda>_.
         bind (if \<not> executionGate \<and> decides (rq_decision req)
               then bind (transitionTask ctx \<lparr>tp_taskId = ap_taskId approval, tp_from = TS_awaiting_approval,
                            tp_trigger = (if rq_decision req = AO_approved then TT_approval_granted else TT_approval_rejected),
                            tp_now = now, tp_events = None\<rparr>) (\<lambda>transition.
                    guard (tres_changed transition)
                      (conflict_error ''task approval state changed during approval resolution'' []))
               else skip) (\<lambda>_.
         bind (emit ctx ((event_of ''approval.resolved'' Act_user (cx_actorUserId ctx) (ap_taskId approval))\<lparr>
                 es_projectId := Some (tk_projectId task), es_taskId := Some (ap_taskId approval),
                 es_roomId := tk_roomId task, es_runId := ap_runId approval,
                 es_payload := [(''approval_id'', JStr approvalId),
                   (''decision'', JStr (approval_outcome_text (rq_decision req))),
                   (''comment'', jopt (rq_comment req))]\<rparr>)) (\<lambda>_.
         bind (if executionGate \<and> decides (rq_decision req)
               then bind (sel d_blockers (\<lambda>b. bk_organizationId b = cx_organizationId ctx
                       \<and> bk_sourceKind b = Some BS_approval \<and> bk_sourceId b = Some (ap_id approval)
                       \<and> List.member [Blk_open, Blk_mitigated] (bk_status b))) (\<lambda>linked.
                    for_each linked (resolve_linked ctx now approval))
               else skip) (\<lambda>_.
         bind (sel d_approvals (\<lambda>a. ap_id a = approvalId)) (\<lambda>found.
         case first found of
           None \<Rightarrow> throw (Plain_error ''resolveApproval: approval missing after update'')
         | Some row \<Rightarrow> ret (mapApproval row))))))))))))))"

definition resolveApproval :: "server_context \<Rightarrow> ident \<Rightarrow> resolve_approval_request \<Rightarrow> approval srv" where
  "resolveApproval ctx approvalId req =
     bind (nowIso ctx) (\<lambda>now.
     bind (transaction (resolve_tx ctx approvalId req now)) (\<lambda>resolved.
     bind (if av_action resolved \<noteq> ''execution.start'' \<and> decides (rq_decision req)
           then bind (resolveBlockersForSource ctx BS_approval approvalId) (\<lambda>_. skip)
           else skip) (\<lambda>_.
     ret resolved)))"

section \<open>How the approvals evolve\<close>

text \<open>
  A row keeps its identity and its request; its mark can only become superseded, and a bound run is
  never unbound. New rows have new ids.
\<close>

definition kept :: "approval_row \<Rightarrow> approval_row \<Rightarrow> bool" where
  "kept a b \<longleftrightarrow> ap_id b = ap_id a \<and> ap_organizationId b = ap_organizationId a \<and> ap_taskId b = ap_taskId a
     \<and> ap_action b = ap_action a \<and> ap_summary b = ap_summary a \<and> ap_risk b = ap_risk a
     \<and> (ap_payloadRef b = ap_payloadRef a \<or> ap_payloadRef b = Some EXECUTION_GATE_SUPERSEDED)
     \<and> (ap_runId a \<noteq> None \<longrightarrow> ap_runId b \<noteq> None)"

definition evolves :: "database \<Rightarrow> database \<Rightarrow> bool" where
  "evolves d d' \<longleftrightarrow> (\<exists>olds news. d_approvals d' = olds @ news \<and> list_all2 kept (d_approvals d) olds
     \<and> ap_id ` set news \<inter> ap_id ` set (d_approvals d) = {})"

lemma kept_refl: "kept a a"
  by (simp add: kept_def)

lemma kept_trans: "kept a b \<Longrightarrow> kept b c \<Longrightarrow> kept a c"
  by (auto simp: kept_def)

lemma kept_rows_refl: "list_all2 kept rows rows"
  by (rule list.rel_refl) (rule kept_refl)

lemma kept_rows_trans: "list_all2 kept rows rows' \<Longrightarrow> list_all2 kept rows' rows'' \<Longrightarrow> list_all2 kept rows rows''"
  by (rule list_all2_trans [OF kept_trans])

lemma kept_set_rows: "(\<And>a. P a \<Longrightarrow> kept a (f a)) \<Longrightarrow> list_all2 kept rows (set_rows P f rows)"
  by (induction rows) (simp_all add: set_rows_def kept_refl)

lemma kept_ids: "list_all2 kept rows rows' \<Longrightarrow> map ap_id rows' = map ap_id rows"
  by (induction rule: list_all2_induct) (simp_all add: kept_def)

lemma evolves_kept: "list_all2 kept (d_approvals d) (d_approvals d') \<Longrightarrow> evolves d d'"
  unfolding evolves_def by (intro exI [of _ "d_approvals d'"] exI [of _ "[]"]) simp

interpretation ev: table_order evolves d_approvals
proof
  fix d :: database
  show "evolves d d" by (rule evolves_kept) (rule kept_rows_refl)
next
  fix d d' d'' assume 1: "evolves d d'" and 2: "evolves d' d''"
  from 1 obtain olds news where rows': "d_approvals d' = olds @ news" and olds: "list_all2 kept (d_approvals d) olds"
    and news: "ap_id ` set news \<inter> ap_id ` set (d_approvals d) = {}"
    unfolding evolves_def by blast
  from 2 obtain kept' news' where rows'': "d_approvals d'' = kept' @ news'" and k: "list_all2 kept (olds @ news) kept'"
    and news': "ap_id ` set news' \<inter> ap_id ` set (d_approvals d') = {}"
    unfolding evolves_def rows' by blast
  from k obtain olds' mids where split: "kept' = olds' @ mids" "list_all2 kept olds olds'" "list_all2 kept news mids"
    by (auto simp: list_all2_append1)
  have "ap_id ` set mids = ap_id ` set news" using arg_cong [OF kept_ids [OF split(3)], of set] by simp
  moreover have "ap_id ` set olds = ap_id ` set (d_approvals d)" using arg_cong [OF kept_ids [OF olds], of set] by simp
  ultimately have "ap_id ` set (mids @ news') \<inter> ap_id ` set (d_approvals d) = {}"
    using news news' unfolding rows' set_append image_Un by (simp add: Int_Un_distrib Int_Un_distrib2)
  then show "evolves d d''"
    unfolding evolves_def using rows'' split kept_rows_trans [OF olds split(2)]
    by (intro exI [of _ olds'] exI [of _ "mids @ news'"]) simp
next
  fix d d' :: database assume "d_approvals d = d_approvals d'"
  then show "evolves d d'" using kept_rows_refl by (intro evolves_kept) simp
qed

lemma moves_update: "(\<And>a. P a \<Longrightarrow> kept a (f a)) \<Longrightarrow> moves evolves (update_rows d_approvals_update P f)"
  by (rule movesI) (simp add: update_rows_run evolves_kept kept_set_rows)

lemma checked_approval_ok:
  assumes "checked_approval ctx row w = (Inr r, w')"
  shows "w' = w" "ap_id r = ap_id row" "ap_organizationId r = ap_organizationId row" "ap_taskId r = ap_taskId row"
    "ap_action r = ap_action row" "ap_payloadRef r = ap_payloadRef row" "ap_id row \<notin> ap_id ` set (d_approvals (w_db w))"
  using assms by (auto simp: checked_approval_def bind_checks run_basic list_ex_iff split: option.splits if_splits)

lemma reads_checked_approval: "reads (checked_approval ctx row)"
  unfolding checked_approval_def unique_def refers_def refers_opt_def by (intro reads_rules)

lemma moves_insert_approval: "moves evolves (insert_approval ctx row)"
proof (rule movesI)
  fix w
  show "evolves (w_db w) (w_db (snd (insert_approval ctx row w)))"
  proof (cases "checked_approval ctx row w")
    case (Pair x w1)
    have "w1 = w" by (rule readsD [OF reads_checked_approval Pair])
    show ?thesis
    proof (cases x)
      case (Inl e)
      then show ?thesis using Pair \<open>w1 = w\<close> ev.order_refl by (simp add: insert_approval_def bind_def)
    next
      case (Inr r)
      have "ap_id r \<notin> ap_id ` set (d_approvals (w_db w))"
        using checked_approval_ok [OF Pair [unfolded Inr]] by simp
      then have "evolves (w_db w) (d_approvals_update (\<lambda>rows. rows @ [r]) (w_db w))"
        unfolding evolves_def using kept_rows_refl by (intro exI [of _ "d_approvals (w_db w)"] exI [of _ "[r]"]) simp
      then show ?thesis using Pair Inr \<open>w1 = w\<close> by (simp add: insert_approval_def bind_def in_db_run)
    qed
  qed
qed

lemma moves_supersede: "moves evolves (supersede ctx now a)"
  unfolding supersede_def by (intro ev.moves_rules moves_update) (simp_all add: kept_def)

lemma leaves_relink: "leaves d_approvals (relink_blocker ctx i now acc b)"
  unfolding relink_blocker_def by (intro leaves_rules leaves_update) simp

lemma leaves_emit_approvals: "leaves d_approvals (emit ctx spec)"
  by (rule leaves_emit) simp

lemma leaves_resolve_linked: "leaves d_approvals (resolve_linked ctx now a b)"
  unfolding resolve_linked_def by (intro leaves_rules leaves_update leaves_emit_approvals) simp

lemma logs_only_simps: "logs_only \<lparr>tp_taskId = i, tp_from = s, tp_trigger = t, tp_now = n, tp_events = None\<rparr>"
  "logs_only \<lparr>tp_taskId = i, tp_from = s, tp_trigger = t, tp_now = n, tp_events = Some (\<lambda>to. build_all ctx (specs to))\<rparr>"
  by (auto simp: logs_only_def quiet_rules)

lemma leaves_transition_approvals: "logs_only p \<Longrightarrow> leaves d_approvals (transitionTask ctx p)"
  by (rule leaves_transitionTask) simp_all

lemma leaves_sweep: "leaves d_approvals (resolveBlockersForSource ctx kind source)"
proof -
  have "leaves d_approvals (emit_record ctx ty c r p)" for ty c r p
    by (rule leaves_quiet) (intro quiet_rules | simp)+
  then show ?thesis
    unfolding resolveBlockersForSource_def resolve_one_def setBlockerStatus_def getBlocker_def
    by (intro leaves_rules leaves_update) simp_all
qed

lemma moves_requestApproval: "moves evolves (requestApproval ctx params)"
  unfolding requestApproval_def
  by (intro ev.moves_rules moves_insert_approval ev.moves_leaves [OF leaves_transition_approvals] logs_only_simps)

lemma moves_requestExecutionApproval: "moves evolves (requestExecutionApproval ctx t s r)"
  unfolding requestExecutionApproval_def Let_def
  by (intro ev.moves_rules moves_supersede moves_insert_approval ev.moves_leaves [OF leaves_relink]
      ev.moves_leaves [OF leaves_emit_approvals])

lemma moves_bindExecution: "moves evolves (bindExecutionApprovalToRun ctx t r)"
  unfolding bindExecutionApprovalToRun_def Let_def refers_def
  by (intro ev.moves_rules moves_update) (simp add: kept_def)

lemma moves_resolveApproval: "moves evolves (resolveApproval ctx i req)"
  unfolding resolveApproval_def resolve_tx_def approval_row_of_def Let_def
  by (intro ev.moves_rules moves_update ev.moves_leaves [OF leaves_transition_approvals] logs_only_simps
      ev.moves_leaves [OF leaves_emit_approvals] ev.moves_leaves [OF leaves_resolve_linked]
      ev.moves_leaves [OF leaves_sweep]) (simp add: kept_def)

text \<open>The steps of the system as far as approvals go: the operations, and anything that leaves them alone.\<close>

inductive approval_step :: "world \<Rightarrow> world \<Rightarrow> bool" where
  step_request: "approval_step w (snd (requestApproval ctx params w))"
| step_gate: "approval_step w (snd (requestExecutionApproval ctx t s r w))"
| step_bind: "approval_step w (snd (bindExecutionApprovalToRun ctx t run w))"
| step_resolve: "approval_step w (snd (resolveApproval ctx i req w))"
| step_other: "d_approvals (w_db w') = d_approvals (w_db w) \<Longrightarrow> approval_step w w'"

lemma step_evolves: "approval_step w w' \<Longrightarrow> evolves (w_db w) (w_db w')"
proof (induction rule: approval_step.induct)
  case (step_request w ctx params)
  show ?case by (rule movesD [OF moves_requestApproval])
next
  case (step_gate w ctx t s r)
  show ?case by (rule movesD [OF moves_requestExecutionApproval])
next
  case (step_bind w ctx t run)
  show ?case by (rule movesD [OF moves_bindExecution])
next
  case (step_resolve w ctx i req)
  show ?case by (rule movesD [OF moves_resolveApproval])
next
  case (step_other w' w)
  then show ?case by (intro ev.order_table) simp
qed

lemma steps_evolve: "approval_step\<^sup>*\<^sup>* w w' \<Longrightarrow> evolves (w_db w) (w_db w')"
  by (erule ev.order_steps) (rule step_evolves)


section \<open>One current gate\<close>

definition gate_now :: "ident \<Rightarrow> ident \<Rightarrow> approval_row \<Rightarrow> bool" where
  "gate_now org task a \<longleftrightarrow> ap_organizationId a = org \<and> ap_taskId a = task \<and> ap_action a = ''execution.start''
     \<and> ap_payloadRef a = Some EXECUTION_GATE_CURRENT"

definition one_gate :: "approval_row list \<Rightarrow> bool" where
  "one_gate rows \<longleftrightarrow> (\<forall>org task. length (filter (gate_now org task) rows) \<le> 1)"

abbreviation gates_inv :: "world \<Rightarrow> bool" where
  "gates_inv w \<equiv> one_gate (d_approvals (w_db w))"

lemma gate_marks_differ: "EXECUTION_GATE_CURRENT \<noteq> EXECUTION_GATE_SUPERSEDED"
  by (simp add: EXECUTION_GATE_CURRENT_def EXECUTION_GATE_SUPERSEDED_def)

lemma kept_gate: "kept a b \<Longrightarrow> gate_now org task b \<Longrightarrow> gate_now org task a"
  using gate_marks_differ by (auto simp: kept_def gate_now_def)

lemma kept_gate_count:
  "list_all2 kept rows rows' \<Longrightarrow> length (filter (gate_now org task) rows') \<le> length (filter (gate_now org task) rows)"
  by (induction rule: list_all2_induct) (auto dest: kept_gate)

lemma one_gate_kept: "one_gate rows \<Longrightarrow> list_all2 kept rows rows' \<Longrightarrow> one_gate rows'"
  unfolding one_gate_def using kept_gate_count le_trans by blast

text \<open>An append that is no gate of the current kind keeps the invariant.\<close>

lemma one_gate_append: "one_gate rows \<Longrightarrow> ap_payloadRef r \<noteq> Some EXECUTION_GATE_CURRENT \<Longrightarrow> one_gate (rows @ [r])"
  by (simp add: one_gate_def gate_now_def)

lemma one_gate_replace:
  assumes "one_gate rows" "filter (gate_now org task) rows = []" "ap_organizationId r = org" "ap_taskId r = task"
  shows "one_gate (rows @ [r])"
  using assms by (auto simp: one_gate_def gate_now_def)

lemma keeps_of_leaves: "leaves d_approvals m \<Longrightarrow> keeps gates_inv m"
  by (rule keepsI) (simp add: leavesD)

lemma keeps_update_approvals: "(\<And>a. P a \<Longrightarrow> kept a (f a)) \<Longrightarrow> keeps gates_inv (update_rows d_approvals_update P f)"
  by (rule keepsI) (simp add: update_rows_run one_gate_kept [OF _ kept_set_rows])

lemma insert_approval_cases:
  obtains e where "insert_approval ctx row w = (Inl e, w)"
  | r where "insert_approval ctx row w = (Inr (), w\<lparr>w_db := d_approvals_update (\<lambda>rows. rows @ [r]) (w_db w)\<rparr>)"
      "ap_id r = ap_id row" "ap_organizationId r = ap_organizationId row" "ap_taskId r = ap_taskId row"
      "ap_action r = ap_action row" "ap_payloadRef r = ap_payloadRef row"
proof (cases "checked_approval ctx row w")
  case (Pair x w1)
  have w1: "w1 = w" by (rule readsD [OF reads_checked_approval Pair])
  show ?thesis
  proof (cases x)
    case (Inl e)
    then show ?thesis using Pair w1 that(1) by (simp add: insert_approval_def bind_def)
  next
    case (Inr r)
    then show ?thesis using Pair w1 checked_approval_ok [OF Pair [unfolded Inr]]
      by (intro that(2) [of r]) (simp_all add: insert_approval_def bind_def in_db_run)
  qed
qed

lemma keeps_insert_plain: "ap_payloadRef row = None \<Longrightarrow> keeps gates_inv (insert_approval ctx row)"
proof (rule keepsI)
  fix w assume "ap_payloadRef row = None" "gates_inv w"
  then show "gates_inv (snd (insert_approval ctx row w))"
    by (cases rule: insert_approval_cases [of ctx row w]) (simp_all add: one_gate_append)
qed

text \<open>The loop of a request leaves no current gate of its task, so the new one is alone.\<close>

lemma supersede_run:
  assumes "supersede ctx now a w = (r, w')"
  shows "list_all2 kept (d_approvals (w_db w)) (d_approvals (w_db w'))
    \<and> (\<forall>u. r = Inr u \<longrightarrow> (\<forall>b \<in> set (d_approvals (w_db w')). ap_id b = ap_id a \<longrightarrow> ap_payloadRef b = Some EXECUTION_GATE_SUPERSEDED))"
proof -
  have upd: "list_all2 kept rows (set_rows (\<lambda>b. ap_id b = i) f rows)
      \<and> (\<forall>b \<in> set (set_rows (\<lambda>b. ap_id b = i) f rows). ap_id b = i \<longrightarrow> ap_payloadRef b = Some EXECUTION_GATE_SUPERSEDED)"
    if "\<And>b. kept b (f b)" "\<And>b. ap_payloadRef (f b) = Some EXECUTION_GATE_SUPERSEDED" for rows i f
    by (intro conjI kept_set_rows that(1)) (auto simp: set_rows_def that(2))
  let ?f = "\<lambda>t a. a\<lparr>ap_payloadRef := Some EXECUTION_GATE_SUPERSEDED, ap_status := AS_expired, ap_resolvedAt := Some t\<rparr>"
  let ?g = "\<lambda>a. a\<lparr>ap_payloadRef := Some EXECUTION_GATE_SUPERSEDED\<rparr>"
  have f: "kept b (?f t b)" "ap_payloadRef (?f t b) = Some EXECUTION_GATE_SUPERSEDED"
    "kept b (?g b)" "ap_payloadRef (?g b) = Some EXECUTION_GATE_SUPERSEDED" for t b
    by (simp_all add: kept_def)
  show ?thesis
    using assms upd [of "?f _", OF f(1,2)] upd [of ?g, OF f(3,4)] kept_rows_refl
    by (auto simp: supersede_def bind_ts_value update_rows_run split: if_splits option.splits)
qed

lemma supersede_loop:
  "triple (\<lambda>w. d_approvals (w_db w) = rows) (for_each current (supersede ctx now))
    (\<lambda>_ w. list_all2 kept rows (d_approvals (w_db w)) \<and> (\<forall>a \<in> set current. \<forall>b \<in> set (d_approvals (w_db w)).
       ap_id b = ap_id a \<longrightarrow> ap_payloadRef b = Some EXECUTION_GATE_SUPERSEDED))
    (\<lambda>_ w. list_all2 kept rows (d_approvals (w_db w)))"
proof (rule triple_pre [where P' = "\<lambda>w. list_all2 kept rows (d_approvals (w_db w))
      \<and> (\<forall>a \<in> set ([] :: approval_row list). \<forall>b \<in> set (d_approvals (w_db w)). ap_id b = ap_id a \<longrightarrow> ap_payloadRef b = Some EXECUTION_GATE_SUPERSEDED)"],
    rule triple_for_each, rule tripleI, goal_cases)
  case (1 pre x post w u w')
  note run = supersede_run [OF 1(3)]
  have "\<forall>a \<in> set pre. \<forall>b \<in> set (d_approvals (w_db w')). ap_id b = ap_id a \<longrightarrow> ap_payloadRef b = Some EXECUTION_GATE_SUPERSEDED"
  proof (intro ballI impI)
    fix a b assume "a \<in> set pre" "b \<in> set (d_approvals (w_db w'))" "ap_id b = ap_id a"
    moreover from this obtain c where "c \<in> set (d_approvals (w_db w))" "kept c b"
      using list_all2_right [OF conjunct1 [OF run]] by blast
    ultimately show "ap_payloadRef b = Some EXECUTION_GATE_SUPERSEDED" using 1(2) by (auto simp: kept_def)
  qed
  moreover have "list_all2 kept rows (d_approvals (w_db w'))" using run 1(2) kept_rows_trans by blast
  ultimately show ?case using run by simp
next
  case (2 pre x post w e w')
  show ?case using supersede_run [OF 2(3)] 2(2) kept_rows_trans by blast
next
  case (3 w)
  then show ?case using kept_rows_refl by simp
qed

lemma supersede_all:
  assumes prior: "current = filter (\<lambda>a. ap_payloadRef a \<noteq> Some EXECUTION_GATE_SUPERSEDED) (filter (execution_gate ctx t) rows)"
    and one: "one_gate rows"
  shows "triple (\<lambda>w. d_approvals (w_db w) = rows) (for_each current (supersede ctx now))
    (\<lambda>_ w. gates_inv w \<and> filter (gate_now (cx_organizationId ctx) t) (d_approvals (w_db w)) = []) (\<lambda>_. gates_inv)"
proof (rule triple_conseq [OF supersede_loop [of rows]], goal_cases)
  case (1 w)
  then show ?case .
next
  case (2 u w)
  have "\<not> gate_now (cx_organizationId ctx) t b" if b: "b \<in> set (d_approvals (w_db w))" for b
  proof
    assume now: "gate_now (cx_organizationId ctx) t b"
    obtain a where a: "a \<in> set rows" "kept a b" using list_all2_right [OF _ b] 2 by blast
    then have "gate_now (cx_organizationId ctx) t a" using now kept_gate by blast
    then have "a \<in> set current" using a gate_marks_differ by (simp add: prior execution_gate_def gate_now_def)
    then have "ap_payloadRef b = Some EXECUTION_GATE_SUPERSEDED" using 2 a b by (auto simp: kept_def)
    then show False using now gate_marks_differ by (simp add: gate_now_def)
  qed
  then show ?case using 2 one_gate_kept [OF one] by (simp add: filter_empty_conv)
next
  case (3 e w)
  then show ?case using one_gate_kept [OF one] by blast
qed

lemma triple_insert_gate:
  assumes "ap_organizationId row = org" "ap_taskId row = t"
  shows "triple (\<lambda>w. gates_inv w \<and> filter (gate_now org t) (d_approvals (w_db w)) = []) (insert_approval ctx row)
    (\<lambda>_. gates_inv) (\<lambda>_. gates_inv)"
  unfolding triple_def
proof (intro allI impI)
  fix w assume "gates_inv w \<and> filter (gate_now org t) (d_approvals (w_db w)) = []"
  then show "case insert_approval ctx row w of (Inl e, s') \<Rightarrow> gates_inv s' | (Inr a, s') \<Rightarrow> gates_inv s'"
    using one_gate_replace assms by (cases rule: insert_approval_cases [of ctx row w]) auto
qed


lemma triple_keeps: "keeps I m \<Longrightarrow> triple I m (\<lambda>_. I) (\<lambda>_. I)"
  by (simp add: keeps_triple)

lemma triple_leaves_approvals:
  "leaves d_approvals m \<Longrightarrow> triple (\<lambda>w. Q (d_approvals (w_db w))) m (\<lambda>_ w. Q (d_approvals (w_db w))) (\<lambda>_ w. Q (d_approvals (w_db w)))"
  unfolding keeps_triple [symmetric] by (rule keepsI) (simp add: leavesD)

lemma keeps_replace_gate:
  assumes row: "\<And>i now. ap_organizationId (row i now) = cx_organizationId ctx" "\<And>i now. ap_taskId (row i now) = t"
    and rest: "\<And>i now prior. keeps gates_inv (rest i now prior)"
  shows "keeps gates_inv (bind (sel d_approvals (execution_gate ctx t)) (\<lambda>prior.
      bind (generate ctx IP_approval) (\<lambda>i. bind (nowIso ctx) (\<lambda>now.
      bind (for_each (filter (\<lambda>a. ap_payloadRef a \<noteq> Some EXECUTION_GATE_SUPERSEDED) prior) (supersede ctx now)) (\<lambda>_.
      bind (insert_approval ctx (row i now)) (\<lambda>_. rest i now prior))))))"
  unfolding keeps_triple
proof (rule triple_sel_rows)
  fix rows
  let ?P = "\<lambda>w. gates_inv w \<and> d_approvals (w_db w) = rows"
  have quiet: "triple ?P m (\<lambda>_. ?P) (\<lambda>_. gates_inv)" if "leaves d_approvals m" for m :: "'x srv"
    by (rule tripleI) (auto simp: leaves_run [OF that])
  have loop: "triple ?P (for_each (filter (\<lambda>a. ap_payloadRef a \<noteq> Some EXECUTION_GATE_SUPERSEDED)
        (filter (execution_gate ctx t) rows)) (supersede ctx now))
      (\<lambda>_ w. gates_inv w \<and> filter (gate_now (cx_organizationId ctx) t) (d_approvals (w_db w)) = []) (\<lambda>_. gates_inv)" for now
  proof (cases "one_gate rows")
    case True
    show ?thesis by (rule triple_pre [OF supersede_all [OF refl True]]) blast
  next
    case False
    then show ?thesis by (auto simp: triple_def)
  qed
  show "triple ?P
     (bind (generate ctx IP_approval) (\<lambda>i. bind (nowIso ctx) (\<lambda>now.
      bind (for_each (filter (\<lambda>a. ap_payloadRef a \<noteq> Some EXECUTION_GATE_SUPERSEDED) (filter (execution_gate ctx t) rows)) (supersede ctx now)) (\<lambda>_.
      bind (insert_approval ctx (row i now)) (\<lambda>_. rest i now (filter (execution_gate ctx t) rows)))))) (\<lambda>_. gates_inv) (\<lambda>_. gates_inv)"
    by (rule triple_bind [OF quiet], rule leaves_rules, rule triple_bind [OF quiet], rule leaves_rules,
        rule triple_bind [OF loop], rule triple_bind [OF triple_insert_gate],
        rule row, rule row, rule triple_keeps, rule rest)
qed

lemma keeps_tx_gates: "keeps gates_inv m \<Longrightarrow> keeps gates_inv (transaction m)"
  by (rule keeps_transaction_any) simp_all

lemma keeps_requestExecutionApproval: "keeps gates_inv (requestExecutionApproval ctx t s r)"
  unfolding requestExecutionApproval_def Let_def
  by (rule keeps_bind, rule keeps_guard, rule keeps_tx_gates, rule keeps_bind, rule keeps_of_leaves, rule leaves_rules,
      rule keeps_option, rule keeps_throw, rule keeps_bind, rule keeps_guard, rule keeps_replace_gate, simp, simp)
     (intro keeps_of_leaves leaves_rules leaves_relink leaves_emit_approvals)

lemma keeps_requestApproval: "keeps gates_inv (requestApproval ctx params)"
  unfolding requestApproval_def
  by (intro keeps_rules keeps_tx_gates keeps_of_leaves [OF leaves_transition_approvals] keeps_insert_plain
      logs_only_simps keeps_of_leaves [OF leaves_basic(1)] keeps_of_leaves [OF leaves_basic(2)]
      keeps_of_leaves [OF leaves_basic(3)]) simp

lemma keeps_bindExecution: "keeps gates_inv (bindExecutionApprovalToRun ctx t r)"
  unfolding bindExecutionApprovalToRun_def Let_def refers_def
  by (intro keeps_rules keeps_of_leaves [OF leaves_basic(3)] keeps_of_leaves [OF leaves_basic(6)] keeps_update_approvals)
     (simp add: kept_def)

lemma keeps_resolveApproval: "keeps gates_inv (resolveApproval ctx i req)"
  unfolding resolveApproval_def resolve_tx_def approval_row_of_def Let_def
  by (intro keeps_rules keeps_tx_gates keeps_of_leaves [OF leaves_transition_approvals] logs_only_simps
      keeps_of_leaves [OF leaves_emit_approvals] keeps_of_leaves [OF leaves_resolve_linked]
      keeps_of_leaves [OF leaves_sweep] keeps_of_leaves [OF leaves_basic(1)] keeps_of_leaves [OF leaves_basic(3)]
      keeps_of_leaves [OF leaves_basic(4)] keeps_update_approvals) (simp add: kept_def)

text \<open>
  Property C14. A task has at most one current execution gate. Whatever requests, bindings and
  resolutions are made, of whichever organizations, and whatever else happens that leaves the
  approvals alone, a database with at most one approval of an execution per organization and task
  that is marked current keeps at most one.
\<close>

theorem one_current_gate:
  assumes "approval_step\<^sup>*\<^sup>* w w'" and "one_gate (d_approvals (w_db w))"
  shows "length (filter (\<lambda>a. ap_organizationId a = org \<and> ap_taskId a = task \<and> ap_action a = ''execution.start''
      \<and> ap_payloadRef a = Some EXECUTION_GATE_CURRENT) (d_approvals (w_db w'))) \<le> 1"
proof -
  have "gates_inv w'" using assms
  proof (induction rule: rtranclp_induct)
    case (step v u)
    then have v: "gates_inv v" by blast
    from step.hyps(2) show ?case
    proof cases
      case (step_request ctx params)
      then show ?thesis using keepsD [OF keeps_requestApproval v] by simp
    next
      case (step_gate ctx t s r)
      then show ?thesis using keepsD [OF keeps_requestExecutionApproval v] by simp
    next
      case (step_bind ctx t run)
      then show ?thesis using keepsD [OF keeps_bindExecution v] by simp
    next
      case (step_resolve ctx i req)
      then show ?thesis using keepsD [OF keeps_resolveApproval v] by simp
    next
      case step_other
      then show ?thesis using v by simp
    qed
  qed
  then show ?thesis unfolding one_gate_def gate_now_def [abs_def] by blast
qed

section \<open>Stale approvals\<close>

text \<open>The id belongs to a request for execution that has been superseded.\<close>

definition stale :: "ident \<Rightarrow> approval_row list \<Rightarrow> bool" where
  "stale i rows \<longleftrightarrow> (\<forall>a \<in> set rows. ap_id a = i \<longrightarrow> ap_action a = ''execution.start''
     \<and> ap_payloadRef a = Some EXECUTION_GATE_SUPERSEDED) \<and> i \<in> ap_id ` set rows"

lemma stale_kept: "stale i rows \<Longrightarrow> list_all2 kept rows rows' \<Longrightarrow> stale i rows'"
proof -
  assume i: "stale i rows" and k: "list_all2 kept rows rows'"
  have "ap_id ` set rows' = ap_id ` set rows" using arg_cong [OF kept_ids [OF k], of set] by simp
  moreover have "ap_action b = ''execution.start'' \<and> ap_payloadRef b = Some EXECUTION_GATE_SUPERSEDED"
    if b: "b \<in> set rows'" "ap_id b = i" for b
  proof -
    obtain a where a: "a \<in> set rows" "kept a b" using list_all2_right [OF k b(1)] by blast
    then have "ap_id a = i" using b(2) by (simp add: kept_def)
    then show ?thesis using i a unfolding stale_def kept_def by metis
  qed
  ultimately show "stale i rows'" using i by (simp add: stale_def)
qed

lemma stale_evolves: "evolves d d' \<Longrightarrow> stale i (d_approvals d) \<Longrightarrow> stale i (d_approvals d')"
proof -
  assume ev: "evolves d d'" and i: "stale i (d_approvals d)"
  from ev obtain olds news where d': "d_approvals d' = olds @ news" and k: "list_all2 kept (d_approvals d) olds"
    and news: "ap_id ` set news \<inter> ap_id ` set (d_approvals d) = {}" unfolding evolves_def by blast
  have "stale i olds" by (rule stale_kept [OF i k])
  moreover have "i \<in> ap_id ` set (d_approvals d)" using i by (simp add: stale_def)
  then have "\<forall>b \<in> set news. ap_id b \<noteq> i" using news by auto
  ultimately show ?thesis by (simp add: stale_def d' image_Un ball_Un)
qed

lemma bind_approval_row:
  "bind (approval_row_of ctx i e) f w =
     (case find (\<lambda>a. ap_id a = i \<and> ap_organizationId a = cx_organizationId ctx) (d_approvals (w_db w)) of
        None \<Rightarrow> (Inl e, w) | Some a \<Rightarrow> f a w)"
  by (simp add: approval_row_of_def bind_assoc bind_sel first_filter run_basic split: option.split)

lemma stale_not_resolved:
  assumes "stale i (d_approvals (w_db w))"
  shows "\<exists>e w'. resolve_tx ctx i req now w = (Inl e, w')"
proof (cases "find (\<lambda>a. ap_id a = i \<and> ap_organizationId a = cx_organizationId ctx) (d_approvals (w_db w))")
  case None
  then show ?thesis by (simp add: resolve_tx_def bind_approval_row)
next
  case (Some a)
  then have a: "ap_action a = ''execution.start''" "ap_payloadRef a \<noteq> Some EXECUTION_GATE_CURRENT"
    using assms gate_marks_differ find_Some_D [OF Some] by (auto simp: stale_def)
  show ?thesis
  proof (cases "first (filter (\<lambda>t. tk_id t = ap_taskId a \<and> tk_organizationId t = cx_organizationId ctx) (d_tasks (w_db w)))")
    case None
    then show ?thesis by (simp add: resolve_tx_def bind_approval_row Some bind_sel run_basic del: first_None_iff)
  next
    case t: (Some t)
    show ?thesis by (simp add: resolve_tx_def bind_approval_row Some bind_sel t Let_def bind_guard a)
  qed
qed

lemma triple_stale: "moves evolves m \<Longrightarrow> triple (\<lambda>w. stale i (d_approvals (w_db w))) m (\<lambda>_ w. stale i (d_approvals (w_db w))) (\<lambda>_ _. True)"
  by (rule tripleI) (auto dest: moves_run stale_evolves)

lemma triple_rows: "leaves d_approvals m \<Longrightarrow> triple (\<lambda>w. d_approvals (w_db w) = rows) m (\<lambda>_ w. d_approvals (w_db w) = rows) (\<lambda>_ _. True)"
  by (rule tripleI) (auto simp: leaves_run)

lemma superseded_after_loop:
  assumes a: "a \<in> set rows" "execution_gate ctx t a" "distinct (map ap_id rows)"
  shows "triple (\<lambda>w. d_approvals (w_db w) = rows)
    (for_each (filter (\<lambda>a. ap_payloadRef a \<noteq> Some EXECUTION_GATE_SUPERSEDED) (filter (execution_gate ctx t) rows)) (supersede ctx now))
    (\<lambda>_ w. stale (ap_id a) (d_approvals (w_db w))) (\<lambda>_ _. True)"
proof (rule triple_conseq [OF supersede_loop [of rows]], goal_cases)
  case (2 u w)
  have only: "c = a" if "c \<in> set rows" "ap_id c = ap_id a" for c
    using that a(1,3) by (meson eq_key_imp_eq_value distinct_map inj_onD)
  have "ap_id ` set (d_approvals (w_db w)) = ap_id ` set rows" using 2 arg_cong [OF kept_ids, of _ _ set] by force
  moreover have "ap_action b = ''execution.start'' \<and> ap_payloadRef b = Some EXECUTION_GATE_SUPERSEDED"
    if b: "b \<in> set (d_approvals (w_db w))" "ap_id b = ap_id a" for b
  proof -
    obtain c where c: "c \<in> set rows" "kept c b" using list_all2_right [OF _ b(1)] 2 by blast
    have "ap_id b = ap_id c" using c(2) by (simp add: kept_def)
    then have "c = a" using b(2) by (intro only [OF c(1)]) simp
    then have "kept a b" using c(2) by simp
    then have b': "ap_action b = ap_action a" "ap_payloadRef b = ap_payloadRef a \<or> ap_payloadRef b = Some EXECUTION_GATE_SUPERSEDED"
      unfolding kept_def by blast+
    have "ap_payloadRef a = Some EXECUTION_GATE_SUPERSEDED \<or> a \<in> set (filter (\<lambda>a. ap_payloadRef a \<noteq> Some EXECUTION_GATE_SUPERSEDED)
        (filter (execution_gate ctx t) rows))" using a by simp
    then have "ap_payloadRef b = Some EXECUTION_GATE_SUPERSEDED"
    proof
      assume "ap_payloadRef a = Some EXECUTION_GATE_SUPERSEDED"
      then show ?thesis using b'(2) by simp
    next
      assume "a \<in> set (filter (\<lambda>a. ap_payloadRef a \<noteq> Some EXECUTION_GATE_SUPERSEDED) (filter (execution_gate ctx t) rows))"
      from bspec [OF bspec [OF conjunct2 [OF 2] this] b(1)] b(2) show ?thesis by blast
    qed
    moreover have "ap_action a = ''execution.start''" using a(2) by (simp add: execution_gate_def)
    ultimately show ?thesis using b'(1) by simp
  qed
  ultimately show ?case using a(1) by (simp add: stale_def)
qed simp_all

lemma request_supersedes:
  assumes "requestExecutionApproval ctx t s r w = (Inr new, w')"
    and "a \<in> set (d_approvals (w_db w))" "execution_gate ctx t a" "distinct (map ap_id (d_approvals (w_db w)))"
  shows "stale (ap_id a) (d_approvals (w_db w'))"
proof -
  let ?rows = "d_approvals (w_db w)"
  have "triple (\<lambda>w. d_approvals (w_db w) = ?rows) (requestExecutionApproval ctx t s r)
      (\<lambda>_ w. stale (ap_id a) (d_approvals (w_db w))) (\<lambda>_ _. True)"
    unfolding requestExecutionApproval_def Let_def
    by (rule triple_bind [OF triple_rows], rule leaves_rules, rule triple_tx, rule triple_bind [OF triple_rows], rule leaves_rules,
        rule triple_option, rule triple_throw, rule TrueI, rule triple_bind [OF triple_rows], rule leaves_rules,
        rule triple_sel_known, rule triple_bind [OF triple_rows], rule leaves_rules, rule triple_bind [OF triple_rows],
        rule leaves_rules, rule triple_bind [OF superseded_after_loop], rule assms, rule assms, rule assms, rule triple_stale)
       (intro ev.moves_rules moves_insert_approval ev.moves_leaves [OF leaves_relink] ev.moves_leaves [OF leaves_emit_approvals])
  from tripleD [OF this refl assms(1)] show ?thesis .
qed

text \<open>
  Property C13. A decision taken on an old page has no effect. Once a new execution approval of a task
  was requested, no earlier one of that task can be resolved any more, by anyone, whatever the
  decision and whatever happened in between: the call throws and writes nothing.
\<close>

theorem superseded_never_resolved:
  assumes "requestExecutionApproval ctx t s r w0 = (Inr new, w1)"
    and "a \<in> set (d_approvals (w_db w0))" "execution_gate ctx t a" "distinct (map ap_id (d_approvals (w_db w0)))"
    and "approval_step\<^sup>*\<^sup>* w1 w"
  shows "(case fst (resolveApproval ctx' (ap_id a) req w) of Inl e \<Rightarrow> True | Inr _ \<Rightarrow> False)
    \<and> w_db (snd (resolveApproval ctx' (ap_id a) req w)) = w_db w"
proof -
  have "stale (ap_id a) (d_approvals (w_db w))"
    using stale_evolves [OF steps_evolve [OF assms(5)] request_supersedes [OF assms(1-4)]] .
  then have "stale (ap_id a) (d_approvals (w_db (w\<lparr>w_clock := w_clock w + 1\<rparr>)))" by simp
  from stale_not_resolved [OF this, of ctx' req "cx_now ctx' (w_clock w)"] obtain e w'
    where run: "resolve_tx ctx' (ap_id a) req (cx_now ctx' (w_clock w)) (w\<lparr>w_clock := w_clock w + 1\<rparr>) = (Inl e, w')"
    by blast
  then have "transaction (resolve_tx ctx' (ap_id a) req (cx_now ctx' (w_clock w))) (w\<lparr>w_clock := w_clock w + 1\<rparr>)
      = (Inl e, w'\<lparr>w_db := w_db w\<rparr>)" by (simp add: transaction_def)
  then show ?thesis unfolding resolveApproval_def bind_nowIso by (simp add: bind_def)
qed

section \<open>One start per approval\<close>

lemma granted_iff:
  "assertExecutionApprovalGranted ctx t w =
     (let gates = filter (execution_gate ctx t) (d_approvals (w_db w));
          current = filter (\<lambda>g. ap_payloadRef g \<noteq> Some EXECUTION_GATE_SUPERSEDED) gates in
      if gates = [] \<or> (\<exists>g. current = [g] \<and> ap_payloadRef g = Some EXECUTION_GATE_CURRENT \<and> ap_status g = AS_approved \<and> ap_runId g = None)
      then (Inr (), w)
      else (Inl (conflict_error ''Execution approval is required before this task can start'' []), w))"
proof -
  let ?current = "filter (\<lambda>g. ap_payloadRef g \<noteq> Some EXECUTION_GATE_SUPERSEDED) (filter (execution_gate ctx t) (d_approvals (w_db w)))"
  have "length ?current \<noteq> 1 \<or> (\<exists>g. ?current = [g])" by (metis One_nat_def length_0_conv length_Suc_conv)
  then show ?thesis
    by (auto simp: assertExecutionApprovalGranted_def bind_sel Let_def guard_def run_basic simp del: filter_filter)
qed

text \<open>What a binding does to the row that granted the start: it is no longer unbound.\<close>

lemma bind_execution_rows:
  assumes "bindExecutionApprovalToRun ctx t run w = (Inr u, w')"
  shows "d_approvals (w_db w') = set_rows (\<lambda>a. execution_gate ctx t a \<and> ap_status a = AS_approved
      \<and> ap_payloadRef a = Some EXECUTION_GATE_CURRENT) (\<lambda>a. a\<lparr>ap_runId := Some run\<rparr>) (d_approvals (w_db w))"
  using assms unfolding bindExecutionApprovalToRun_def Let_def bind_sel
  by (simp add: bind_def refers_result update_rows_run run_basic split: if_splits) auto

lemma granted_cases:
  assumes "assertExecutionApprovalGranted ctx t w = (Inr u, w')"
    and "g \<in> set (d_approvals (w_db w))" "execution_gate ctx t g"
  obtains c where "w' = w" "execution_gate ctx t c" "c \<in> set (d_approvals (w_db w))"
    "filter (\<lambda>a. ap_payloadRef a \<noteq> Some EXECUTION_GATE_SUPERSEDED) (filter (execution_gate ctx t) (d_approvals (w_db w))) = [c]"
    "ap_payloadRef c = Some EXECUTION_GATE_CURRENT" "ap_status c = AS_approved" "ap_runId c = None"
proof -
  have "g \<in> set (filter (execution_gate ctx t) (d_approvals (w_db w)))" using assms(2,3) by simp
  then have "filter (execution_gate ctx t) (d_approvals (w_db w)) \<noteq> []" by (metis empty_iff list.set(1))
  with assms(1) obtain c where c: "w' = w" "filter (\<lambda>a. ap_payloadRef a \<noteq> Some EXECUTION_GATE_SUPERSEDED)
      (filter (execution_gate ctx t) (d_approvals (w_db w))) = [c]" "ap_payloadRef c = Some EXECUTION_GATE_CURRENT"
      "ap_status c = AS_approved" "ap_runId c = None"
    by (auto simp: granted_iff Let_def simp del: filter_filter filter_empty_conv split: if_splits)
  from arg_cong [OF c(2), of set] have "execution_gate ctx t c" "c \<in> set (d_approvals (w_db w))" by auto
  then show ?thesis using that c by blast
qed

text \<open>
  Property C12. One approval admits one start. If the check before dispatch passes for a task that has
  been gated and the approval is then bound to the run, no later check passes on an approval that was
  there at the time: whatever happens in between, when the check passes again there is a current,
  approved and unbound approval that was requested after the first start.
\<close>

theorem approval_admits_one_start:
  assumes "assertExecutionApprovalGranted ctx t w = (Inr u, w1)"
    and "g \<in> set (d_approvals (w_db w))" "execution_gate ctx t g"
    and "bindExecutionApprovalToRun ctx t run w1 = (Inr v, w2)"
    and "approval_step\<^sup>*\<^sup>* w2 w3" and "assertExecutionApprovalGranted ctx t w3 = (Inr u', w4)"
  shows "\<exists>g' \<in> set (d_approvals (w_db w3)). ap_taskId g' = t \<and> ap_organizationId g' = cx_organizationId ctx
    \<and> ap_action g' = ''execution.start'' \<and> ap_payloadRef g' = Some EXECUTION_GATE_CURRENT
    \<and> ap_status g' = AS_approved \<and> ap_runId g' = None \<and> ap_id g' \<notin> ap_id ` set (d_approvals (w_db w))"
proof -
  let ?rows = "d_approvals (w_db w)"
  let ?granted = "\<lambda>a. execution_gate ctx t a \<and> ap_status a = AS_approved \<and> ap_payloadRef a = Some EXECUTION_GATE_CURRENT"
  let ?bound = "set_rows ?granted (\<lambda>a. a\<lparr>ap_runId := Some run\<rparr>) ?rows"
  obtain c where c: "w1 = w" "execution_gate ctx t c" "c \<in> set ?rows"
    "filter (\<lambda>a. ap_payloadRef a \<noteq> Some EXECUTION_GATE_SUPERSEDED) (filter (execution_gate ctx t) ?rows) = [c]"
    "ap_payloadRef c = Some EXECUTION_GATE_CURRENT" "ap_status c = AS_approved" "ap_runId c = None"
    by (rule granted_cases [OF assms(1-3)])
  have closed: "ap_payloadRef a = Some EXECUTION_GATE_SUPERSEDED \<or> ap_runId a \<noteq> None"
    if a: "a \<in> set ?bound" "execution_gate ctx t a" for a
  proof -
    obtain b where b: "b \<in> set ?rows" "a = (if ?granted b then b\<lparr>ap_runId := Some run\<rparr> else b)"
      using a(1) by (auto simp: set_rows_def)
    show ?thesis
    proof (cases "?granted b")
      case True
      then show ?thesis using b(2) by simp
    next
      case False
      have ab: "a = b" by (rule trans [OF b(2) if_not_P [OF False]])
      have "b \<noteq> c" using False c by blast
      then have "b \<notin> set [c]" by simp
      then show ?thesis using b(1) a(2) unfolding ab c(4) [symmetric] by simp
    qed
  qed
  have rows2: "d_approvals (w_db w2) = ?bound" using bind_execution_rows [OF assms(4)] c(1) by simp
  obtain olds news where rows3: "d_approvals (w_db w3) = olds @ news" and olds: "list_all2 kept ?bound olds"
    and news: "ap_id ` set news \<inter> ap_id ` set ?bound = {}"
    using steps_evolve [OF assms(5)] unfolding evolves_def rows2 by blast
  have ids: "ap_id ` set ?bound = ap_id ` set ?rows"
    using arg_cong [OF map_set_rows [of ap_id "\<lambda>a. a\<lparr>ap_runId := Some run\<rparr>" ?granted ?rows], of set] by simp
  have "(if ?granted g then g\<lparr>ap_runId := Some run\<rparr> else g) \<in> set ?bound"
    unfolding set_rows_def set_map using assms(2) by (rule imageI)
  moreover have "execution_gate ctx t (if ?granted g then g\<lparr>ap_runId := Some run\<rparr> else g)"
    using assms(3) by (simp add: execution_gate_def)
  ultimately obtain h where "h \<in> set ?bound" "execution_gate ctx t h" by blast
  then obtain k where k: "k \<in> set (d_approvals (w_db w3))" "execution_gate ctx t k"
    using list_all2_left [OF olds] rows3 by (fastforce simp: kept_def execution_gate_def)
  obtain g' where g': "execution_gate ctx t g'" "g' \<in> set (d_approvals (w_db w3))"
    "ap_payloadRef g' = Some EXECUTION_GATE_CURRENT" "ap_status g' = AS_approved" "ap_runId g' = None"
    by (rule granted_cases [OF assms(6) k])
  have "g' \<notin> set olds"
  proof
    assume "g' \<in> set olds"
    then obtain a where a: "a \<in> set ?bound" "kept a g'" using list_all2_right [OF olds] by blast
    then have "execution_gate ctx t a" using g'(1) by (simp add: kept_def execution_gate_def)
    then have "ap_payloadRef a = Some EXECUTION_GATE_SUPERSEDED \<or> ap_runId a \<noteq> None" by (rule closed [OF a(1)])
    then show False using a(2) g'(3,5) gate_marks_differ by (auto simp: kept_def)
  qed
  then have "g' \<in> set news" using g'(2) rows3 by simp
  then have "ap_id g' \<notin> ap_id ` set ?rows" using news ids by blast
  then show ?thesis using g' by (intro bexI [of _ g']) (simp_all add: execution_gate_def)
qed

section \<open>A run of the gate\<close>

definition demo_run :: "ident \<Rightarrow> ident \<Rightarrow> run_status \<Rightarrow> run_row" where
  "demo_run i t s = \<lparr>rn_id = i, rn_organizationId = ''org_1'', rn_taskId = t, rn_computerId = ''c1'',
     rn_agentInstanceId = ''ai1'', rn_runtimeId = ''codex'', rn_schedulerDecisionId = None, rn_modelProfileId = None,
     rn_effortProfileId = None, rn_status = s, rn_contextPackId = None, rn_startedAt = None, rn_endedAt = None,
     rn_failureReason = None, rn_sequence = 0, rn_workspaceRoot = None, rn_workspaceBranch = None,
     rn_workspaceAllocation = None, rn_createdAt = ''2026-06-11'', rn_requestedByUserId = None,
     rn_aiDataSharingConsentId = None, rn_aiDataSharingPolicyVersion = None\<rparr>"

definition demo_gate_world :: world where
  "demo_gate_world = demo_world\<lparr>w_db := empty_db\<lparr>d_tasks := [demo_task ''t1'' TS_ready],
     d_runs := [demo_run ''r1'' ''t1'' RS_queued]\<rparr>\<rparr>"

definition demo_request :: "approval srv" where
  "demo_request = requestExecutionApproval demo_ctx ''t1'' ''please'' Risk_low"

definition demo_approve :: "ident \<Rightarrow> approval srv" where
  "demo_approve i = resolveApproval demo_ctx i \<lparr>rq_decision = AO_approved, rq_comment = None\<rparr>"

text \<open>The gate is requested and approved, a run is bound to it, and it is requested and approved again.\<close>

definition demo_gate1 :: world where
  "demo_gate1 = snd (demo_approve ''approval_'' (snd (demo_request demo_gate_world)))"

definition demo_gate2 :: world where
  "demo_gate2 = snd (bindExecutionApprovalToRun demo_ctx ''t1'' ''r1'' demo_gate1)"

definition demo_gate3 :: world where
  "demo_gate3 = snd (demo_approve ''approval_ZZZ'' (snd (demo_request demo_gate2)))"

lemma demo_gate_runs:
  "returns demo_request demo_gate1" "returns (assertExecutionApprovalGranted demo_ctx ''t1'') demo_gate1"
  "returns (bindExecutionApprovalToRun demo_ctx ''t1'' ''r1'') demo_gate1"
  "returns (assertExecutionApprovalGranted demo_ctx ''t1'') demo_gate3"
  by code_simp+

lemma demo_gate_rows:
  "map ap_id (d_approvals (w_db demo_gate1)) = [''approval_'']"
  "map (execution_gate demo_ctx ''t1'') (d_approvals (w_db demo_gate1)) = [True]"
  by code_simp+

lemma one_current_gate_witness:
  "length (filter (\<lambda>a. ap_organizationId a = ''org_1'' \<and> ap_taskId a = ''t1'' \<and> ap_action a = ''execution.start''
      \<and> ap_payloadRef a = Some EXECUTION_GATE_CURRENT) (d_approvals (w_db demo_gate1))) \<le> 1"
proof (rule one_current_gate)
  show "approval_step\<^sup>*\<^sup>* demo_gate_world demo_gate1"
    unfolding demo_gate1_def demo_request_def demo_approve_def
    using step_gate step_resolve by (meson converse_rtranclp_into_rtranclp r_into_rtranclp)
  show "one_gate (d_approvals (w_db demo_gate_world))"
    by (simp add: one_gate_def demo_gate_world_def demo_world_def empty_db_def)
qed

lemma superseded_never_resolved_witness:
  "case fst (demo_approve ''approval_'' (snd (demo_request demo_gate1))) of Inl e \<Rightarrow> True | Inr _ \<Rightarrow> False"
proof -
  obtain a where a: "d_approvals (w_db demo_gate1) = [a]" "ap_id a = ''approval_''" "execution_gate demo_ctx ''t1'' a"
    using demo_gate_rows by (auto simp: map_eq_Cons_conv)
  from demo_gate_runs(1) obtain new where "demo_request demo_gate1 = (Inr new, snd (demo_request demo_gate1))"
    by (rule returnsE)
  from superseded_never_resolved [OF this [unfolded demo_request_def], of a "snd (demo_request demo_gate1)" demo_ctx
      "\<lparr>rq_decision = AO_approved, rq_comment = None\<rparr>"]
  show ?thesis using a by (simp add: demo_approve_def demo_request_def)
qed

lemma approval_admits_one_start_witness:
  "\<exists>g' \<in> set (d_approvals (w_db demo_gate3)). ap_taskId g' = ''t1'' \<and> ap_status g' = AS_approved
     \<and> ap_id g' \<notin> ap_id ` set (d_approvals (w_db demo_gate1))"
proof -
  obtain a where a: "d_approvals (w_db demo_gate1) = [a]" "execution_gate demo_ctx ''t1'' a"
    using demo_gate_rows by (auto simp: map_eq_Cons_conv)
  from demo_gate_runs(2) obtain u where 1: "assertExecutionApprovalGranted demo_ctx ''t1'' demo_gate1
      = (Inr u, snd (assertExecutionApprovalGranted demo_ctx ''t1'' demo_gate1))" by (rule returnsE)
  from demo_gate_runs(3) obtain v where 2: "bindExecutionApprovalToRun demo_ctx ''t1'' ''r1'' demo_gate1 = (Inr v, demo_gate2)"
    unfolding demo_gate2_def by (rule returnsE)
  from demo_gate_runs(4) obtain u' where 3: "assertExecutionApprovalGranted demo_ctx ''t1'' demo_gate3
      = (Inr u', snd (assertExecutionApprovalGranted demo_ctx ''t1'' demo_gate3))" by (rule returnsE)
  have steps: "approval_step\<^sup>*\<^sup>* demo_gate2 demo_gate3"
    unfolding demo_gate3_def demo_request_def demo_approve_def
    using step_gate step_resolve by (meson converse_rtranclp_into_rtranclp r_into_rtranclp)
  have same: "snd (assertExecutionApprovalGranted demo_ctx ''t1'' demo_gate1) = demo_gate1"
    using 1 by (auto simp: granted_iff Let_def)
  have bound: "bindExecutionApprovalToRun demo_ctx ''t1'' ''r1'' (snd (assertExecutionApprovalGranted demo_ctx ''t1'' demo_gate1))
      = (Inr v, demo_gate2)" using 2 same by simp
  have "a \<in> set (d_approvals (w_db demo_gate1))" using a(1) by simp
  from approval_admits_one_start [OF 1 this a(2) bound steps 3] show ?thesis by blast
qed

end
