(* ===== verification/Checkpoint_Service.thy ===== *)
theory Checkpoint_Service
  imports Execution_State Evolution
begin

text \<open>
  \<open>apps/server/src/services/checkpoint-service.ts\<close>: a checkpoint of a goal holds references to the
  database's facts at a safe boundary and is written in the transaction of the change it marks.
\<close>

record checkpoint =
  cpt_id :: ident
  cpt_organization_id :: ident
  cpt_goal_id :: ident
  cpt_plan_id :: "ident option"
  cpt_type :: checkpoint_type
  cpt_trigger_event_id :: "ident option"
  cpt_state_refs :: checkpoint_refs
  cpt_summary :: string
  cpt_created_at :: iso_time

definition mapCheckpoint :: "checkpoint_row \<Rightarrow> checkpoint" where
  "mapCheckpoint r = \<lparr>cpt_id = ck_id r, cpt_organization_id = ck_organizationId r, cpt_goal_id = ck_goalId r,
     cpt_plan_id = ck_planId r, cpt_type = ck_type r, cpt_trigger_event_id = ck_triggerEventId r,
     cpt_state_refs = ck_stateRefs r, cpt_summary = ck_summary r, cpt_created_at = ck_createdAt r\<rparr>"

fun checkpoint_type_text :: "checkpoint_type \<Rightarrow> string" where
  "checkpoint_type_text CT_plan_accepted = ''plan_accepted''"
| "checkpoint_type_text CT_dag_materialized = ''dag_materialized''"
| "checkpoint_type_text CT_approval_decided = ''approval_decided''"
| "checkpoint_type_text CT_run_terminal = ''run_terminal''"
| "checkpoint_type_text CT_artifact_accepted = ''artifact_accepted''"
| "checkpoint_type_text CT_paused = ''paused''"
| "checkpoint_type_text CT_resumed = ''resumed''"

section \<open>Synthesis\<close>

text \<open>\<open>ids.length === 0 ? [] : await select\<close>: the condition that a row's task is one of the ids.\<close>

definition sel_of_tasks :: "ident list \<Rightarrow> (database \<Rightarrow> 'r list) \<Rightarrow> ('r \<Rightarrow> bool) \<Rightarrow> 'r list srv" where
  "sel_of_tasks taskIds table P = (if length taskIds = 0 then ret [] else sel table P)"

definition plan_version_of :: "server_context \<Rightarrow> goal_row \<Rightarrow> nat srv" where
  "plan_version_of ctx goal =
     (case gl_currentPlanId goal of
        None \<Rightarrow> ret 0
      | Some i \<Rightarrow>
          bind (sel d_plans (\<lambda>p. pl_id p = i \<and> pl_organizationId p = cx_organizationId ctx)) (\<lambda>rows.
          ret (case first rows of None \<Rightarrow> 0 | Some p \<Rightarrow> nat (pl_version p))))"

text \<open>\<open>max(position)\<close> of the organization's events; \<open>null\<close> without any, which counts as 0.\<close>

definition event_cursor :: "server_context \<Rightarrow> nat srv" where
  "event_cursor ctx =
     bind (sel d_events (\<lambda>e. ev_organizationId e = cx_organizationId ctx)) (\<lambda>rows.
     ret (foldr max (map ev_position rows) 0))"

definition synthesizeRefsInTx :: "server_context \<Rightarrow> goal_row \<Rightarrow> checkpoint_refs srv" where
  "synthesizeRefsInTx ctx goal =
     bind (sel d_tasks (\<lambda>t. tk_organizationId t = cx_organizationId ctx \<and> tk_goalId t = Some (gl_id goal))) (\<lambda>unordered.
     let taskRows = order_asc tk_id unordered;
         taskIds = map tk_id taskRows in
     bind (sel_of_tasks taskIds d_runs (\<lambda>r. rn_organizationId r = cx_organizationId ctx
             \<and> List.member taskIds (rn_taskId r) \<and> \<not> run_over (rn_status r))) (\<lambda>activeRuns.
     bind (sel_of_tasks taskIds d_approvals (\<lambda>a. ap_organizationId a = cx_organizationId ctx
             \<and> List.member taskIds (ap_taskId a) \<and> ap_status a = AS_pending)) (\<lambda>pendingApprovals.
     bind (sel d_blockers (\<lambda>b. bk_organizationId b = cx_organizationId ctx \<and> bk_goalId b = Some (gl_id goal)
             \<and> List.member [Blk_open, Blk_mitigated] (bk_status b))) (\<lambda>openBlockers.
     bind (plan_version_of ctx goal) (\<lambda>planVersion.
     bind (event_cursor ctx) (\<lambda>cursor.
     ret \<lparr>cr_goal_status = gl_status goal, cr_plan_version = planVersion,
          cr_task_statuses = map (\<lambda>t. (tk_id t, task_status_text (tk_status t))) taskRows,
          cr_active_runs = map rn_id (order_asc rn_id activeRuns),
          cr_open_blockers = map bk_id (order_asc bk_id openBlockers),
          cr_pending_approvals = map ap_id (order_asc ap_id pendingApprovals),
          cr_event_cursor = cursor\<rparr>))))))"

section \<open>Operations\<close>

record checkpoint_options =
  co_planId :: "ident option"
  co_triggerEventId :: "ident option"
  co_summary :: "string option"

definition createCheckpointInTx ::
  "server_context \<Rightarrow> goal_row \<Rightarrow> checkpoint_type \<Rightarrow> checkpoint_options \<Rightarrow> checkpoint srv" where
  "createCheckpointInTx ctx goal type opts =
     bind (guard (gl_organizationId goal = cx_organizationId ctx)
            (notFound (''goal not found: '' @ gl_id goal) [(''goal_id'', JStr (gl_id goal))])) (\<lambda>_.
     bind (nowIso ctx) (\<lambda>now.
     bind (generate ctx IP_checkpoint) (\<lambda>i.
     bind (synthesizeRefsInTx ctx goal) (\<lambda>refs.
     bind (insert_checkpoint ctx \<lparr>ck_id = i, ck_organizationId = cx_organizationId ctx, ck_goalId = gl_id goal,
             ck_planId = (case co_planId opts of None \<Rightarrow> gl_currentPlanId goal | Some p \<Rightarrow> Some p), ck_type = type,
             ck_triggerEventId = co_triggerEventId opts, ck_stateRefs = refs,
             ck_summary = (case co_summary opts of None \<Rightarrow> [] | Some s \<Rightarrow> s), ck_createdAt = now\<rparr>) (\<lambda>_.
     bind (emit ctx ((event_of ''goal.checkpoint_created'' Act_system ''checkpointer'' (gl_id goal))\<lparr>
             es_projectId := Some (gl_projectId goal), es_roomId := gl_roomId goal, es_goalId := Some (gl_id goal),
             es_payload := [(''goal_id'', JStr (gl_id goal)), (''checkpoint_id'', JStr i),
               (''checkpoint_type'', JStr (checkpoint_type_text type)),
               (''trigger_event_id'', jopt (co_triggerEventId opts))]\<rparr>)) (\<lambda>_.
     bind (sel d_checkpoints (\<lambda>c. ck_id c = i \<and> ck_organizationId c = cx_organizationId ctx)) (\<lambda>rows.
     case first rows of
       None \<Rightarrow> throw (Plain_error ''undefined checkpoint row'')
     | Some row \<Rightarrow> ret (mapCheckpoint row))))))))"

definition hasMaterializeCheckpoint :: "server_context \<Rightarrow> ident \<Rightarrow> bool srv" where
  "hasMaterializeCheckpoint ctx planId =
     bind (sel d_checkpoints (\<lambda>c. ck_organizationId c = cx_organizationId ctx \<and> ck_planId c = Some planId
             \<and> ck_type c = CT_dag_materialized)) (\<lambda>rows.
     ret (first rows \<noteq> None))"

definition getCheckpoint :: "server_context \<Rightarrow> ident \<Rightarrow> checkpoint option srv" where
  "getCheckpoint ctx i =
     transaction (
       bind (sel d_checkpoints (\<lambda>c. ck_id c = i \<and> ck_organizationId c = cx_organizationId ctx)) (\<lambda>rows.
       case first rows of
         None \<Rightarrow> ret None
       | Some row \<Rightarrow>
           bind (sel d_goals (\<lambda>g. gl_id g = ck_goalId row \<and> gl_organizationId g = cx_organizationId ctx)) (\<lambda>found.
           ret (case first found of None \<Rightarrow> None | Some g \<Rightarrow> Some (mapCheckpoint row)))))"

definition listCheckpoints :: "server_context \<Rightarrow> ident \<Rightarrow> checkpoint list srv" where
  "listCheckpoints ctx goalId =
     transaction (
       bind (sel d_goals (\<lambda>g. gl_id g = goalId \<and> gl_organizationId g = cx_organizationId ctx)) (\<lambda>found.
       case first found of
         None \<Rightarrow> throw (notFound (''goal not found: '' @ goalId) [(''goal_id'', JStr goalId)])
       | Some goal \<Rightarrow>
           bind (sel d_checkpoints (\<lambda>c. ck_organizationId c = cx_organizationId ctx \<and> ck_goalId c = goalId)) (\<lambda>rows.
           ret (map mapCheckpoint (order_desc ck_createdAt (order_desc ck_id rows))))))"

section \<open>What they change\<close>

lemma reads_synthesize [reads_rules]: "reads (synthesizeRefsInTx ctx goal)"
  unfolding synthesizeRefsInTx_def sel_of_tasks_def plan_version_of_def event_cursor_def Let_def
  by (intro reads_rules)

lemma reads_has_materialize [reads_rules]: "reads (hasMaterializeCheckpoint ctx p)"
  unfolding hasMaterializeCheckpoint_def by (intro reads_rules)

text \<open>
  The facts a checkpoint refers to: the goal's tasks with their statuses, the runs of those tasks that
  are not over, the pending approvals of those tasks, the goal's active blockers, and a cursor no event
  of the organization is beyond.
\<close>

definition describes :: "server_context \<Rightarrow> database \<Rightarrow> goal_row \<Rightarrow> checkpoint_refs \<Rightarrow> bool" where
  "describes ctx db goal refs \<longleftrightarrow>
     (let org = cx_organizationId ctx;
          mine = {t \<in> set (d_tasks db). tk_organizationId t = org \<and> tk_goalId t = Some (gl_id goal)} in
      cr_goal_status refs = gl_status goal
      \<and> set (cr_task_statuses refs) = (\<lambda>t. (tk_id t, task_status_text (tk_status t))) ` mine
      \<and> set (cr_active_runs refs) = rn_id ` {r \<in> set (d_runs db). rn_organizationId r = org
           \<and> rn_taskId r \<in> tk_id ` mine \<and> rn_status r \<notin> {RS_completed, RS_failed, RS_cancelled}}
      \<and> set (cr_pending_approvals refs) = ap_id ` {a \<in> set (d_approvals db). ap_organizationId a = org
           \<and> ap_taskId a \<in> tk_id ` mine \<and> ap_status a = AS_pending}
      \<and> set (cr_open_blockers refs) = bk_id ` {b \<in> set (d_blockers db). bk_organizationId b = org
           \<and> bk_goalId b = Some (gl_id goal) \<and> bk_status b \<in> {Blk_open, Blk_mitigated}}
      \<and> (\<forall>e \<in> set (d_events db). ev_organizationId e = org \<longrightarrow> ev_position e \<le> cr_event_cursor refs))"

lemma le_foldr_max: "x \<in> set xs \<Longrightarrow> x \<le> foldr max xs (0 :: nat)"
  by (induction xs) auto

lemma bind_sel_of_tasks:
  "bind (sel_of_tasks ids table P) f w = (if ids = [] then f [] w else f (filter P (table (w_db w))) w)"
  by (simp add: sel_of_tasks_def bind_sel)

lemma bind_event_cursor:
  "bind (event_cursor ctx) f w =
     f (foldr max (map ev_position (filter (\<lambda>e. ev_organizationId e = cx_organizationId ctx) (d_events (w_db w)))) 0) w"
  by (simp add: event_cursor_def bind_assoc bind_sel)

lemma synthesize_describes: "\<exists>refs. synthesizeRefsInTx ctx goal w = (Inr refs, w) \<and> describes ctx (w_db w) goal refs"
proof -
  let ?org = "cx_organizationId ctx"
  define unordered where "unordered = filter (\<lambda>t. tk_organizationId t = ?org \<and> tk_goalId t = Some (gl_id goal)) (d_tasks (w_db w))"
  define rows where "rows = order_asc tk_id unordered"
  define active where "active = (if map tk_id rows = [] then [] else filter (\<lambda>r. rn_organizationId r = ?org
      \<and> List.member (map tk_id rows) (rn_taskId r) \<and> \<not> run_over (rn_status r)) (d_runs (w_db w)))"
  define pending where "pending = (if map tk_id rows = [] then [] else filter (\<lambda>a. ap_organizationId a = ?org
      \<and> List.member (map tk_id rows) (ap_taskId a) \<and> ap_status a = AS_pending) (d_approvals (w_db w)))"
  define blockers where "blockers = filter (\<lambda>b. bk_organizationId b = ?org \<and> bk_goalId b = Some (gl_id goal)
      \<and> List.member [Blk_open, Blk_mitigated] (bk_status b)) (d_blockers (w_db w))"
  define cursor where "cursor = foldr max (map ev_position (filter (\<lambda>e. ev_organizationId e = ?org) (d_events (w_db w)))) 0"
  let ?refs = "\<lambda>v. \<lparr>cr_goal_status = gl_status goal, cr_plan_version = v,
      cr_task_statuses = map (\<lambda>t. (tk_id t, task_status_text (tk_status t))) rows,
      cr_active_runs = map rn_id (order_asc rn_id active), cr_open_blockers = map bk_id (order_asc bk_id blockers),
      cr_pending_approvals = map ap_id (order_asc ap_id pending), cr_event_cursor = cursor\<rparr>"
  obtain v where v: "bind (plan_version_of ctx goal) f w = f v w" for f :: "nat \<Rightarrow> checkpoint_refs srv"
    by (cases "gl_currentPlanId goal") (auto simp: plan_version_of_def bind_assoc bind_sel)
  have run: "synthesizeRefsInTx ctx goal w = (Inr (?refs v), w)"
    unfolding synthesizeRefsInTx_def bind_sel Let_def unordered_def [symmetric] rows_def [symmetric]
      bind_sel_of_tasks if_distribR
    by (cases "map tk_id rows = []")
       (simp_all add: bind_sel v bind_event_cursor run_basic active_def pending_def blockers_def cursor_def del: List.member_iff)
  have tasks: "set rows = {t \<in> set (d_tasks (w_db w)). tk_organizationId t = ?org \<and> tk_goalId t = Some (gl_id goal)}"
    by (simp add: rows_def unordered_def)
  have act: "set active = {r \<in> set (d_runs (w_db w)). rn_organizationId r = ?org \<and> rn_taskId r \<in> tk_id ` set rows
      \<and> rn_status r \<notin> {RS_completed, RS_failed, RS_cancelled}}"
    by (auto simp: active_def run_over_def)
  have pend: "set pending = {a \<in> set (d_approvals (w_db w)). ap_organizationId a = ?org \<and> ap_taskId a \<in> tk_id ` set rows
      \<and> ap_status a = AS_pending}"
    by (auto simp: pending_def)
  have blk: "set blockers = {b \<in> set (d_blockers (w_db w)). bk_organizationId b = ?org \<and> bk_goalId b = Some (gl_id goal)
      \<and> bk_status b \<in> {Blk_open, Blk_mitigated}}"
    by (auto simp: blockers_def)
  have cur: "\<forall>e \<in> set (d_events (w_db w)). ev_organizationId e = ?org \<longrightarrow> ev_position e \<le> cursor"
    unfolding cursor_def by (auto intro!: le_foldr_max)
  have "describes ctx (w_db w) goal (?refs v)"
    unfolding describes_def Let_def tasks [symmetric] act [symmetric] pend [symmetric] blk [symmetric] using cur by simp
  then show ?thesis using run by blast
qed

lemma checked_checkpoint_ok:
  assumes "checked_checkpoint ctx row w = (Inr r, w')"
  shows "w' = w \<and> (\<exists>t. r = row\<lparr>ck_createdAt := t\<rparr>) \<and> ck_id row \<notin> ck_id ` set (d_checkpoints (w_db w))"
  using assms by (auto simp: checked_checkpoint_def bind_checks run_basic list_ex_iff split: option.splits if_splits)

lemma insert_checkpoint_ok:
  assumes "insert_checkpoint ctx row w = (Inr u, w')"
  shows "\<exists>t. w' = w\<lparr>w_db := (w_db w)\<lparr>d_checkpoints := d_checkpoints (w_db w) @ [row\<lparr>ck_createdAt := t\<rparr>]\<rparr>\<rparr>
    \<and> ck_id row \<notin> ck_id ` set (d_checkpoints (w_db w))"
proof -
  from assms obtain r w1 where r: "checked_checkpoint ctx row w = (Inr r, w1)"
    and w': "in_db (d_checkpoints_update (\<lambda>rows. rows @ [r])) w1 = (Inr u, w')"
    unfolding insert_checkpoint_def by (rule bind_InrE)
  from checked_checkpoint_ok [OF r] obtain t where "w1 = w" "r = row\<lparr>ck_createdAt := t\<rparr>"
    "ck_id row \<notin> ck_id ` set (d_checkpoints (w_db w))" by blast
  moreover have "d_checkpoints_update f db = db\<lparr>d_checkpoints := f (d_checkpoints db)\<rparr>" for f db by (cases db) simp
  ultimately show ?thesis using w' by (intro exI [of _ t]) (auto simp: in_db_run)
qed

lemma find_new: "i \<notin> key ` set rows \<Longrightarrow> key r = i \<Longrightarrow> Q r \<Longrightarrow> find (\<lambda>x. key x = i \<and> Q x) (rows @ [r]) = Some r"
  by (induction rows) auto

text \<open>The effect of writing a checkpoint.\<close>

lemma createCheckpoint_effect:
  assumes "createCheckpointInTx ctx goal type opts w = (Inr cp, w')"
  shows "\<exists>row. core w' = (core w)\<lparr>d_checkpoints := d_checkpoints (w_db w) @ [row]\<rparr> \<and> cp = mapCheckpoint row
    \<and> ck_goalId row = gl_id goal \<and> ck_organizationId row = gl_organizationId goal \<and> ck_type row = type
    \<and> ck_triggerEventId row = co_triggerEventId opts
    \<and> ck_planId row = (if co_planId opts = None then gl_currentPlanId goal else co_planId opts)
    \<and> describes ctx (w_db w) goal (ck_stateRefs row)
    \<and> (\<exists>e. d_events (w_db w') = d_events (w_db w) @ [e] \<and> ev_type e = ''goal.checkpoint_created''
         \<and> ev_goalId e = Some (gl_id goal))"
proof -
  define w0 where "w0 = w\<lparr>w_clock := w_clock w + 1\<rparr>"
  define w1 where "w1 = w0\<lparr>w_ids := w_ids w0 + 1\<rparr>"
  define i where "i = formatId (ID_PREFIXES IP_checkpoint) (cx_ulid ctx (w_ids w0))"
  have db: "w_db w1 = w_db w" by (simp add: w1_def w0_def)
  obtain refs where refs: "synthesizeRefsInTx ctx goal w1 = (Inr refs, w1)" "describes ctx (w_db w1) goal refs"
    using synthesize_describes by blast
  define row where "row = \<lparr>ck_id = i, ck_organizationId = cx_organizationId ctx, ck_goalId = gl_id goal,
             ck_planId = (case co_planId opts of None \<Rightarrow> gl_currentPlanId goal | Some p \<Rightarrow> Some p), ck_type = type,
             ck_triggerEventId = co_triggerEventId opts, ck_stateRefs = refs,
             ck_summary = (case co_summary opts of None \<Rightarrow> [] | Some s \<Rightarrow> s), ck_createdAt = cx_now ctx (w_clock w)\<rparr>"
  let ?spec = "(event_of ''goal.checkpoint_created'' Act_system ''checkpointer'' (gl_id goal))\<lparr>
             es_projectId := Some (gl_projectId goal), es_roomId := gl_roomId goal, es_goalId := Some (gl_id goal),
             es_payload := [(''goal_id'', JStr (gl_id goal)), (''checkpoint_id'', JStr i),
               (''checkpoint_type'', JStr (checkpoint_type_text type)),
               (''trigger_event_id'', jopt (co_triggerEventId opts))]\<rparr>"
  let ?rest = "bind (insert_checkpoint ctx row) (\<lambda>_. bind (emit ctx ?spec) (\<lambda>_.
     bind (sel d_checkpoints (\<lambda>c. ck_id c = i \<and> ck_organizationId c = cx_organizationId ctx)) (\<lambda>rows.
     case first rows of
       None \<Rightarrow> throw (Plain_error ''undefined checkpoint row'')
     | Some row \<Rightarrow> ret (mapCheckpoint row))))"
  have own: "gl_organizationId goal = cx_organizationId ctx"
    using assms by (auto simp: createCheckpointInTx_def bind_guard split: if_splits)
  have gen: "bind (generate ctx p) f v = f (formatId (ID_PREFIXES p) (cx_ulid ctx (w_ids v))) (v\<lparr>w_ids := w_ids v + 1\<rparr>)"
    for p v and f :: "ident \<Rightarrow> checkpoint srv"
    by (simp add: bind_def generate_def)
  have "?rest w1 = (Inr cp, w')"
    using assms
    unfolding createCheckpointInTx_def bind_guard if_P [OF own] bind_nowIso w0_def [symmetric] gen w1_def [symmetric]
      i_def [symmetric] bind_run [where m = "synthesizeRefsInTx ctx goal", OF refs(1)] row_def [symmetric] .
  then obtain u w2 v w3 where ins: "insert_checkpoint ctx row w1 = (Inr u, w2)"
    and ev: "emit ctx ?spec w2 = (Inr v, w3)"
    and last: "(case first (filter (\<lambda>c. ck_id c = i \<and> ck_organizationId c = cx_organizationId ctx) (d_checkpoints (w_db w3))) of
       None \<Rightarrow> throw (Plain_error ''undefined checkpoint row'') | Some row \<Rightarrow> ret (mapCheckpoint row)) w3 = (Inr cp, w')"
    by (elim bind_InrE [where m = "insert_checkpoint ctx row"] bind_InrE [where m = "emit ctx ?spec"]) (simp add: bind_sel)
  have row_id: "ck_id row = i" by (simp add: row_def)
  obtain t where fresh: "i \<notin> ck_id ` set (d_checkpoints (w_db w))"
    and w2: "w2 = w1\<lparr>w_db := (w_db w)\<lparr>d_checkpoints := d_checkpoints (w_db w) @ [row\<lparr>ck_createdAt := t\<rparr>]\<rparr>\<rparr>"
    using insert_checkpoint_ok [OF ins] unfolding db row_id by blast
  let ?row = "row\<lparr>ck_createdAt := t\<rparr>"
  obtain e where e: "w_db w3 = (w_db w2)\<lparr>d_events := d_events (w_db w2) @ [e]\<rparr>" "event_for ctx ?spec e"
    using emit_log [OF ev] by blast
  have row: "ck_id ?row = i" "ck_organizationId ?row = cx_organizationId ctx" by (simp_all add: row_def)
  have rows3: "d_checkpoints (w_db w3) = d_checkpoints (w_db w) @ [?row]" using e(1) w2 by simp
  have "find (\<lambda>c. ck_id c = i \<and> ck_organizationId c = cx_organizationId ctx) (d_checkpoints (w_db w3)) = Some ?row"
    unfolding rows3 using find_new [of i ck_id _ ?row "\<lambda>c. ck_organizationId c = cx_organizationId ctx"] fresh row by blast
  then have w': "cp = mapCheckpoint ?row" "w' = w3" using last by (simp_all add: first_filter run_basic)
  have "core w' = (core w)\<lparr>d_checkpoints := d_checkpoints (w_db w) @ [?row]\<rparr>"
    by (simp add: core_def w'(2) e(1) w2 db)
  moreover have "d_events (w_db w') = d_events (w_db w) @ [e]" by (simp add: w'(2) e(1) w2 db)
  moreover have "describes ctx (w_db w) goal refs" using refs(2) by (simp add: db)
  ultimately show ?thesis using w'(1) e(2) own
    by (intro exI [of _ ?row]) (auto simp: row_def event_for_def event_of_def split: option.split)
qed


definition demo_goal :: "ident \<Rightarrow> goal_status \<Rightarrow> goal_row" where
  "demo_goal i s = \<lparr>gl_id = i, gl_organizationId = ''org_1'', gl_projectId = ''proj_1'', gl_roomId = None,
     gl_ownerUserId = ''user_1'', gl_title = ''ship'', gl_objective = [], gl_priority = P2, gl_status = s,
     gl_acceptanceCriteria = [], gl_stopConditions = \<lparr>sc_rules = []\<rparr>,
     gl_budgets = \<lparr>max_elapsed_ms = None, max_cost_usd = None, max_retries = Some 2, max_concurrent_runs = Some 1,
       allowed_runtimes = None\<rparr>, gl_currentPlanId = None, gl_runningSince = Some ''2026-06-11'',
     gl_elapsedCostUsd = None, gl_retryCount = 3, gl_createdAt = ''2026-06-11'', gl_updatedAt = ''2026-06-11''\<rparr>"

definition demo_goal_world :: world where
  "demo_goal_world = demo_world\<lparr>w_db := empty_db\<lparr>d_goals := [demo_goal ''g1'' GS_running],
     d_tasks := [(demo_task ''t1'' TS_ready)\<lparr>tk_goalId := Some ''g1''\<rparr>]\<rparr>\<rparr>"

definition demo_mark :: checkpoint_options where
  "demo_mark = \<lparr>co_planId = None, co_triggerEventId = None, co_summary = None\<rparr>"

lemma demo_checkpoint_returns:
  "returns (createCheckpointInTx demo_ctx (demo_goal ''g1'' GS_paused) CT_paused demo_mark) demo_goal_world"
  by code_simp


end
