(* ===== verification/Budget_Service.thy ===== *)
theory Budget_Service
  imports Checkpoint_Service Goal_Control
begin

text \<open>
  \<open>apps/server/src/services/budget-service.ts\<close> and \<open>budget-policy.ts\<close>: the settings a goal may
  have, and the enforcement that pauses a running goal when its elapsed or retry budget is used up.
\<close>

section \<open>Supported settings\<close>

text \<open>
  The stored settings have passed their schemas, which leaves the two rules the server adds.
\<close>

fun rule_type_text :: "stop_rule_type \<Rightarrow> string" where
  "rule_type_text SR_budget_exceeded = ''budget_exceeded''"
| "rule_type_text SR_approval_timeout = ''approval_timeout''"
| "rule_type_text SR_consecutive_failures = ''consecutive_failures''"
| "rule_type_text SR_custom = ''custom''"

fun rule_action_text :: "stop_rule_action \<Rightarrow> string" where
  "rule_action_text SA_pause = ''pause''"
| "rule_action_text SA_cancel = ''cancel''"
| "rule_action_text SA_notify = ''notify''"

definition supportedGoalPolicy :: "goal_budgets \<Rightarrow> stop_conditions \<Rightarrow> server_error + goal_budgets \<times> stop_conditions" where
  "supportedGoalPolicy budgets stopConditions =
     (if max_cost_usd budgets \<noteq> None
      then Inl (validation ''max_cost_usd is not supported: execution cost metering is not available''
                 [(''field'', JStr ''budgets.max_cost_usd'')])
      else
        (case find (\<lambda>rule. sr_type rule \<noteq> SR_budget_exceeded \<or> sr_action rule \<noteq> SA_pause) (sc_rules stopConditions) of
           Some unsupported \<Rightarrow>
             Inl (validation ''Only budget_exceeded stop rules with action pause are supported''
                   [(''field'', JStr ''stop_conditions.rules''), (''type'', JStr (rule_type_text (sr_type unsupported))),
                    (''action'', JStr (rule_action_text (sr_action unsupported)))])
         | None \<Rightarrow> Inr (budgets, stopConditions)))"

section \<open>Enforcement\<close>

record enforce_budget_result =
  en_enforced :: bool
  en_action :: "budget_action option"
  en_violations :: "budget_violation list option"

definition not_enforced :: enforce_budget_result where
  "not_enforced = \<lparr>en_enforced = False, en_action = None, en_violations = None\<rparr>"

text \<open>
  \<open>Math.max(0, Date.parse(now) - Date.parse(since))\<close>; \<open>NaN\<close> exceeds no limit and equals none, like
  \<open>null\<close>, whose value counts as 0.
\<close>

definition elapsed_since :: "server_context \<Rightarrow> iso_time \<Rightarrow> iso_time \<Rightarrow> int option" where
  "elapsed_since ctx now since =
     (case (cx_millis ctx now, cx_millis ctx since) of
        (Some a, Some b) \<Rightarrow> Some (max 0 (a - b))
      | _ \<Rightarrow> None)"

definition computeUsageInTx :: "server_context \<Rightarrow> goal_row \<Rightarrow> budget_usage srv" where
  "computeUsageInTx ctx goal =
     bind (case gl_runningSince goal of
             None \<Rightarrow> ret None
           | Some since \<Rightarrow> bind (nowIso ctx) (\<lambda>now. ret (elapsed_since ctx now since))) (\<lambda>elapsed.
     bind (sel d_tasks (\<lambda>t. tk_organizationId t = cx_organizationId ctx \<and> tk_goalId t = Some (gl_id goal))) (\<lambda>taskRows.
     let taskIds = map tk_id taskRows in
     bind (sel_of_tasks taskIds d_runs (\<lambda>r. rn_organizationId r = cx_organizationId ctx
             \<and> List.member taskIds (rn_taskId r) \<and> \<not> run_over (rn_status r))) (\<lambda>active.
     ret \<lparr>elapsed_ms = map_option of_int elapsed, cost_usd = gl_elapsedCostUsd goal,
          retry_count = Some (of_int (gl_retryCount goal)), concurrent_runs = Some (of_nat (length active))\<rparr>)))"

definition PAUSE_BUDGETS :: "budget_kind list" where
  "PAUSE_BUDGETS = [BK_max_elapsed_ms, BK_max_retries]"

fun budget_kind_text :: "budget_kind \<Rightarrow> string" where
  "budget_kind_text BK_max_elapsed_ms = ''max_elapsed_ms''"
| "budget_kind_text BK_max_cost_usd = ''max_cost_usd''"
| "budget_kind_text BK_max_retries = ''max_retries''"
| "budget_kind_text BK_max_concurrent_runs = ''max_concurrent_runs''"

text \<open>The violations that stop starts; the two budgets that count are whole numbers.\<close>

definition pause_violations :: "goal_budgets \<Rightarrow> budget_usage \<Rightarrow> budget_violation list" where
  "pause_violations budgets usage =
     (let violations = filter (\<lambda>v. List.member PAUSE_BUDGETS (bv_budget v)) (evaluateBudget budgets usage) in
      case max_elapsed_ms budgets of
        None \<Rightarrow> violations
      | Some limit \<Rightarrow>
          (if elapsed_ms usage = Some limit
           then violations @ [\<lparr>bv_budget = BK_max_elapsed_ms, bv_limit = limit, bv_actual = limit\<rparr>]
           else violations))"

definition violation_json :: "budget_violation \<Rightarrow> json" where
  "violation_json v = JObj [(''budget'', JStr (budget_kind_text (bv_budget v))),
     (''limit'', json_number (bv_limit v)), (''actual'', json_number (bv_actual v))]"

definition update_goals :: "(goal_row \<Rightarrow> bool) \<Rightarrow> (goal_row \<Rightarrow> goal_row) \<Rightarrow> ident list srv" where
  "update_goals P f =
     bind (sel d_goals P) (\<lambda>rows.
     bind (update_rows d_goals_update P f) (\<lambda>_. ret (map gl_id rows)))"

definition goal_matches :: "server_context \<Rightarrow> ident \<Rightarrow> goal_row \<Rightarrow> bool" where
  "goal_matches ctx i g \<longleftrightarrow> gl_id g = i \<and> gl_organizationId g = cx_organizationId ctx"

fun goal_status_text :: "goal_status \<Rightarrow> string" where
  "goal_status_text GS_draft = ''draft''"
| "goal_status_text GS_planned = ''planned''"
| "goal_status_text GS_running = ''running''"
| "goal_status_text GS_awaiting_approval = ''awaiting_approval''"
| "goal_status_text GS_paused = ''paused''"
| "goal_status_text GS_blocked = ''blocked''"
| "goal_status_text GS_completed = ''completed''"
| "goal_status_text GS_cancelled = ''cancelled''"
| "goal_status_text GS_archived = ''archived''"

definition goal_event :: "string \<Rightarrow> actor_type \<Rightarrow> ident \<Rightarrow> goal_row \<Rightarrow> json_object \<Rightarrow> event_spec" where
  "goal_event ty actorType actorId goal payload = (event_of ty actorType actorId (gl_id goal))\<lparr>
     es_projectId := Some (gl_projectId goal), es_roomId := gl_roomId goal, es_goalId := Some (gl_id goal),
     es_payload := payload\<rparr>"

definition pause_for_budget ::
  "server_context \<Rightarrow> iso_time \<Rightarrow> goal_row \<Rightarrow> budget_violation list \<Rightarrow> enforce_budget_result srv" where
  "pause_for_budget ctx now goal violations =
     bind (lift_sum Goal_transition_error (applyGoalTransition GS_running GT_pause)) (\<lambda>to.
     bind (ts_value ctx now) (\<lambda>updated.
     bind (update_goals (\<lambda>g. goal_matches ctx (gl_id goal) g \<and> gl_status g = GS_running)
             (\<lambda>g. g\<lparr>gl_status := to, gl_updatedAt := updated\<rparr>)) (\<lambda>changed.
     if length changed = 0 then ret not_enforced
     else
       bind (emit_id ctx (goal_event ''goal.paused'' Act_system ''budget_enforcer'' goal
               [(''goal_id'', JStr (gl_id goal)), (''from'', JStr ''running''), (''to'', JStr (goal_status_text to)),
                (''trigger'', JStr ''pause''), (''reason'', JStr ''budget_exceeded'')])) (\<lambda>pausedEvent.
       bind (createCheckpointInTx ctx (goal\<lparr>gl_status := to\<rparr>) CT_paused
               \<lparr>co_planId = None, co_triggerEventId = Some pausedEvent, co_summary = Some ''Paused: budget exceeded''\<rparr>) (\<lambda>_.
       bind (emit ctx (goal_event ''goal.budget_exceeded'' Act_system ''budget_enforcer'' goal
               [(''goal_id'', JStr (gl_id goal)), (''action'', JStr ''pause''),
                (''violations'', JArr (map violation_json violations))])) (\<lambda>_.
       ret \<lparr>en_enforced = True, en_action = Some BA_pause, en_violations = Some violations\<rparr>))))))"

definition enforceGoalBudget :: "server_context \<Rightarrow> ident \<Rightarrow> enforce_budget_result srv" where
  "enforceGoalBudget ctx goalId =
     bind (nowIso ctx) (\<lambda>now.
     transaction (
       bind (sel d_goals (goal_matches ctx goalId)) (\<lambda>rows.
       case first rows of
         None \<Rightarrow> ret not_enforced
       | Some goal \<Rightarrow>
           if gl_status goal \<noteq> GS_running then ret not_enforced
           else
             bind (computeUsageInTx ctx goal) (\<lambda>usage.
             let violations = pause_violations (gl_budgets goal) usage;
                 action = budgetStopAction violations (gl_stopConditions goal) in
             if action \<noteq> BA_pause \<or> length violations = 0 then ret not_enforced
             else pause_for_budget ctx now goal violations))))"

text \<open>One pass of the monitor over the running goals of all organizations; errors are swallowed.\<close>

definition scan_budgets :: "server_context \<Rightarrow> unit srv" where
  "scan_budgets ctx =
     bind (sel d_goals (\<lambda>g. gl_status g = GS_running)) (\<lambda>running.
     for_each running (\<lambda>goal.
       (\<lambda>w. (Inr (), snd (enforceGoalBudget (ctx\<lparr>cx_organizationId := gl_organizationId goal\<rparr>) (gl_id goal) w)))))"

section \<open>When a goal is paused\<close>

text \<open>
  A budget that counts is used up: the goal has been running for at least its time, or it was retried
  more often than allowed. The stop rules ask for a pause when no rule is about budgets, or some such
  rule pauses and none cancels.
\<close>

definition used_up :: "server_context \<Rightarrow> iso_time \<Rightarrow> goal_row \<Rightarrow> bool" where
  "used_up ctx now g \<longleftrightarrow>
     (\<exists>since ms limit. gl_runningSince g = Some since \<and> elapsed_since ctx now since = Some ms
        \<and> max_elapsed_ms (gl_budgets g) = Some limit \<and> limit \<le> of_int ms)
     \<or> (\<exists>limit. max_retries (gl_budgets g) = Some limit \<and> limit < of_int (gl_retryCount g))"

definition asks_pause :: "stop_conditions \<Rightarrow> bool" where
  "asks_pause sc \<longleftrightarrow> (let rules = {r \<in> set (sc_rules sc). sr_type r = SR_budget_exceeded} in
     rules = {} \<or> ((\<exists>r \<in> rules. sr_action r = SA_pause) \<and> (\<forall>r \<in> rules. sr_action r \<noteq> SA_cancel)))"

lemma fold_max_le: "fold max xs (a :: nat) \<le> b \<longleftrightarrow> a \<le> b \<and> (\<forall>x \<in> set xs. x \<le> b)"
  by (induction xs arbitrary: a) auto

lemma fold_max_in: "fold max xs (a :: nat) = a \<or> fold max xs a \<in> set xs"
  by (induction xs arbitrary: a) (auto simp: max_def split: if_splits)

lemma pause_action:
  assumes "vs \<noteq> []" shows "budgetStopAction vs sc = BA_pause \<longleftrightarrow> asks_pause sc"
proof -
  let ?rules = "filter (\<lambda>r. sr_type r = SR_budget_exceeded) (sc_rules sc)"
  let ?sev = "\<lambda>r. ACTION_SEVERITY (rule_action (sr_action r))"
  have sev: "a = BA_pause \<longleftrightarrow> ACTION_SEVERITY a = 2" for a by (cases a) simp_all
  have "strongest ?rules BA_notify = BA_pause \<longleftrightarrow> fold max (map ?sev ?rules) 1 = 2"
    by (simp add: sev strongest_severity)
  also have "\<dots> \<longleftrightarrow> (\<forall>r \<in> set ?rules. ?sev r \<le> 2) \<and> (\<exists>r \<in> set ?rules. ?sev r = 2)"
  proof
    assume m: "fold max (map ?sev ?rules) 1 = 2"
    then have "\<forall>x \<in> set (map ?sev ?rules). x \<le> 2" using fold_max_le [of "map ?sev ?rules" 1 2] by simp
    moreover have "2 \<in> set (map ?sev ?rules)" using fold_max_in [of "map ?sev ?rules" 1] m by simp
    ultimately show "(\<forall>r \<in> set ?rules. ?sev r \<le> 2) \<and> (\<exists>r \<in> set ?rules. ?sev r = 2)" by auto
  next
    assume r: "(\<forall>r \<in> set ?rules. ?sev r \<le> 2) \<and> (\<exists>r \<in> set ?rules. ?sev r = 2)"
    then have "fold max (map ?sev ?rules) 1 \<le> 2" by (simp add: fold_max_le)
    moreover have "\<not> fold max (map ?sev ?rules) 1 \<le> 1" using r by (auto simp: fold_max_le)
    ultimately show "fold max (map ?sev ?rules) 1 = 2" by simp
  qed
  also have "\<dots> \<longleftrightarrow> (\<exists>r \<in> set ?rules. sr_action r = SA_pause) \<and> (\<forall>r \<in> set ?rules. sr_action r \<noteq> SA_cancel)"
  proof -
    have "?sev r \<le> 2 \<longleftrightarrow> sr_action r \<noteq> SA_cancel" "?sev r = 2 \<longleftrightarrow> sr_action r = SA_pause" for r
      by (cases "sr_action r"; simp)+
    then show ?thesis by auto
  qed
  finally have rules: "strongest ?rules BA_notify = BA_pause \<longleftrightarrow>
      (\<exists>r \<in> set ?rules. sr_action r = SA_pause) \<and> (\<forall>r \<in> set ?rules. sr_action r \<noteq> SA_cancel)" .
  have "?rules = [] \<longleftrightarrow> {r \<in> set (sc_rules sc). sr_type r = SR_budget_exceeded} = {}" by (auto simp: filter_empty_conv)
  then show ?thesis using assms rules by (auto simp: budgetStopAction_def asks_pause_def Let_def)
qed

definition goal_usage :: "server_context \<Rightarrow> world \<Rightarrow> goal_row \<Rightarrow> budget_usage" where
  "goal_usage ctx w g =
     \<lparr>elapsed_ms = map_option of_int (case gl_runningSince g of None \<Rightarrow> None
        | Some since \<Rightarrow> elapsed_since ctx (cx_now ctx (w_clock w)) since),
      cost_usd = gl_elapsedCostUsd g, retry_count = Some (of_int (gl_retryCount g)), concurrent_runs = Some 0\<rparr>"

lemma computeUsage_run:
  "\<exists>c w'. computeUsageInTx ctx g w = (Inr ((goal_usage ctx w g)\<lparr>concurrent_runs := c\<rparr>), w') \<and> w_db w' = w_db w"
proof (cases "gl_runningSince g")
  case None
  then show ?thesis
    by (auto simp: computeUsageInTx_def bind_sel Let_def bind_sel_of_tasks run_basic goal_usage_def)
next
  case (Some since)
  then show ?thesis
    by (auto simp: computeUsageInTx_def bind_assoc bind_nowIso bind_sel Let_def bind_sel_of_tasks run_basic goal_usage_def)
qed

lemma pause_violations_iff:
  assumes "\<forall>l. max_elapsed_ms (gl_budgets g) = Some l \<longrightarrow> 0 < l"
  shows "pause_violations (gl_budgets g) ((goal_usage ctx w g)\<lparr>concurrent_runs := c\<rparr>) \<noteq> [] \<longleftrightarrow> used_up ctx (cx_now ctx (w_clock w)) g"
proof -
  let ?u = "(goal_usage ctx w g)\<lparr>concurrent_runs := c\<rparr>"
  let ?b = "gl_budgets g"
  let ?vs = "filter (\<lambda>v. List.member PAUSE_BUDGETS (bv_budget v)) (evaluateBudget ?b ?u)"
  have retry: "retry_count ?u = Some (of_int (gl_retryCount g))" by (simp add: goal_usage_def)
  have elapsed: "elapsed_ms ?u = Some x \<longleftrightarrow>
      (\<exists>since ms. gl_runningSince g = Some since \<and> elapsed_since ctx (cx_now ctx (w_clock w)) since = Some ms \<and> x = of_int ms)" for x
    by (auto simp: goal_usage_def split: option.splits)
  have "?vs \<noteq> [] \<longleftrightarrow> (\<exists>v. v \<in> set (evaluateBudget ?b ?u) \<and> (bv_budget v = BK_max_elapsed_ms \<or> bv_budget v = BK_max_retries))"
    by (auto simp: filter_empty_conv PAUSE_BUDGETS_def)
  also have "\<dots> \<longleftrightarrow> (\<exists>k l. (k = BK_max_elapsed_ms \<or> k = BK_max_retries) \<and> limit_of ?b k = Some l \<and> l < usage_of ?u k)"
  proof
    assume "\<exists>v. v \<in> set (evaluateBudget ?b ?u) \<and> (bv_budget v = BK_max_elapsed_ms \<or> bv_budget v = BK_max_retries)"
    then show "\<exists>k l. (k = BK_max_elapsed_ms \<or> k = BK_max_retries) \<and> limit_of ?b k = Some l \<and> l < usage_of ?u k"
      unfolding evaluateBudget_exact by metis
  next
    assume "\<exists>k l. (k = BK_max_elapsed_ms \<or> k = BK_max_retries) \<and> limit_of ?b k = Some l \<and> l < usage_of ?u k"
    then obtain k l where kl: "k = BK_max_elapsed_ms \<or> k = BK_max_retries" "limit_of ?b k = Some l" "l < usage_of ?u k" by blast
    show "\<exists>v. v \<in> set (evaluateBudget ?b ?u) \<and> (bv_budget v = BK_max_elapsed_ms \<or> bv_budget v = BK_max_retries)"
      unfolding evaluateBudget_exact using kl
      by (intro exI [of _ "\<lparr>bv_budget = k, bv_limit = l, bv_actual = usage_of ?u k\<rparr>"]) simp
  qed
  also have "\<dots> \<longleftrightarrow> (\<exists>l. max_elapsed_ms ?b = Some l \<and> l < (case elapsed_ms ?u of None \<Rightarrow> 0 | Some v \<Rightarrow> v))
      \<or> (\<exists>l. max_retries ?b = Some l \<and> l < of_int (gl_retryCount g))"
    by (auto simp: retry)
  finally have vs: "?vs \<noteq> [] \<longleftrightarrow> (\<exists>l. max_elapsed_ms ?b = Some l \<and> l < (case elapsed_ms ?u of None \<Rightarrow> 0 | Some v \<Rightarrow> v))
      \<or> (\<exists>l. max_retries ?b = Some l \<and> l < of_int (gl_retryCount g))" .
  have "pause_violations ?b ?u \<noteq> [] \<longleftrightarrow> ?vs \<noteq> [] \<or> (\<exists>l. max_elapsed_ms ?b = Some l \<and> elapsed_ms ?u = Some l)"
    by (auto simp: pause_violations_def Let_def split: option.split)
  also have "\<dots> \<longleftrightarrow> (\<exists>l x. max_elapsed_ms ?b = Some l \<and> elapsed_ms ?u = Some x \<and> l \<le> x)
      \<or> (\<exists>l. max_retries ?b = Some l \<and> l < of_int (gl_retryCount g))"
  proof (cases "elapsed_ms ?u")
    case None
    then show ?thesis unfolding vs using assms by (auto dest: order.asym)
  next
    case (Some x)
    then show ?thesis unfolding vs by (auto simp: order.order_iff_strict)
  qed
  finally show ?thesis unfolding used_up_def elapsed by blast
qed

text \<open>The pause itself: the goal's row, the checkpoint and the three events.\<close>

definition paused_by_budget :: "world \<Rightarrow> world \<Rightarrow> ident \<Rightarrow> bool" where
  "paused_by_budget w w' i \<longleftrightarrow> (\<exists>t c e1 e2 e3.
     core w' = (core w)\<lparr>d_goals := map (\<lambda>g. if gl_id g = i then g\<lparr>gl_status := GS_paused, gl_updatedAt := t\<rparr> else g) (d_goals (w_db w)),
                        d_checkpoints := d_checkpoints (w_db w) @ [c]\<rparr>
     \<and> ck_type c = CT_paused \<and> ck_goalId c = i \<and> cr_goal_status (ck_stateRefs c) = GS_paused
     \<and> d_events (w_db w') = d_events (w_db w) @ [e1, e2, e3] \<and> ck_triggerEventId c = Some (ev_id e1)
     \<and> ev_type e1 = ''goal.paused'' \<and> ev_type e2 = ''goal.checkpoint_created'' \<and> ev_type e3 = ''goal.budget_exceeded'')"

lemma pause_transition: "applyGoalTransition GS_running GT_pause = Inr GS_paused"
  by (simp add: goal_machine_defs find_transition_def)

lemma update_goals_run:
  "update_goals P f w = (Inr (map gl_id (filter P (d_goals (w_db w)))),
     w\<lparr>w_db := (w_db w)\<lparr>d_goals := set_rows P f (d_goals (w_db w))\<rparr>\<rparr>)"
proof -
  have "d_goals_update (set_rows P f) db = db\<lparr>d_goals := set_rows P f (d_goals db)\<rparr>" for db by (cases db) simp
  then show ?thesis
    unfolding update_goals_def bind_sel bind_run [where m = "update_rows d_goals_update P f", OF update_rows_run]
    by (simp add: run_basic)
qed

lemma pause_for_budget_run:
  assumes run: "pause_for_budget ctx now g vs w = (Inr res, w')"
    and g: "g \<in> set (d_goals (w_db w))" "goal_matches ctx (gl_id g) g" "gl_status g = GS_running"
    and ids: "distinct (map gl_id (d_goals (w_db w)))"
  shows "en_enforced res \<and> paused_by_budget w w' (gl_id g)"
proof -
  let ?P = "\<lambda>x. goal_matches ctx (gl_id g) x \<and> gl_status x = GS_running"
  have only: "?P x \<longleftrightarrow> gl_id x = gl_id g" if "x \<in> set (d_goals (w_db w))" for x
  proof
    assume "gl_id x = gl_id g"
    then have "x = g" using ids g(1) that by (meson eq_key_imp_eq_value distinct_map inj_onD)
    then show "?P x" using g(2,3) by blast
  qed (simp add: goal_matches_def)
  have some: "filter ?P (d_goals (w_db w)) \<noteq> []" using g by (auto simp: filter_empty_conv)
  obtain t where t: "cx_ts ctx now = Some t"
    using run by (cases "cx_ts ctx now") (simp_all add: pause_for_budget_def lift_sum_def pause_transition bind_ts_value)
  define w1 where "w1 = w\<lparr>w_db := (w_db w)\<lparr>d_goals := set_rows ?P (\<lambda>g. g\<lparr>gl_status := GS_paused, gl_updatedAt := t\<rparr>) (d_goals (w_db w))\<rparr>\<rparr>"
  let ?s1 = "goal_event ''goal.paused'' Act_system ''budget_enforcer'' g
               [(''goal_id'', JStr (gl_id g)), (''from'', JStr ''running''), (''to'', JStr (goal_status_text GS_paused)),
                (''trigger'', JStr ''pause''), (''reason'', JStr ''budget_exceeded'')]"
  let ?s3 = "goal_event ''goal.budget_exceeded'' Act_system ''budget_enforcer'' g
               [(''goal_id'', JStr (gl_id g)), (''action'', JStr ''pause''), (''violations'', JArr (map violation_json vs))]"
  let ?opts = "\<lambda>e. \<lparr>co_planId = None, co_triggerEventId = Some e, co_summary = Some ''Paused: budget exceeded''\<rparr>"
  have "bind (emit_id ctx ?s1) (\<lambda>e. bind (createCheckpointInTx ctx (g\<lparr>gl_status := GS_paused\<rparr>) CT_paused (?opts e)) (\<lambda>_.
      bind (emit ctx ?s3) (\<lambda>_. ret \<lparr>en_enforced = True, en_action = Some BA_pause, en_violations = Some vs\<rparr>))) w1 = (Inr res, w')"
    using run some
    by (simp add: pause_for_budget_def lift_sum_def pause_transition bind_ts_value t bind_run [OF update_goals_run] w1_def)
  then obtain e w2 cp w3 u where e: "emit_id ctx ?s1 w1 = (Inr e, w2)"
    and cp: "createCheckpointInTx ctx (g\<lparr>gl_status := GS_paused\<rparr>) CT_paused (?opts e) w2 = (Inr cp, w3)"
    and u: "emit ctx ?s3 w3 = (Inr u, w')" and res: "res = \<lparr>en_enforced = True, en_action = Some BA_pause, en_violations = Some vs\<rparr>"
    by (elim bind_InrE) (simp add: run_basic)
  obtain e1 where e1: "w_db w2 = (w_db w1)\<lparr>d_events := d_events (w_db w1) @ [e1]\<rparr>" "event_for ctx ?s1 e1" "ev_id e1 = e"
    using emit_id_log [OF e] by blast
  obtain e3 where e3: "w_db w' = (w_db w3)\<lparr>d_events := d_events (w_db w3) @ [e3]\<rparr>" "event_for ctx ?s3 e3"
    using emit_log [OF u] by blast
  obtain c e2 where c: "core w3 = (core w2)\<lparr>d_checkpoints := d_checkpoints (w_db w2) @ [c]\<rparr>" "ck_goalId c = gl_id g"
      "ck_type c = CT_paused" "ck_triggerEventId c = Some e" "cr_goal_status (ck_stateRefs c) = GS_paused"
    and e2: "d_events (w_db w3) = d_events (w_db w2) @ [e2]" "ev_type e2 = ''goal.checkpoint_created''"
    using createCheckpoint_effect [OF cp] by (auto simp: describes_def Let_def)
  have rows: "d_goals (w_db w1) = map (\<lambda>x. if gl_id x = gl_id g then x\<lparr>gl_status := GS_paused, gl_updatedAt := t\<rparr> else x) (d_goals (w_db w))"
    unfolding w1_def set_rows_def using only by simp
  have "core w' = core w3" by (simp add: core_def e3(1))
  also have "\<dots> = (core w1)\<lparr>d_checkpoints := d_checkpoints (w_db w1) @ [c]\<rparr>" using c(1) by (simp add: core_def e1(1))
  also have "\<dots> = (core w)\<lparr>d_goals := d_goals (w_db w1), d_checkpoints := d_checkpoints (w_db w) @ [c]\<rparr>"
    by (simp add: core_def w1_def)
  finally have core: "core w' = (core w)\<lparr>d_goals := d_goals (w_db w1), d_checkpoints := d_checkpoints (w_db w) @ [c]\<rparr>" .
  have "d_events (w_db w1) = d_events (w_db w)" by (simp add: w1_def)
  then have "d_events (w_db w') = d_events (w_db w) @ [e1, e2, e3]" using e1(1) e2(1) e3(1) by simp
  moreover have "ev_type e1 = ''goal.paused''" "ev_type e3 = ''goal.budget_exceeded''"
    using e1(2) e3(2) by (simp_all add: event_for_def goal_event_def event_of_def)
  ultimately show ?thesis
    unfolding paused_by_budget_def res using core [unfolded rows] c(2-5) e1(3) e2(2)
    by (intro conjI exI [of _ t] exI [of _ c] exI [of _ e1] exI [of _ e2] exI [of _ e3]) simp_all
qed


text \<open>
  Property C15. A goal is paused for its budget exactly when it must be. With budget limits as the
  schema has them (a time limit is positive), an enforcement that returns has paused the goal exactly
  when the goal of that id in the caller's organization is running, has used up its time (the limit
  itself included) or was retried more often than allowed, and its stop rules ask for a pause. Then
  exactly that row is paused, one checkpoint linked to the pause is added, and the three events are
  appended in order; otherwise nothing was written.
\<close>

theorem budget_pause_exact:
  assumes "enforceGoalBudget ctx i w = (Inr res, w')"
    and "distinct (map gl_id (d_goals (w_db w)))"
    and "\<forall>g \<in> set (d_goals (w_db w)). \<forall>l. max_elapsed_ms (gl_budgets g) = Some l \<longrightarrow> 0 < l"
  shows "en_enforced res = (\<exists>g \<in> set (d_goals (w_db w)). gl_id g = i \<and> gl_organizationId g = cx_organizationId ctx
      \<and> gl_status g = GS_running \<and> used_up ctx (cx_now ctx (w_clock w + 1)) g \<and> asks_pause (gl_stopConditions g))
    \<and> (if en_enforced res then paused_by_budget w w' i else w_db w' = w_db w)"
proof -
  let ?must = "\<exists>g \<in> set (d_goals (w_db w)). gl_id g = i \<and> gl_organizationId g = cx_organizationId ctx
      \<and> gl_status g = GS_running \<and> used_up ctx (cx_now ctx (w_clock w + 1)) g \<and> asks_pause (gl_stopConditions g)"
  define now where "now = cx_now ctx (w_clock w)"
  define v where "v = w\<lparr>w_clock := w_clock w + 1\<rparr>"
  have db: "w_db v = w_db w" and clock: "w_clock v = w_clock w + 1" by (simp_all add: v_def)
  let ?found = "find (goal_matches ctx i) (d_goals (w_db w))"
  have run: "(case ?found of None \<Rightarrow> ret not_enforced | Some goal \<Rightarrow>
           if gl_status goal \<noteq> GS_running then ret not_enforced
           else bind (computeUsageInTx ctx goal) (\<lambda>usage.
             if budgetStopAction (pause_violations (gl_budgets goal) usage) (gl_stopConditions goal) \<noteq> BA_pause
                \<or> length (pause_violations (gl_budgets goal) usage) = 0 then ret not_enforced
             else pause_for_budget ctx now goal (pause_violations (gl_budgets goal) usage))) v = (Inr res, w')"
    using assms(1) unfolding enforceGoalBudget_def bind_nowIso transaction_ok bind_sel first_filter Let_def
      now_def v_def by simp
  have idle: ?thesis if "\<not> ?must" "(ret not_enforced :: enforce_budget_result srv) u = (Inr res, w')" "w_db u = w_db w" for u
    using that by (auto simp: not_enforced_def run_basic)
  show ?thesis
  proof (cases ?found)
    case None
    then have "\<not> ?must" by (auto simp: find_None_iff goal_matches_def)
    then show ?thesis using run None db by (intro idle [of v]) simp_all
  next
    case (Some g)
    have g: "g \<in> set (d_goals (w_db w))" "gl_id g = i" "gl_organizationId g = cx_organizationId ctx"
      using find_Some_D [OF Some] by (auto simp: goal_matches_def)
    have only: "?must \<longleftrightarrow> gl_status g = GS_running \<and> used_up ctx (cx_now ctx (w_clock w + 1)) g \<and> asks_pause (gl_stopConditions g)"
    proof -
      have "x = g" if "x \<in> set (d_goals (w_db w))" "gl_id x = i" for x
        using that g assms(2) by (metis distinct_map inj_onD)
      then show ?thesis using g by blast
    qed
    show ?thesis
    proof (cases "gl_status g = GS_running")
      case False
      then have "\<not> ?must" using only by blast
      then show ?thesis using run Some False db by (intro idle [of v]) simp_all
    next
      case running: True
      obtain c v' where usage: "computeUsageInTx ctx g v = (Inr ((goal_usage ctx v g)\<lparr>concurrent_runs := c\<rparr>), v')"
        and v': "w_db v' = w_db v" using computeUsage_run by blast
      define vs where "vs = pause_violations (gl_budgets g) ((goal_usage ctx v g)\<lparr>concurrent_runs := c\<rparr>)"
      have over: "vs \<noteq> [] \<longleftrightarrow> used_up ctx (cx_now ctx (w_clock w + 1)) g"
        unfolding vs_def clock [symmetric] using assms(3) g(1) by (intro pause_violations_iff) blast
      have going: "\<not> gl_status g \<noteq> GS_running" using running by simp
      have rest: "(if budgetStopAction vs (gl_stopConditions g) \<noteq> BA_pause \<or> length vs = 0 then ret not_enforced
          else pause_for_budget ctx now g vs) v' = (Inr res, w')"
        using run unfolding Some option.case if_not_P [OF going] bind_run [where m = "computeUsageInTx ctx g", OF usage]
          vs_def [symmetric] .
      show ?thesis
      proof (cases "budgetStopAction vs (gl_stopConditions g) \<noteq> BA_pause \<or> length vs = 0")
        case True
        then have "\<not> ?must" using only over pause_action [of vs "gl_stopConditions g"] by auto
        moreover have "(ret not_enforced :: enforce_budget_result srv) v' = (Inr res, w')" using rest unfolding if_P [OF True] .
        ultimately show ?thesis using v' db by (intro idle [of v']) simp_all
      next
        case False
        then have must: ?must using only over running pause_action [of vs "gl_stopConditions g"] by auto
        have "pause_for_budget ctx now g vs v' = (Inr res, w')" using rest False by simp
        from pause_for_budget_run [OF this] g running assms(2) v' db
        have "en_enforced res" "paused_by_budget v' w' i" by (simp_all add: goal_matches_def)
        then show ?thesis using must v' db by (simp add: paused_by_budget_def core_def)
      qed
    qed
  qed
qed

lemma demo_budget_run: "fst (enforceGoalBudget demo_ctx ''g1'' demo_goal_world) = Inr \<lparr>en_enforced = True, en_action = Some BA_pause,
    en_violations = Some [\<lparr>bv_budget = BK_max_retries, bv_limit = 2, bv_actual = 3\<rparr>]\<rparr>"
  by code_simp

lemma budget_pause_exact_witness:
  "paused_by_budget demo_goal_world (snd (enforceGoalBudget demo_ctx ''g1'' demo_goal_world)) ''g1''"
proof -
  let ?r = "enforceGoalBudget demo_ctx ''g1'' demo_goal_world"
  have run: "?r = (Inr \<lparr>en_enforced = True, en_action = Some BA_pause,
    en_violations = Some [\<lparr>bv_budget = BK_max_retries, bv_limit = 2, bv_actual = 3\<rparr>]\<rparr>, snd ?r)"
    by (rule prod_eqI) (simp_all add: demo_budget_run)
  have goals: "d_goals (w_db demo_goal_world) = [demo_goal ''g1'' GS_running]" by (simp add: demo_goal_world_def)
  from budget_pause_exact [OF run] show ?thesis by (simp add: goals demo_goal_def)
qed

end
