(* ===== verification/Lifecycle_Order.thy ===== *)
theory Lifecycle_Order
  imports Evolution
begin

text \<open>
  What the services promise together about the life of the stored tasks and runs and about the log:
  rows are not lost, their identity is fixed, their status only moves along the state machines of
  the domain package, and the event log only grows. This is an order on databases, an instance of
  \<open>db_order\<close>; each service shows that its operations respect it.
\<close>

section \<open>Tables that grow\<close>

text \<open>Every old row is still there, related to what it was; new rows come after them.\<close>

definition grown :: "('a \<Rightarrow> 'a \<Rightarrow> bool) \<Rightarrow> 'a list \<Rightarrow> 'a list \<Rightarrow> bool" where
  "grown R xs ys \<longleftrightarrow> length xs \<le> length ys \<and> list_all2 R xs (take (length xs) ys)"

lemma grown_iff: "grown R xs ys \<longleftrightarrow> (\<exists>zs new. ys = zs @ new \<and> list_all2 R xs zs)"
proof
  assume "grown R xs ys"
  then have "ys = take (length xs) ys @ drop (length xs) ys" "list_all2 R xs (take (length xs) ys)"
    by (simp_all add: grown_def)
  then show "\<exists>zs new. ys = zs @ new \<and> list_all2 R xs zs" by blast
next
  assume "\<exists>zs new. ys = zs @ new \<and> list_all2 R xs zs"
  then obtain zs new where "ys = zs @ new" "list_all2 R xs zs" by blast
  moreover have "length xs = length zs" using \<open>list_all2 R xs zs\<close> by (rule list_all2_lengthD)
  ultimately show "grown R xs ys" by (simp add: grown_def)
qed

lemma grown_refl: "(\<And>x. R x x) \<Longrightarrow> grown R xs xs"
  by (simp add: grown_def list_all2_refl)

lemma grown_trans:
  assumes "\<And>x y z. R x y \<Longrightarrow> R y z \<Longrightarrow> R x z" and "grown R xs ys" "grown R ys zs"
  shows "grown R xs zs"
proof -
  from assms(2,3) obtain us us' vs vs' where ys: "ys = us @ us'" "list_all2 R xs us"
    and zs: "zs = vs @ vs'" "list_all2 R ys vs" by (auto simp: grown_iff)
  then obtain vs1 vs2 where vs: "vs = vs1 @ vs2" "list_all2 R us vs1"
    by (auto simp: list_all2_append1)
  have "list_all2 R xs vs1" by (rule list_all2_trans [OF assms(1) ys(2) vs(2)])
  then show ?thesis unfolding grown_iff using zs(1) vs(1) by (intro exI [of _ vs1] exI [of _ "vs2 @ vs'"]) simp
qed

lemma grown_append: "(\<And>x. R x x) \<Longrightarrow> grown R xs (xs @ new)"
  by (simp add: grown_def list_all2_refl)

lemma grown_set_rows: "(\<And>x. R x x) \<Longrightarrow> (\<And>x. P x \<Longrightarrow> R x (f x)) \<Longrightarrow> grown R xs (set_rows P f xs)"
  by (simp add: grown_def set_rows_def list_all2_map2 list_all2_same)

lemma grownD: "grown R xs ys \<Longrightarrow> x \<in> set xs \<Longrightarrow> \<exists>y \<in> set ys. R x y"
  unfolding grown_def by (metis in_set_takeD list_all2_conv_all_nth in_set_conv_nth)

lemma grown_eq: "grown (=) xs ys \<longleftrightarrow> (\<exists>new. ys = xs @ new)"
  by (auto simp: grown_iff list_all2_eq [symmetric])

section \<open>The order\<close>

definition task_lives :: "task_row \<Rightarrow> task_row \<Rightarrow> bool" where
  "task_lives t t' \<longleftrightarrow> tk_id t' = tk_id t \<and> tk_organizationId t' = tk_organizationId t
     \<and> tk_projectId t' = tk_projectId t \<and> tk_goalId t' = tk_goalId t
     \<and> task_sm.step\<^sup>*\<^sup>* (tk_status t) (tk_status t')"

definition run_lives :: "run_row \<Rightarrow> run_row \<Rightarrow> bool" where
  "run_lives r r' \<longleftrightarrow> rn_id r' = rn_id r \<and> rn_organizationId r' = rn_organizationId r
     \<and> rn_taskId r' = rn_taskId r \<and> run_sm.step\<^sup>*\<^sup>* (rn_status r) (rn_status r')"

definition evolves :: "database \<Rightarrow> database \<Rightarrow> bool" where
  "evolves d d' \<longleftrightarrow> grown task_lives (d_tasks d) (d_tasks d') \<and> grown run_lives (d_runs d) (d_runs d')
     \<and> grown (=) (d_events d) (d_events d')"

lemma task_lives_refl [simp]: "task_lives t t"
  by (simp add: task_lives_def)

lemma task_lives_trans: "task_lives a b \<Longrightarrow> task_lives b c \<Longrightarrow> task_lives a c"
  by (auto simp: task_lives_def)

lemma run_lives_refl [simp]: "run_lives r r"
  by (simp add: run_lives_def)

lemma run_lives_trans: "run_lives a b \<Longrightarrow> run_lives b c \<Longrightarrow> run_lives a c"
  by (auto simp: run_lives_def)

interpretation life: db_order evolves
proof
  show "evolves d d" for d
    by (simp add: evolves_def grown_refl)
  show "evolves d d' \<Longrightarrow> evolves d' d'' \<Longrightarrow> evolves d d''" for d d' d''
    unfolding evolves_def by (blast intro: grown_trans task_lives_trans run_lives_trans trans)
qed

text \<open>What touches neither tasks nor runs nor the log respects it.\<close>

definition life_tables :: "database \<Rightarrow> task_row list \<times> run_row list \<times> event_row list" where
  "life_tables d = (d_tasks d, d_runs d, d_events d)"

lemma life_leaves: "leaves life_tables m \<Longrightarrow> moves evolves m"
  by (rule movesI) (simp add: leaves_def life_tables_def evolves_def grown_refl)

lemma life_update: "(\<And>f db. life_tables (upd f db) = life_tables db) \<Longrightarrow> moves evolves (update_rows upd P g)"
  by (rule life_leaves, rule leaves_update)

lemma life_appendEvent: "moves evolves (appendEvent ctx input)"
  by (rule movesI) (auto simp: appendEvent_result evolves_def grown_refl grown_append split: option.split)

lemma life_buildEvent: "moves evolves (buildEvent ctx spec)"
  unfolding buildEvent_def by (intro life.moves_rules)

lemma life_emit: "moves evolves (emit ctx spec)" "moves evolves (emit_id ctx spec)"
  unfolding emit_def emit_id_def by (intro life.moves_rules life_appendEvent life_buildEvent)+

lemma life_build_all: "moves evolves (build_all ctx specs)"
  unfolding build_all_def by (intro life.moves_rules life_buildEvent)

text \<open>A callback only builds events, as every caller's does.\<close>

definition builds_only :: "task_transition_params \<Rightarrow> bool" where
  "builds_only params \<longleftrightarrow> (\<forall>f to. tp_events params = Some f \<longrightarrow> moves evolves (f to))"

lemma builds_only_simps [simp]:
  "builds_only \<lparr>tp_taskId = i, tp_from = s, tp_trigger = t, tp_now = n, tp_events = None\<rparr>"
  "builds_only \<lparr>tp_taskId = i, tp_from = s, tp_trigger = t, tp_now = n, tp_events = Some (\<lambda>to. build_all ctx (specs to))\<rparr>"
  by (simp_all add: builds_only_def life_build_all)

lemma moves_update_tasks:
  "(\<And>t. P t \<Longrightarrow> task_lives t (f t)) \<Longrightarrow> moves evolves (update_tasks P f)"
  by (rule movesI) (simp add: update_tasks_run evolves_def grown_refl grown_set_rows)

lemma moves_update_runs:
  "(\<And>r. P r \<Longrightarrow> run_lives r (f r)) \<Longrightarrow> moves evolves (update_runs P f)"
  by (rule movesI) (simp add: update_runs_run evolves_def grown_refl grown_set_rows)

lemma moves_lift_known:
  "(\<And>a. r = Inr a \<Longrightarrow> moves evolves (f a)) \<Longrightarrow> moves evolves (bind (lift_sum g r) f)"
  by (cases r) (simp_all add: lift_sum_def life.moves_throw)

lemma life_transitionTask: "builds_only params \<Longrightarrow> moves evolves (transitionTask ctx params)"
  unfolding transitionTask_def Let_def
proof (rule moves_lift_known)
  fix to assume ok: "applyTaskTransition (tp_from params) (tp_trigger params) = Inr to" and b: "builds_only params"
  have "task_sm.step (tp_from params) to" using ok by (rule task_sm.step)
  then have "task_lives t (t\<lparr>tk_status := to, tk_updatedAt := now\<rparr>)" if "task_matches ctx (tp_taskId params) (tp_from params) t" for t now
    using that by (auto simp: task_lives_def task_matches_def)
  then show "moves evolves
     (bind (ts_value ctx (tp_now params)) (\<lambda>now.
     bind (update_tasks (task_matches ctx (tp_taskId params) (tp_from params))
             (\<lambda>t. t\<lparr>tk_status := to, tk_updatedAt := now\<rparr>)) (\<lambda>updated.
     bind (case tp_events params of
             None \<Rightarrow> skip
           | Some events \<Rightarrow>
               if 0 < length updated
               then bind (events to) (\<lambda>es. for_each es (\<lambda>event. bind (appendEvent ctx event) (\<lambda>_. skip)))
               else skip) (\<lambda>_.
     ret \<lparr>tres_changed = 0 < length updated, tres_to = to\<rparr>))))"
    using b by (intro life.moves_rules moves_update_tasks life_appendEvent) (simp_all add: builds_only_def)
qed

lemma life_transitionRun: "moves evolves (transitionRun ctx params)"
  unfolding transitionRun_def
proof (rule moves_lift_known)
  fix to assume ok: "applyRunTransition (rp_from params) (rp_trigger params) = Inr to"
  have step: "run_sm.step (rp_from params) to" using ok by (rule run_sm.step)
  show "moves evolves
     (bind (ts_nullable ctx (rp_endedAt (rp_patch params))) (\<lambda>ended.
     bind (ts_nullable ctx (rp_startedAt (rp_patch params))) (\<lambda>started.
     bind (update_runs (run_matches ctx (rp_runId params) (rp_from params))
             (\<lambda>r. r\<lparr>rn_status := to, rn_endedAt := patched ended (rn_endedAt r),
                    rn_startedAt := patched started (rn_startedAt r),
                    rn_failureReason := patched (rp_failureReason (rp_patch params)) (rn_failureReason r)\<rparr>)) (\<lambda>updated.
     ret \<lparr>tres_changed = 0 < length updated, tres_to = to\<rparr>))))"
    by (intro life.moves_rules moves_update_runs) (use step in \<open>auto simp: run_lives_def run_matches_def\<close>)
qed

lemmas life_rules = life.moves_rules life_emit life_appendEvent life_buildEvent life_build_all
  life_transitionTask life_transitionRun

section \<open>Frames of the inserts\<close>

lemma leaves_checked_insert:
  "quiet chk \<Longrightarrow> (\<And>f db. part (d_events_update f db) = part db) \<Longrightarrow> (\<And>f db. part (upd f db) = part db)
     \<Longrightarrow> leaves part (bind chk (\<lambda>r. in_db (upd (\<lambda>rows. rows @ [r]))))"
  by (intro leaves_rules leaves_quiet leaves_in_db) auto

text \<open>Each of these asks that the part does not depend on the log nor on the table written.\<close>

lemma leaves_insert_task: "(\<And>f db. part (d_events_update f db) = part db) \<Longrightarrow> (\<And>f db. part (d_tasks_update f db) = part db)
    \<Longrightarrow> leaves part (insert_task ctx row)"
  unfolding insert_task_def by (intro leaves_checked_insert quiet_rules)

lemma leaves_insert_room: "(\<And>f db. part (d_events_update f db) = part db) \<Longrightarrow> (\<And>f db. part (d_rooms_update f db) = part db)
    \<Longrightarrow> leaves part (insert_room ctx row)"
  unfolding insert_room_def by (intro leaves_checked_insert quiet_rules)

lemma leaves_insert_goal: "(\<And>f db. part (d_events_update f db) = part db) \<Longrightarrow> (\<And>f db. part (d_goals_update f db) = part db)
    \<Longrightarrow> leaves part (insert_goal ctx row)"
  unfolding insert_goal_def by (intro leaves_checked_insert quiet_rules)

lemma leaves_insert_plan: "(\<And>f db. part (d_events_update f db) = part db) \<Longrightarrow> (\<And>f db. part (d_plans_update f db) = part db)
    \<Longrightarrow> leaves part (insert_plan ctx row)"
  unfolding insert_plan_def by (intro leaves_checked_insert quiet_rules)

lemma leaves_insert_approval: "(\<And>f db. part (d_events_update f db) = part db) \<Longrightarrow> (\<And>f db. part (d_approvals_update f db) = part db)
    \<Longrightarrow> leaves part (insert_approval ctx row)"
  unfolding insert_approval_def by (intro leaves_checked_insert quiet_rules)

lemma leaves_insert_checkpoint: "(\<And>f db. part (d_events_update f db) = part db) \<Longrightarrow> (\<And>f db. part (d_checkpoints_update f db) = part db)
    \<Longrightarrow> leaves part (insert_checkpoint ctx row)"
  unfolding insert_checkpoint_def by (intro leaves_checked_insert quiet_rules)

lemma leaves_insert_decision: "(\<And>f db. part (d_events_update f db) = part db) \<Longrightarrow> (\<And>f db. part (d_decisions_update f db) = part db)
    \<Longrightarrow> leaves part (insert_decision ctx row)"
  unfolding insert_decision_def by (intro leaves_checked_insert quiet_rules)

lemma leaves_insert_handoff: "(\<And>f db. part (d_events_update f db) = part db) \<Longrightarrow> (\<And>f db. part (d_handoffs_update f db) = part db)
    \<Longrightarrow> leaves part (insert_handoff ctx row)"
  unfolding insert_handoff_def by (intro leaves_checked_insert quiet_rules)

lemma leaves_insert_blocker: "(\<And>f db. part (d_events_update f db) = part db) \<Longrightarrow> (\<And>f db. part (d_blockers_update f db) = part db)
    \<Longrightarrow> leaves part (insert_blocker ctx row)"
  unfolding insert_blocker_def by (intro leaves_checked_insert quiet_rules)

lemma leaves_insert_dependency: "(\<And>f db. part (d_deps_update f db) = part db) \<Longrightarrow> leaves part (insert_dependency ctx row)"
  unfolding insert_dependency_def by (intro leaves_rules leaves_in_db)

lemma leaves_insert_lease: "(\<And>f db. part (d_leases_update f db) = part db) \<Longrightarrow> leaves part (insert_lease ctx row)"
  unfolding insert_lease_def by (intro leaves_rules leaves_in_db)

lemmas leaves_inserts = leaves_insert_task leaves_insert_room leaves_insert_goal leaves_insert_plan leaves_insert_approval
  leaves_insert_checkpoint leaves_insert_decision leaves_insert_handoff leaves_insert_blocker leaves_insert_dependency
  leaves_insert_lease

lemma leaves_emit_id: "(\<And>f db. part (d_events_update f db) = part db) \<Longrightarrow> leaves part (emit_id ctx spec)"
  by (rule leaves_quiet) (intro quiet_rules | simp)+

lemma leaves_append: "(\<And>f db. part (d_events_update f db) = part db) \<Longrightarrow> leaves part (appendEvent ctx input)"
  by (rule leaves_quiet) (intro quiet_rules | simp)+

lemma leaves_build: "(\<And>f db. part (d_events_update f db) = part db) \<Longrightarrow> leaves part (buildEvent ctx spec)"
  by (rule leaves_quiet) (intro quiet_rules | simp)+

lemmas leaves_log = leaves_emit leaves_emit_id leaves_append leaves_build

lemma leaves_sum [leaves_rules]:
  "(\<And>e. v = Inl e \<Longrightarrow> leaves part (g e)) \<Longrightarrow> (\<And>x. v = Inr x \<Longrightarrow> leaves part (f x))
     \<Longrightarrow> leaves part (case v of Inl e \<Rightarrow> g e | Inr x \<Rightarrow> f x)"
  by (cases v) simp_all

lemma leaves_Let [leaves_rules]: "leaves part (f x) \<Longrightarrow> leaves part (let y = x in f y)"
  by simp

text \<open>The inserts and the order on the lives of tasks and runs.\<close>

lemma life_insert_task: "moves evolves (insert_task ctx row)"
proof -
  have "moves evolves (in_db (d_tasks_update (\<lambda>rows. rows @ [r])))" for r
    by (rule life.moves_in_db) (simp add: evolves_def grown_refl grown_append)
  moreover have "moves evolves (checked_task ctx row)"
    unfolding checked_task_def unique_def refers_def refers_opt_def refers_own_def by (intro life.moves_rules)
  ultimately show ?thesis unfolding insert_task_def by (intro life.moves_bind)
qed

section \<open>Consequences\<close>

text \<open>A task that has ended, a run that has ended: the status stays.\<close>

lemma task_ended_stays: "task_lives t t' \<Longrightarrow> isTaskTerminal (tk_status t) \<Longrightarrow> tk_status t' = tk_status t"
  using task_sm.terminal_absorbing by (auto simp: task_lives_def)

lemma run_ended_stays: "run_lives r r' \<Longrightarrow> isRunTerminal (rn_status r) \<Longrightarrow> rn_status r' = rn_status r"
  using run_sm.terminal_absorbing by (auto simp: run_lives_def)

end
