(* ===== verification/Goal_Service.thy ===== *)
theory Goal_Service
  imports Budget_Service Dag_Service Lifecycle_Order
begin

text \<open>
  \<open>apps/server/src/services/goal-service.ts\<close>: goals, their human transitions, and the cancellation
  that waits until every process of the goal has stopped.
\<close>

section \<open>Records\<close>

record goal =
  goa_id :: ident
  goa_organization_id :: ident
  goa_project_id :: ident
  goa_room_id :: "ident option"
  goa_owner_user_id :: ident
  goa_title :: string
  goa_objective :: string
  goa_priority :: priority
  goa_status :: goal_status
  goa_acceptance_criteria :: "string list"
  goa_stop_conditions :: stop_conditions
  goa_budgets :: goal_budgets
  goa_current_plan_id :: "ident option"
  goa_running_since :: "iso_time option"
  goa_elapsed_cost_usd :: "rat option"
  goa_retry_count :: int
  goa_created_at :: iso_time
  goa_updated_at :: iso_time

definition mapGoal :: "goal_row \<Rightarrow> goal" where
  "mapGoal r = \<lparr>goa_id = gl_id r, goa_organization_id = gl_organizationId r, goa_project_id = gl_projectId r,
     goa_room_id = gl_roomId r, goa_owner_user_id = gl_ownerUserId r, goa_title = gl_title r,
     goa_objective = gl_objective r, goa_priority = gl_priority r, goa_status = gl_status r,
     goa_acceptance_criteria = gl_acceptanceCriteria r, goa_stop_conditions = gl_stopConditions r,
     goa_budgets = gl_budgets r, goa_current_plan_id = gl_currentPlanId r, goa_running_since = gl_runningSince r,
     goa_elapsed_cost_usd = gl_elapsedCostUsd r, goa_retry_count = gl_retryCount r,
     goa_created_at = gl_createdAt r, goa_updated_at = gl_updatedAt r\<rparr>"

record create_goal_input =
  gi_project_id :: ident
  gi_title :: string
  gi_objective :: "string option"
  gi_priority :: "priority option"
  gi_acceptance_criteria :: "string list option"
  gi_stop_conditions :: stop_conditions
  gi_budgets :: goal_budgets

text \<open>\<open>x ?? default\<close>.\<close>

definition default :: "'a \<Rightarrow> 'a option \<Rightarrow> 'a" where
  "default d v = (case v of None \<Rightarrow> d | Some x \<Rightarrow> x)"

section \<open>Creation and reading\<close>

definition getGoal :: "server_context \<Rightarrow> ident \<Rightarrow> goal option srv" where
  "getGoal ctx i =
     bind (sel d_goals (goal_matches ctx i)) (\<lambda>rows. ret (map_option mapGoal (first rows)))"

definition createGoal :: "server_context \<Rightarrow> create_goal_input \<Rightarrow> goal option srv" where
  "createGoal ctx input =
     bind (lift_sum id (supportedGoalPolicy (gi_budgets input) (gi_stop_conditions input))) (\<lambda>(budgets, stopConditions).
     bind (sel d_projects (\<lambda>p. pj_id p = gi_project_id input \<and> pj_organizationId p = cx_organizationId ctx)) (\<lambda>projects.
     bind (guard (projects \<noteq> []) (notFound (''project not found: '' @ gi_project_id input)
             [(''project_id'', JStr (gi_project_id input))])) (\<lambda>_.
     bind (nowIso ctx) (\<lambda>now.
     bind (generate ctx IP_goal) (\<lambda>goalId.
     bind (generate ctx IP_room) (\<lambda>roomId.
     bind (transaction (
       bind (insert_goal ctx \<lparr>gl_id = goalId, gl_organizationId = cx_organizationId ctx,
               gl_projectId = gi_project_id input, gl_roomId = None, gl_ownerUserId = cx_actorUserId ctx,
               gl_title = gi_title input, gl_objective = default [] (gi_objective input),
               gl_priority = default P2 (gi_priority input), gl_status = GS_draft,
               gl_acceptanceCriteria = default [] (gi_acceptance_criteria input),
               gl_stopConditions = stopConditions, gl_budgets = budgets, gl_currentPlanId = None,
               gl_runningSince = None, gl_elapsedCostUsd = None, gl_retryCount = 0, gl_createdAt = now,
               gl_updatedAt = now\<rparr>) (\<lambda>_.
       bind (insert_room ctx \<lparr>rm_id = roomId, rm_organizationId = cx_organizationId ctx,
               rm_projectId = Some (gi_project_id input), rm_taskId = None, rm_goalId = Some goalId,
               rm_type = RT_goal, rm_name = take 200 (''Goal: '' @ gi_title input), rm_description = [],
               rm_createdAt = now\<rparr>) (\<lambda>_.
       bind (ts_value ctx now) (\<lambda>updated.
       bind (update_rows d_goals_update (\<lambda>g. gl_id g = goalId)
               (\<lambda>g. g\<lparr>gl_roomId := Some roomId, gl_updatedAt := updated\<rparr>)) (\<lambda>_.
       emit ctx ((event_of ''goal.created'' Act_user (cx_actorUserId ctx) goalId)\<lparr>
         es_projectId := Some (gi_project_id input), es_roomId := Some roomId, es_goalId := Some goalId,
         es_payload := [(''goal_id'', JStr goalId), (''room_id'', JStr roomId), (''title'', JStr (gi_title input))]\<rparr>))))))) (\<lambda>_.
     getGoal ctx goalId)))))))"

text \<open>A given, non-empty filter restricts the list.\<close>

definition listGoals :: "server_context \<Rightarrow> ident option \<Rightarrow> string option \<Rightarrow> goal list srv" where
  "listGoals ctx projectId status =
     bind (sel d_goals (\<lambda>g. gl_organizationId g = cx_organizationId ctx
             \<and> (case projectId of None \<Rightarrow> True | Some p \<Rightarrow> p = [] \<or> gl_projectId g = p)
             \<and> (case status of None \<Rightarrow> True | Some s \<Rightarrow> s = [] \<or> goal_status_text (gl_status g) = s))) (\<lambda>rows.
     ret (map mapGoal (order_desc gl_createdAt rows)))"

section \<open>Transitions\<close>

fun goal_trigger_text :: "goal_trigger \<Rightarrow> string" where
  "goal_trigger_text GT_plan_accepted = ''plan_accepted''"
| "goal_trigger_text GT_plan_rejected = ''plan_rejected''"
| "goal_trigger_text GT_dag_materialized = ''dag_materialized''"
| "goal_trigger_text GT_approval_required = ''approval_required''"
| "goal_trigger_text GT_approval_granted = ''approval_granted''"
| "goal_trigger_text GT_approval_rejected = ''approval_rejected''"
| "goal_trigger_text GT_pause = ''pause''"
| "goal_trigger_text GT_resume = ''resume''"
| "goal_trigger_text GT_blocked_detected = ''blocked_detected''"
| "goal_trigger_text GT_blocker_resolved = ''blocker_resolved''"
| "goal_trigger_text GT_all_tasks_terminal = ''all_tasks_terminal''"
| "goal_trigger_text GT_cancel = ''cancel''"
| "goal_trigger_text GT_archive = ''archive''"

definition eventTypeForTrigger :: "goal_trigger \<Rightarrow> goal_status \<Rightarrow> string" where
  "eventTypeForTrigger trigger to =
     (if trigger = GT_pause then ''goal.paused''
      else if trigger = GT_resume then ''goal.resumed''
      else if trigger = GT_cancel then ''goal.cancelled''
      else if to = GS_completed then ''goal.completed''
      else ''goal.status_changed'')"

definition transition_goal_tx :: "server_context \<Rightarrow> ident \<Rightarrow> goal_trigger \<Rightarrow> iso_time \<Rightarrow> unit srv" where
  "transition_goal_tx ctx i trigger now =
     bind (sel d_goals (goal_matches ctx i)) (\<lambda>rows.
     case first rows of
       None \<Rightarrow> skip
     | Some existing \<Rightarrow>
         bind (guard (canTransitionGoal (gl_status existing) trigger)
                (invalidState (''cannot '' @ quoted (goal_trigger_text trigger) @ '' a goal in status ''
                     @ quoted (goal_status_text (gl_status existing)))
                  [(''status'', JStr (goal_status_text (gl_status existing))),
                   (''trigger'', JStr (goal_trigger_text trigger))])) (\<lambda>_.
         bind (lift_sum Goal_transition_error (applyGoalTransition (gl_status existing) trigger)) (\<lambda>to.
         bind (ts_nullable ctx (if to = GS_running \<and> gl_runningSince existing = None then Some now
                                else gl_runningSince existing)) (\<lambda>since.
         bind (ts_value ctx now) (\<lambda>updated.
         bind (update_rows d_goals_update (goal_matches ctx i)
                 (\<lambda>g. g\<lparr>gl_status := to, gl_runningSince := since, gl_updatedAt := updated\<rparr>)) (\<lambda>_.
         bind (emit_id ctx (goal_event (eventTypeForTrigger trigger to) Act_user (cx_actorUserId ctx) existing
                 [(''goal_id'', JStr i), (''from'', JStr (goal_status_text (gl_status existing))),
                  (''to'', JStr (goal_status_text to)), (''trigger'', JStr (goal_trigger_text trigger))])) (\<lambda>transitionEvent.
         if trigger = GT_pause \<or> trigger = GT_resume
         then
           bind (sel d_goals (goal_matches ctx i)) (\<lambda>again.
           case first again of
             None \<Rightarrow> throw (Plain_error ''undefined goal row'')
           | Some goalRow \<Rightarrow>
               bind (createCheckpointInTx ctx goalRow (if trigger = GT_pause then CT_paused else CT_resumed)
                       \<lparr>co_planId = None, co_triggerEventId = Some transitionEvent,
                        co_summary = Some (if trigger = GT_pause then ''Goal paused'' else ''Goal resumed'')\<rparr>) (\<lambda>_. skip))
         else skip)))))))"

definition transitionGoal :: "server_context \<Rightarrow> ident \<Rightarrow> goal_trigger \<Rightarrow> goal option srv" where
  "transitionGoal ctx i trigger =
     bind (nowIso ctx) (\<lambda>now.
     bind (transaction (transition_goal_tx ctx i trigger now)) (\<lambda>_.
     getGoal ctx i))"

definition pauseGoal :: "server_context \<Rightarrow> ident \<Rightarrow> goal option srv" where
  "pauseGoal ctx i = transitionGoal ctx i GT_pause"

text \<open>\<open>cancelling\<close>: this process is in the middle of cancelling that goal (\<open>cancellations\<close>).\<close>

definition resumeGoal :: "server_context \<Rightarrow> bool \<Rightarrow> ident \<Rightarrow> goal option srv" where
  "resumeGoal ctx cancelling i =
     bind (guard (\<not> cancelling)
            (conflict_error ''goal cancellation is waiting for execution nodes to stop'' [])) (\<lambda>_.
     transitionGoal ctx i GT_resume)"

section \<open>Cancellation\<close>

text \<open>
  The first transaction fences the goal: it is paused, so that nothing new is scheduled. It returns
  the row as it was read.
\<close>

definition fence_goal :: "server_context \<Rightarrow> ident \<Rightarrow> iso_time \<Rightarrow> goal_row option srv" where
  "fence_goal ctx i now =
     bind (sel d_goals (goal_matches ctx i)) (\<lambda>rows.
     case first rows of
       None \<Rightarrow> ret None
     | Some row \<Rightarrow>
         if gl_status row = GS_cancelled then ret (Some row)
         else
           bind (guard (canTransitionGoal (gl_status row) GT_cancel)
                  (invalidState (''cannot cancel goal in status '' @ quoted (goal_status_text (gl_status row))) [])) (\<lambda>_.
           bind (if gl_status row \<noteq> GS_paused
                 then bind (ts_value ctx now) (\<lambda>updated.
                      bind (update_rows d_goals_update (\<lambda>g. gl_id g = i)
                              (\<lambda>g. g\<lparr>gl_status := GS_paused, gl_updatedAt := updated\<rparr>)) (\<lambda>_.
                      emit ctx (goal_event ''goal.paused'' Act_user (cx_actorUserId ctx) row
                        [(''goal_id'', JStr i), (''from'', JStr (goal_status_text (gl_status row))),
                         (''to'', JStr ''paused''), (''reason'', JStr ''cancellation_requested'')])))
                 else skip) (\<lambda>_.
           ret (Some row))))"

definition goal_runs :: "server_context \<Rightarrow> ident \<Rightarrow> (run_row \<times> task_row) list srv" where
  "goal_runs ctx i = sel_runs_tasks (\<lambda>(r, t). tk_goalId t = Some i \<and> rn_organizationId r = cx_organizationId ctx)"

definition goal_held :: "server_context \<Rightarrow> ident \<Rightarrow> (lease_row \<times> task_row) list srv" where
  "goal_held ctx i = sel_leases_tasks (\<lambda>(l, t). tk_goalId t = Some i \<and> fl_organizationId l = cx_organizationId ctx
     \<and> fl_status l = LS_held)"

definition cancel_child :: "server_context \<Rightarrow> ident \<Rightarrow> iso_time \<Rightarrow> task_row \<Rightarrow> unit srv" where
  "cancel_child ctx i now task =
     (if \<not> canTransitionTask (tk_status task) TT_cancel then skip
      else
        bind (transitionTask ctx \<lparr>tp_taskId = tk_id task, tp_from = tk_status task, tp_trigger = TT_cancel,
                tp_now = now, tp_events = Some (\<lambda>to. build_all ctx
                  [(event_of ''task.updated'' Act_user (cx_actorUserId ctx) (tk_id task))\<lparr>
                     es_projectId := Some (tk_projectId task), es_taskId := Some (tk_id task),
                     es_roomId := tk_roomId task, es_goalId := Some i,
                     es_payload := [(''status'', JStr (task_status_text to)), (''reason'', JStr ''goal_cancelled'')]\<rparr>])\<rparr>) (\<lambda>_.
        bind (propagateBlocked ctx (tk_id task) ''goal_cancelled'') (\<lambda>_. skip)))"

definition finish_cancel :: "server_context \<Rightarrow> ident \<Rightarrow> iso_time \<Rightarrow> unit srv" where
  "finish_cancel ctx i now =
     bind (sel d_goals (goal_matches ctx i)) (\<lambda>rows.
     case first rows of
       None \<Rightarrow> throw (conflict_error ''goal changed during cancellation; retry cancellation'' [])
     | Some row \<Rightarrow>
         bind (guard (gl_status row = GS_paused)
                (conflict_error ''goal changed during cancellation; retry cancellation'' [])) (\<lambda>_.
         bind (goal_runs ctx i) (\<lambda>currentRuns.
         bind (goal_held ctx i) (\<lambda>held.
         bind (if list_ex (\<lambda>p. \<not> run_over (rn_status (fst p))) currentRuns \<or> length held > 0 then ret True
               else bind (unsettledGoalRunIds ctx i) (\<lambda>unsettled. ret (length unsettled > 0))) (\<lambda>uncertain.
         bind (guard (\<not> uncertain) (conflict_error ''goal paused: process stop is still unconfirmed'' [])) (\<lambda>_.
         bind (sel d_tasks (\<lambda>t. tk_goalId t = Some i \<and> tk_organizationId t = cx_organizationId ctx)) (\<lambda>children.
         bind (for_each children (cancel_child ctx i now)) (\<lambda>_.
         bind (ts_value ctx now) (\<lambda>updated.
         bind (update_rows d_goals_update (\<lambda>g. gl_id g = i)
                 (\<lambda>g. g\<lparr>gl_status := GS_cancelled, gl_updatedAt := updated\<rparr>)) (\<lambda>_.
         emit ctx (goal_event ''goal.cancelled'' Act_user (cx_actorUserId ctx) row
           [(''goal_id'', JStr i), (''from'', JStr ''paused''), (''to'', JStr ''cancelled''),
            (''trigger'', JStr ''cancel''), (''process_exit_confirmed'', JBool True)])))))))))))"

text \<open>
  \<open>cancelGoalExecution\<close>. Stopping a process is the caller's \<open>stopRun\<close>, an operation on the world
  like any other, since the node's answer is ingested while it waits.
\<close>

definition stop_child ::
  "(ident \<Rightarrow> unit srv) option \<Rightarrow> ident option list \<Rightarrow> run_row \<times> task_row \<Rightarrow> unit srv" where
  "stop_child stopRun uncertain p =
     (if run_over (rn_status (fst p)) \<and> \<not> List.member uncertain (Some (rn_id (fst p))) then skip
      else (case stopRun of
              None \<Rightarrow> throw (conflict_error ''goal paused: an execution node must confirm its runs have stopped'' [])
            | Some stop \<Rightarrow> stop (rn_id (fst p))))"

definition cancelGoalExecution :: "server_context \<Rightarrow> ident \<Rightarrow> (ident \<Rightarrow> unit srv) option \<Rightarrow> goal option srv" where
  "cancelGoalExecution ctx i stopRun =
     bind (nowIso ctx) (\<lambda>now.
     bind (transaction (fence_goal ctx i now)) (\<lambda>fenced.
     case fenced of
       None \<Rightarrow> ret None
     | Some row \<Rightarrow>
         if gl_status row = GS_cancelled then ret (Some (mapGoal row))
         else
           bind (goal_runs ctx i) (\<lambda>childRuns.
           bind (goal_held ctx i) (\<lambda>leases.
           bind (unsettledGoalRunIds ctx i) (\<lambda>unsettled.
           let uncertain = set_list (map (\<lambda>p. fl_runId (fst p)) leases @ map Some unsettled) in
           bind (for_each childRuns (stop_child stopRun uncertain)) (\<lambda>_.
           bind (transaction (finish_cancel ctx i now)) (\<lambda>_.
           getGoal ctx i)))))))"

section \<open>A cancelled goal has stopped\<close>

text \<open>
  Every process of the goal is accounted for: its runs are over, a run that failed by a disconnect
  has a confirmed exit, and no lease of its tasks is held.
\<close>

definition processes_stopped :: "server_context \<Rightarrow> ident \<Rightarrow> database \<Rightarrow> bool" where
  "processes_stopped ctx i db \<longleftrightarrow>
     (\<forall>t \<in> set (d_tasks db). tk_goalId t = Some i \<longrightarrow>
       (\<forall>r \<in> set (d_runs db). rn_taskId r = tk_id t \<and> rn_organizationId r = cx_organizationId ctx \<longrightarrow>
          run_over (rn_status r)
          \<and> (tk_organizationId t = cx_organizationId ctx \<and> rn_status r = RS_failed
             \<and> rn_failureReason r = Some ''daemon_disconnect'' \<longrightarrow> exit_confirmed ctx db (rn_id r)))
       \<and> (\<forall>l \<in> set (d_leases db). fl_taskId l = tk_id t \<and> fl_organizationId l = cx_organizationId ctx
            \<longrightarrow> fl_status l \<noteq> LS_held))"

definition tasks_ended :: "server_context \<Rightarrow> ident \<Rightarrow> database \<Rightarrow> bool" where
  "tasks_ended ctx i db \<longleftrightarrow>
     (\<forall>t \<in> set (d_tasks db). tk_goalId t = Some i \<and> tk_organizationId t = cx_organizationId ctx
        \<longrightarrow> isTaskTerminal (tk_status t))"

text \<open>The checks of the second transaction, on the database they read.\<close>

lemma unsettled_none:
  assumes "unsettledGoalRunIds ctx i w = (Inr ids, w')" and "ids = []"
  shows "w' = w \<and> (\<forall>r \<in> set (d_runs (w_db w)). \<forall>t \<in> set (d_tasks (w_db w)). tk_id t = rn_taskId r
    \<and> disconnect_candidate ctx (no_filter\<lparr>rf_goalId := Some i\<rparr>) (r, t) \<longrightarrow> exit_confirmed ctx (w_db w) (rn_id r))"
proof -
  obtain un where un: "unconfirmedDisconnectRunIds ctx (no_filter\<lparr>rf_goalId := Some i\<rparr>) w = (Inr un, w)"
    and un_set: "set un = {rn_id r | r t. r \<in> set (d_runs (w_db w)) \<and> t \<in> set (d_tasks (w_db w)) \<and> tk_id t = rn_taskId r
          \<and> disconnect_candidate ctx (no_filter\<lparr>rf_goalId := Some i\<rparr>) (r, t) \<and> \<not> exit_confirmed ctx (w_db w) (rn_id r)}"
    using unconfirmed_run by blast
  from assms have "w' = w" and "set un \<subseteq> {}"
    by (auto simp: unsettledGoalRunIds_def sel_runs_tasks_def sel_leases_tasks_def bind_def gets_def un ret_def
        set_list_def)
  then show ?thesis using un_set by blast
qed

lemma disconnect_candidate_goal:
  "rn_organizationId r = cx_organizationId ctx \<Longrightarrow> tk_organizationId t = cx_organizationId ctx \<Longrightarrow> rn_status r = RS_failed
     \<Longrightarrow> rn_failureReason r = Some ''daemon_disconnect'' \<Longrightarrow> tk_goalId t = Some i
     \<Longrightarrow> disconnect_candidate ctx (no_filter\<lparr>rf_goalId := Some i\<rparr>) (r, t)"
  by (simp add: disconnect_candidate_def no_filter_def opt_eq_def)

text \<open>What a cancelled child leaves alone, and what it does to the tasks.\<close>

lemma quiet_propagate [quiet_rules]: "quiet (propagateBlocked ctx s reason)"
  unfolding propagateBlocked_def signal_one_def [abs_def] find_task_def loadEdges_def Let_def by (intro quiet_rules)

lemma life_propagate: "moves evolves (propagateBlocked ctx s reason)"
  unfolding propagateBlocked_def signal_one_def [abs_def] find_task_def loadEdges_def Let_def by (intro life_rules)

definition task_keys :: "database \<Rightarrow> (ident \<times> ident option \<times> ident) list" where
  "task_keys db = map (\<lambda>t. (tk_id t, tk_goalId t, tk_organizationId t)) (d_tasks db)"

definition same_processes :: "database \<Rightarrow> database \<Rightarrow> bool" where
  "same_processes d d' \<longleftrightarrow> d_runs d' = d_runs d \<and> d_leases d' = d_leases d \<and> task_keys d' = task_keys d
     \<and> grown (=) (d_events d) (d_events d')"

lemma same_processes_trans: "same_processes a b \<Longrightarrow> same_processes b c \<Longrightarrow> same_processes a c"
  unfolding same_processes_def by (auto intro: grown_trans [OF trans])

lemma processes_stopped_same:
  assumes "processes_stopped ctx i d" and same: "same_processes d d'"
  shows "processes_stopped ctx i d'"
  unfolding processes_stopped_def
proof (intro ballI impI)
  fix t' assume t': "t' \<in> set (d_tasks d')" and goal: "tk_goalId t' = Some i"
  have "(tk_id t', tk_goalId t', tk_organizationId t') \<in> set (task_keys d)"
  proof -
    have "(tk_id t', tk_goalId t', tk_organizationId t') \<in> set (task_keys d')" using t' by (auto simp: task_keys_def)
    then show ?thesis using same by (simp add: same_processes_def)
  qed
  then obtain t where t: "t \<in> set (d_tasks d)" "tk_id t = tk_id t'" "tk_goalId t = Some i"
      "tk_organizationId t = tk_organizationId t'"
    using goal by (auto simp: task_keys_def)
  have grown: "exit_confirmed ctx d' x" if "exit_confirmed ctx d x" for x
  proof -
    obtain new where "d_events d' = d_events d @ new" using same by (auto simp: same_processes_def grown_eq)
    then show ?thesis using that by (auto simp: exit_confirmed_def)
  qed
  have runs: "d_runs d' = d_runs d" "d_leases d' = d_leases d" using same by (auto simp: same_processes_def)
  from assms(1) t(1,3) show "(\<forall>r \<in> set (d_runs d'). rn_taskId r = tk_id t' \<and> rn_organizationId r = cx_organizationId ctx \<longrightarrow>
          run_over (rn_status r)
          \<and> (tk_organizationId t' = cx_organizationId ctx \<and> rn_status r = RS_failed
             \<and> rn_failureReason r = Some ''daemon_disconnect'' \<longrightarrow> exit_confirmed ctx d' (rn_id r)))
       \<and> (\<forall>l \<in> set (d_leases d'). fl_taskId l = tk_id t' \<and> fl_organizationId l = cx_organizationId ctx
            \<longrightarrow> fl_status l \<noteq> LS_held)"
    unfolding processes_stopped_def runs t(2) [symmetric] t(4) [symmetric] using grown by blast
qed

lemma cancel_child_effect:
  assumes run: "cancel_child ctx i now task w = (Inr u, w')"
  shows "same_processes (w_db w) (w_db w')
    \<and> (\<forall>t' \<in> set (d_tasks (w_db w')). isTaskTerminal (tk_status t')
         \<or> t' \<in> set (d_tasks (w_db w)) \<and> \<not> task_matches ctx (tk_id task) (tk_status task) t')"
proof (cases "canTransitionTask (tk_status task) TT_cancel")
  case False
  then have "w' = w" and "isTaskTerminal (tk_status task)" using run by (simp_all add: cancel_child_def run_basic task_cancel_iff)
  then show ?thesis by (auto simp: same_processes_def grown_refl task_matches_def)
next
  case True
  define p where "p = \<lparr>tp_taskId = tk_id task, tp_from = tk_status task, tp_trigger = TT_cancel,
                tp_now = now, tp_events = Some (\<lambda>to. build_all ctx
                  [(event_of ''task.updated'' Act_user (cx_actorUserId ctx) (tk_id task))\<lparr>
                     es_projectId := Some (tk_projectId task), es_taskId := Some (tk_id task),
                     es_roomId := tk_roomId task, es_goalId := Some i,
                     es_payload := [(''status'', JStr (task_status_text to)), (''reason'', JStr ''goal_cancelled'')]\<rparr>])\<rparr>"
  have logs: "logs_only p" by (auto simp: p_def logs_only_def quiet_rules)
  have life: "moves evolves (cancel_child ctx i now task)"
    unfolding cancel_child_def by (intro life_rules life_propagate) simp
  from run True obtain res w1 ids where res: "transitionTask ctx p w = (Inr res, w1)"
    and pr: "propagateBlocked ctx (tk_id task) ''goal_cancelled'' w1 = (Inr ids, w')"
    unfolding p_def cancel_child_def by (auto simp: bind_Inr run_basic)
  from transitionTask_tables [OF res logs] obtain n where
    app: "applyTaskTransition (tk_status task) TT_cancel = Inr (tres_to res)"
    and core: "core w1 = (core w)\<lparr>d_tasks := set_rows (task_matches ctx (tk_id task) (tk_status task))
            (\<lambda>t. t\<lparr>tk_status := tres_to res, tk_updatedAt := n\<rparr>) (d_tasks (w_db w))\<rparr>"
    by (auto simp: p_def)
  have "core w' = core w1" using quiet_run [OF quiet_propagate pr] .
  then have db: "core w' = (core w)\<lparr>d_tasks := set_rows (task_matches ctx (tk_id task) (tk_status task))
            (\<lambda>t. t\<lparr>tk_status := tres_to res, tk_updatedAt := n\<rparr>) (d_tasks (w_db w))\<rparr>" using core by simp
  have terminal: "isTaskTerminal (tres_to res)"
    using task_sm.app_row [OF app] by (auto simp: task_machine_defs)
  have parts: "d_runs (w_db w') = d_runs (w_db w)" "d_leases (w_db w') = d_leases (w_db w)"
    "d_tasks (w_db w') = set_rows (task_matches ctx (tk_id task) (tk_status task))
            (\<lambda>t. t\<lparr>tk_status := tres_to res, tk_updatedAt := n\<rparr>) (d_tasks (w_db w))"
    using arg_cong [OF db, of d_runs] arg_cong [OF db, of d_leases] arg_cong [OF db, of d_tasks] by (simp_all add: core_def)
  have "grown (=) (d_events (w_db w)) (d_events (w_db w'))"
    using moves_run [OF life run] by (simp add: evolves_def)
  then show ?thesis
    using terminal by (auto simp: same_processes_def parts task_keys_def set_rows_def)
qed

lemma cancel_children_effect:
  assumes run: "for_each children (cancel_child ctx i now) w = (Inr u, w')"
    and all: "children = filter (\<lambda>t. tk_goalId t = Some i \<and> tk_organizationId t = cx_organizationId ctx) (d_tasks (w_db w))"
  shows "same_processes (w_db w) (w_db w') \<and> tasks_ended ctx i (w_db w')"
proof -
  define J where "J pre v \<longleftrightarrow> same_processes (w_db w) (w_db v)
      \<and> (\<forall>t \<in> set (d_tasks (w_db v)). tk_goalId t = Some i \<and> tk_organizationId t = cx_organizationId ctx
           \<longrightarrow> isTaskTerminal (tk_status t) \<or> t \<in> set children - set pre)" for pre :: "task_row list" and v :: world
  have "triple (J []) (for_each children (cancel_child ctx i now)) (\<lambda>_. J children) (\<lambda>_ _. True)"
  proof (rule triple_for_each, rule tripleI)
    fix pre x post v a v'
    assume J: "J pre v" and step: "cancel_child ctx i now x v = (Inr a, v')" and split: "children = pre @ x # post"
    have x: "tk_organizationId x = cx_organizationId ctx"
    proof -
      have "x \<in> set children" by (simp add: split)
      then show ?thesis by (simp add: all)
    qed
    note eff = cancel_child_effect [OF step]
    have same: "same_processes (w_db w) (w_db v')"
      using J eff same_processes_trans unfolding J_def by blast
    have "isTaskTerminal (tk_status t) \<or> t \<in> set children - set (pre @ [x])"
      if t: "t \<in> set (d_tasks (w_db v'))" "tk_goalId t = Some i" "tk_organizationId t = cx_organizationId ctx" for t
    proof -
      from eff t(1) consider "isTaskTerminal (tk_status t)"
        | "t \<in> set (d_tasks (w_db v))" "\<not> task_matches ctx (tk_id x) (tk_status x) t" by blast
      then show ?thesis
      proof cases
        case 2
        then have "t \<noteq> x" using x by (auto simp: task_matches_def)
        then show ?thesis using J 2(1) t(2,3) unfolding J_def by auto
      qed simp
    qed
    then show "J (pre @ [x]) v'" using same by (simp add: J_def)
  qed simp
  moreover have "J [] w" unfolding J_def all by (auto simp: same_processes_def grown_refl)
  ultimately have "J children w'" using run by (rule tripleD)
  then show ?thesis by (simp add: J_def tasks_ended_def)
qed

lemma same_processes_update: "same_processes d (d\<lparr>d_goals := g\<rparr>)" "same_processes d (d\<lparr>d_events := d_events d @ es\<rparr>)"
  by (simp_all add: same_processes_def task_keys_def grown_refl grown_append)

definition goal_row_cancelled :: "server_context \<Rightarrow> ident \<Rightarrow> database \<Rightarrow> bool" where
  "goal_row_cancelled ctx i db \<longleftrightarrow> (\<exists>g \<in> set (d_goals db). goal_matches ctx i g)
     \<and> (\<forall>g \<in> set (d_goals db). gl_id g = i \<longrightarrow> gl_status g = GS_cancelled)"

lemma goal_runs_run: "goal_runs ctx i w = (Inr (filter (\<lambda>(r, t). tk_goalId t = Some i \<and> rn_organizationId r = cx_organizationId ctx)
    (inner_join (\<lambda>r t. tk_id t = rn_taskId r) (d_runs (w_db w)) (d_tasks (w_db w)))), w)"
  by (simp add: goal_runs_def sel_runs_tasks_def gets_def)

lemma goal_held_run: "goal_held ctx i w = (Inr (filter (\<lambda>(l, t). tk_goalId t = Some i \<and> fl_organizationId l = cx_organizationId ctx
     \<and> fl_status l = LS_held) (inner_join (\<lambda>l t. tk_id t = fl_taskId l) (d_leases (w_db w)) (d_tasks (w_db w)))), w)"
  by (simp add: goal_held_def sel_leases_tasks_def gets_def)

text \<open>The checks passed.\<close>

lemma finish_checks:
  assumes runs: "goal_runs ctx i w = (Inr rs, w1)" and held: "goal_held ctx i w1 = (Inr hs, w2)"
    and check: "(if list_ex (\<lambda>p. \<not> run_over (rn_status (fst p))) rs \<or> length hs > 0 then ret True
               else bind (unsettledGoalRunIds ctx i) (\<lambda>unsettled. ret (length unsettled > 0))) w2 = (Inr uncertain, w3)"
    and "\<not> uncertain"
  shows "w3 = w \<and> processes_stopped ctx i (w_db w)"
proof -
  have w: "w1 = w" "w2 = w" using runs held by (simp_all add: goal_runs_run goal_held_run)
  from check \<open>\<not> uncertain\<close> have over: "\<not> list_ex (\<lambda>p. \<not> run_over (rn_status (fst p))) rs" and none: "hs = []"
    by (auto simp: run_basic split: if_splits)
  from check \<open>\<not> uncertain\<close> over none obtain ids where un: "unsettledGoalRunIds ctx i w = (Inr ids, w3)" "ids = []"
    unfolding w by (auto simp: bind_Inr run_basic)
  from unsettled_none [OF un] have w3: "w3 = w" and confirmed: "\<And>r t. r \<in> set (d_runs (w_db w)) \<Longrightarrow> t \<in> set (d_tasks (w_db w))
      \<Longrightarrow> tk_id t = rn_taskId r \<Longrightarrow> disconnect_candidate ctx (no_filter\<lparr>rf_goalId := Some i\<rparr>) (r, t) \<Longrightarrow> exit_confirmed ctx (w_db w) (rn_id r)"
    by blast+
  have run: "run_over (rn_status r)" if "r \<in> set (d_runs (w_db w))" "t \<in> set (d_tasks (w_db w))" "rn_taskId r = tk_id t"
    "tk_goalId t = Some i" "rn_organizationId r = cx_organizationId ctx" for r t
  proof -
    have "(r, t) \<in> set rs" using runs that by (auto simp: goal_runs_run set_inner_join)
    then show ?thesis using over by (auto simp: list_ex_iff)
  qed
  have lease: "fl_status l \<noteq> LS_held" if "l \<in> set (d_leases (w_db w))" "t \<in> set (d_tasks (w_db w))" "fl_taskId l = tk_id t"
    "tk_goalId t = Some i" "fl_organizationId l = cx_organizationId ctx" for l t
  proof
    assume "fl_status l = LS_held"
    then have "(l, t) \<in> set hs" using held that unfolding w by (auto simp: goal_held_run set_inner_join)
    then show False using none by simp
  qed
  show ?thesis
    unfolding processes_stopped_def using w3 run lease confirmed disconnect_candidate_goal [of _ ctx] by metis
qed

lemma finish_cancel_effect:
  assumes run: "finish_cancel ctx i now w = (Inr u, w')"
  shows "processes_stopped ctx i (w_db w') \<and> tasks_ended ctx i (w_db w') \<and> goal_row_cancelled ctx i (w_db w')
    \<and> (\<exists>log e. d_events (w_db w') = d_events (w_db w) @ log @ [e] \<and> ev_type e = ''goal.cancelled''
         \<and> ev_goalId e = Some i)"
proof (cases "first (filter (goal_matches ctx i) (d_goals (w_db w)))")
  case None
  then show ?thesis using run by (simp add: finish_cancel_def bind_sel run_basic)
next
  case (Some row)
  have row: "row \<in> set (d_goals (w_db w))" "goal_matches ctx i row"
    using Some unfolding first_filter by (auto dest: find_Some_D)
  let ?e = "goal_event ''goal.cancelled'' Act_user (cx_actorUserId ctx) row
           [(''goal_id'', JStr i), (''from'', JStr ''paused''), (''to'', JStr ''cancelled''),
            (''trigger'', JStr ''cancel''), (''process_exit_confirmed'', JBool True)]"
  have "bind (guard (gl_status row = GS_paused)
                (conflict_error ''goal changed during cancellation; retry cancellation'' [])) (\<lambda>_.
         bind (goal_runs ctx i) (\<lambda>currentRuns.
         bind (goal_held ctx i) (\<lambda>held.
         bind (if list_ex (\<lambda>p. \<not> run_over (rn_status (fst p))) currentRuns \<or> length held > 0 then ret True
               else bind (unsettledGoalRunIds ctx i) (\<lambda>unsettled. ret (length unsettled > 0))) (\<lambda>uncertain.
         bind (guard (\<not> uncertain) (conflict_error ''goal paused: process stop is still unconfirmed'' [])) (\<lambda>_.
         bind (sel d_tasks (\<lambda>t. tk_goalId t = Some i \<and> tk_organizationId t = cx_organizationId ctx)) (\<lambda>children.
         bind (for_each children (cancel_child ctx i now)) (\<lambda>_.
         bind (ts_value ctx now) (\<lambda>updated.
         bind (update_rows d_goals_update (\<lambda>g. gl_id g = i)
                 (\<lambda>g. g\<lparr>gl_status := GS_cancelled, gl_updatedAt := updated\<rparr>)) (\<lambda>_.
         emit ctx ?e))))))))) w = (Inr u, w')"
    using run unfolding finish_cancel_def bind_sel Some option.case .
  then obtain v0 w0 rs w1 hs w2 uncertain w3 v4 w4 children w5 v6 w6 updated w7 v8 w8 where
    g0: "guard (gl_status row = GS_paused) (conflict_error ''goal changed during cancellation; retry cancellation'' []) w = (Inr v0, w0)"
    and rs: "goal_runs ctx i w0 = (Inr rs, w1)" and hs: "goal_held ctx i w1 = (Inr hs, w2)"
    and un: "(if list_ex (\<lambda>p. \<not> run_over (rn_status (fst p))) rs \<or> length hs > 0 then ret True
               else bind (unsettledGoalRunIds ctx i) (\<lambda>unsettled. ret (length unsettled > 0))) w2 = (Inr uncertain, w3)"
    and g4: "guard (\<not> uncertain) (conflict_error ''goal paused: process stop is still unconfirmed'' []) w3 = (Inr v4, w4)"
    and ch: "sel d_tasks (\<lambda>t. tk_goalId t = Some i \<and> tk_organizationId t = cx_organizationId ctx) w4 = (Inr children, w5)"
    and loop: "for_each children (cancel_child ctx i now) w5 = (Inr v6, w6)"
    and ts: "ts_value ctx now w6 = (Inr updated, w7)"
    and up: "update_rows d_goals_update (\<lambda>g. gl_id g = i)
                 (\<lambda>g. g\<lparr>gl_status := GS_cancelled, gl_updatedAt := updated\<rparr>) w7 = (Inr v8, w8)"
    and em: "emit ctx ?e w8 = (Inr u, w')"
    by (elim bind_InrE)
  have w0: "w0 = w" using guard_Inr [OF g0] by simp
  note checks = finish_checks [OF rs hs un]
  have w4: "w4 = w3" "\<not> uncertain" using guard_Inr [OF g4] by simp_all
  have w3: "w3 = w" "processes_stopped ctx i (w_db w)" using checks [OF w4(2)] w0 by simp_all
  have w5: "w5 = w" "children = filter (\<lambda>t. tk_goalId t = Some i \<and> tk_organizationId t = cx_organizationId ctx) (d_tasks (w_db w))"
    using ch w4 w3 by (auto simp: sel_def gets_def)
  have eff: "same_processes (w_db w) (w_db w6) \<and> tasks_ended ctx i (w_db w6)"
    using cancel_children_effect [of children ctx i now w] loop w5 by simp
  have goals: "d_goals (w_db w6) = d_goals (w_db w)"
  proof -
    have "leaves d_goals (for_each children (cancel_child ctx i now))"
      unfolding cancel_child_def
      by (intro leaves_rules leaves_transitionTask leaves_quiet [OF quiet_propagate]) (auto simp: logs_only_def quiet_rules)
    from leaves_run [OF this loop] show ?thesis using w5 by simp
  qed
  have w7: "w7 = w6" by (rule readsD [OF reads_ts(1) ts])
  have w8: "w_db w8 = (w_db w6)\<lparr>d_goals := set_rows (\<lambda>g. gl_id g = i)
      (\<lambda>g. g\<lparr>gl_status := GS_cancelled, gl_updatedAt := updated\<rparr>) (d_goals (w_db w6))\<rparr>"
    using up w7 by (auto simp: update_rows_run)
  obtain e where e: "w_db w' = (w_db w8)\<lparr>d_events := d_events (w_db w8) @ [e]\<rparr>" "event_for ctx ?e e"
    using emit_log [OF em] by blast
  have same: "same_processes (w_db w) (w_db w')"
    by (rule same_processes_trans [OF conjunct1 [OF eff]], rule same_processes_trans [where b = "w_db w8"])
       (simp_all only: w8 e(1) same_processes_update)
  have tasks: "d_tasks (w_db w') = d_tasks (w_db w6)" by (simp add: e(1) w8)
  have ended: "tasks_ended ctx i (w_db w')" using eff tasks by (simp add: tasks_ended_def)
  have cancelled: "goal_row_cancelled ctx i (w_db w')"
    unfolding goal_row_cancelled_def
  proof
    show "\<exists>g \<in> set (d_goals (w_db w')). goal_matches ctx i g"
      using row by (intro bexI [of _ "row\<lparr>gl_status := GS_cancelled, gl_updatedAt := updated\<rparr>"])
        (auto simp: e(1) w8 goals set_rows_def goal_matches_def)
    have rows: "d_goals (w_db w') = set_rows (\<lambda>g. gl_id g = i)
      (\<lambda>g. g\<lparr>gl_status := GS_cancelled, gl_updatedAt := updated\<rparr>) (d_goals (w_db w6))" by (simp add: e(1) w8)
    show "\<forall>g \<in> set (d_goals (w_db w')). gl_id g = i \<longrightarrow> gl_status g = GS_cancelled"
    proof (intro ballI impI)
      fix g assume g: "g \<in> set (d_goals (w_db w'))" and i: "gl_id g = i"
      from g obtain x where x: "g = (if gl_id x = i then x\<lparr>gl_status := GS_cancelled, gl_updatedAt := updated\<rparr> else x)"
        unfolding rows set_rows_def set_map by (rule imageE)
      show "gl_status g = GS_cancelled" using x i by (cases "gl_id x = i") simp_all
    qed
  qed
  obtain log where "d_events (w_db w6) = d_events (w_db w) @ log" using eff by (auto simp: same_processes_def grown_eq)
  then have "d_events (w_db w') = d_events (w_db w) @ log @ [e]" by (simp add: e(1) w8)
  moreover have "ev_type e = ''goal.cancelled''" "ev_goalId e = Some i"
    using e(2) row(2) by (simp_all add: event_for_def goal_event_def event_of_def goal_matches_def)
  ultimately show ?thesis using processes_stopped_same [OF w3(2) same] ended cancelled by blast
qed

lemma getGoal_run: "getGoal ctx i w = (Inr (map_option mapGoal (find (goal_matches ctx i) (d_goals (w_db w)))), w)"
  by (simp add: getGoal_def bind_sel first_filter run_basic)

text \<open>
  Property C18. A goal that was cancelled has stopped. Whatever the stop requests to the nodes do,
  when the cancellation of a goal that the fence did not find cancelled already returns, then in the
  database every run of the goal's tasks is over, a run that failed by a disconnect has a confirmed
  exit, no lease of its tasks is held, every task of the goal is terminal, the goal is cancelled and
  returned as such, and the last event logged is its cancellation.
\<close>

theorem goal_cancel_safe:
  assumes run: "cancelGoalExecution ctx i stopRun w = (Inr (Some g), w')"
    and fresh: "\<forall>row \<in> set (d_goals (w_db w)). goal_matches ctx i row \<longrightarrow> gl_status row \<noteq> GS_cancelled"
  shows "processes_stopped ctx i (w_db w') \<and> tasks_ended ctx i (w_db w') \<and> goal_row_cancelled ctx i (w_db w')
    \<and> goa_status g = GS_cancelled \<and> goa_id g = i
    \<and> ev_type (last (d_events (w_db w'))) = ''goal.cancelled'' \<and> ev_goalId (last (d_events (w_db w'))) = Some i"
proof -
  define now where "now = cx_now ctx (w_clock w)"
  define v where "v = w\<lparr>w_clock := w_clock w + 1\<rparr>"
  from run obtain fenced w1 where fence: "transaction (fence_goal ctx i now) v = (Inr fenced, w1)"
    and rest: "(case fenced of
       None \<Rightarrow> ret None
     | Some row \<Rightarrow>
         if gl_status row = GS_cancelled then ret (Some (mapGoal row))
         else
           bind (goal_runs ctx i) (\<lambda>childRuns.
           bind (goal_held ctx i) (\<lambda>leases.
           bind (unsettledGoalRunIds ctx i) (\<lambda>unsettled.
           let uncertain = set_list (map (\<lambda>p. fl_runId (fst p)) leases @ map Some unsettled) in
           bind (for_each childRuns (stop_child stopRun uncertain)) (\<lambda>_.
           bind (transaction (finish_cancel ctx i now)) (\<lambda>_.
           getGoal ctx i)))))) w1 = (Inr (Some g), w')"
    unfolding cancelGoalExecution_def bind_nowIso now_def v_def by (elim bind_InrE)
  obtain row where row: "fenced = Some row" using rest by (cases fenced) (simp_all add: run_basic)
  have "gl_status row \<noteq> GS_cancelled"
  proof -
    have "row \<in> set (d_goals (w_db w)) \<and> goal_matches ctx i row"
      using fence unfolding transaction_ok fence_goal_def bind_sel first_filter row
      by (auto simp: v_def bind_Inr run_basic split: option.splits if_splits dest: find_Some_D)
    then show ?thesis using fresh by blast
  qed
  then obtain w2 u w3 where fin: "transaction (finish_cancel ctx i now) w2 = (Inr u, w3)"
    and get: "getGoal ctx i w3 = (Inr (Some g), w')"
    using rest unfolding row option.case Let_def by (auto elim!: bind_InrE)
  have w3: "w3 = w'" using get by (simp add: getGoal_run)
  from finish_cancel_effect [OF fin [unfolded transaction_ok]]
  have eff: "processes_stopped ctx i (w_db w')" "tasks_ended ctx i (w_db w')" "goal_row_cancelled ctx i (w_db w')"
    and "\<exists>log e. d_events (w_db w') = d_events (w_db w2) @ log @ [e] \<and> ev_type e = ''goal.cancelled'' \<and> ev_goalId e = Some i"
    unfolding w3 by simp_all
  then have log: "ev_type (last (d_events (w_db w'))) = ''goal.cancelled'' \<and> ev_goalId (last (d_events (w_db w'))) = Some i"
    by auto
  obtain found where found: "find (goal_matches ctx i) (d_goals (w_db w')) = Some found" "g = mapGoal found"
    using get unfolding w3 by (auto simp: getGoal_run)
  then have "gl_status found = GS_cancelled" "gl_id found = i"
    using find_Some_D [OF found(1)] eff(3) by (auto simp: goal_row_cancelled_def goal_matches_def)
  then show ?thesis using eff log found(2) by (simp add: mapGoal_def)
qed

lemma demo_cancel_returns: "case fst (cancelGoalExecution demo_ctx ''g1'' None demo_goal_world) of
    Inr (Some g) \<Rightarrow> True | _ \<Rightarrow> False"
  by code_simp

lemma goal_cancel_safe_witness:
  "tasks_ended demo_ctx ''g1'' (w_db (snd (cancelGoalExecution demo_ctx ''g1'' None demo_goal_world)))"
proof -
  obtain g where run: "cancelGoalExecution demo_ctx ''g1'' None demo_goal_world
      = (Inr (Some g), snd (cancelGoalExecution demo_ctx ''g1'' None demo_goal_world))"
    using demo_cancel_returns
    by (cases "cancelGoalExecution demo_ctx ''g1'' None demo_goal_world") (auto split: sum.splits option.splits)
  have goals: "d_goals (w_db demo_goal_world) = [demo_goal ''g1'' GS_running]" by (simp add: demo_goal_world_def)
  from goal_cancel_safe [OF run] show ?thesis by (simp add: goals demo_goal_def)
qed

end
