(* ===== verification/Execution_Policy.thy ===== *)
theory Execution_Policy
  imports Approval_Service
begin

text \<open>
  \<open>apps/server/src/services/task-execution-policy.ts\<close>: a follow-up task is executed under the
  policy of another task. The chain of these links is followed to its end, at most 32 links far, and
  every link must stay in the organization, the project and the goal.
\<close>

section \<open>The policy task\<close>

text \<open>
  The loop only reads, so it is a function of the tasks. \<open>visited\<close> is the set of the ids seen; a
  link adds one, so the loop ends.
\<close>

definition policy_parent :: "server_context \<Rightarrow> task_row list \<Rightarrow> ident \<Rightarrow> task_row option" where
  "policy_parent ctx rows i = first (filter (\<lambda>t. tk_id t = i \<and> tk_organizationId t = cx_organizationId ctx) rows)"

definition same_scope :: "task_row \<Rightarrow> task_row \<Rightarrow> bool" where
  "same_scope task t \<longleftrightarrow> tk_projectId t = tk_projectId task \<and> tk_goalId t = tk_goalId task"

function resolve_policy ::
  "server_context \<Rightarrow> task_row list \<Rightarrow> task_row \<Rightarrow> ident list \<Rightarrow> task_row \<Rightarrow> server_error + task_row" where
  "resolve_policy ctx rows task visited current =
     (case tk_executionPolicyTaskId current of
        None \<Rightarrow> Inr current
      | Some link \<Rightarrow>
          if List.member visited (tk_id current) \<or> 32 \<le> length visited
          then Inl (validation ''Cyclic task execution policy'' [])
          else
            (case policy_parent ctx rows link of
               None \<Rightarrow> Inl (validation ''Task execution policy must belong to the same project and goal'' [])
             | Some parent \<Rightarrow>
                 if \<not> same_scope task parent
                 then Inl (validation ''Task execution policy must belong to the same project and goal'' [])
                 else resolve_policy ctx rows task (tk_id current # visited) parent))"
  by pat_completeness auto
termination
  by (relation "measure (\<lambda>(ctx, rows, task, visited, current). 32 - length visited)") auto

declare resolve_policy.simps [simp del]

definition resolveExecutionPolicyTask :: "server_context \<Rightarrow> task_row \<Rightarrow> task_row srv" where
  "resolveExecutionPolicyTask ctx task =
     bind (gets (\<lambda>w. d_tasks (w_db w))) (\<lambda>rows. lift_sum id (resolve_policy ctx rows task [] task))"

section \<open>What a follow-up inherits\<close>

definition executionPolicySources :: "server_context \<Rightarrow> task_row \<Rightarrow> task_row \<Rightarrow> ident list srv" where
  "executionPolicySources ctx task policyTask =
     (let unverified = validation (''Cannot verify the follow-up task'' @ [CHR 0x27] @ ''s execution policy source'') [] in
      bind (case (tk_executionPolicyTaskId task, tk_parentTaskId task) of
              (Some link, Some parentId) \<Rightarrow>
                if link = [] \<or> parentId = [] then ret [tk_id task]
                else
                  bind (sel d_tasks (\<lambda>t. tk_id t = parentId \<and> tk_organizationId t = cx_organizationId ctx)) (\<lambda>found.
                  case first found of
                    None \<Rightarrow> throw unverified
                  | Some parent \<Rightarrow>
                      bind (guard (same_scope task parent) unverified) (\<lambda>_.
                      bind (resolveExecutionPolicyTask ctx parent) (\<lambda>parentRoot.
                      bind (guard (tk_id parentRoot = tk_id policyTask) unverified) (\<lambda>_.
                      ret [tk_id task, tk_id parent]))))
            | _ \<Rightarrow> ret [tk_id task]) (\<lambda>ids.
      ret (set_list (ids @ [tk_id policyTask]))))"

definition assertInheritedApprovalRequired :: "server_context \<Rightarrow> task_row \<Rightarrow> task_row \<Rightarrow> unit srv" where
  "assertInheritedApprovalRequired ctx task policyTask =
     (if tk_id policyTask = tk_id task then skip
      else
        bind (executionPolicySources ctx task policyTask) (\<lambda>all.
        let sources = filter (\<lambda>i. i \<noteq> tk_id task) all in
        bind (sel d_approvals (\<lambda>a. List.member sources (ap_taskId a) \<and> ap_organizationId a = cx_organizationId ctx
                \<and> ap_action a = ''execution.start'')) (\<lambda>inherited.
        if length inherited = 0 then skip
        else
          bind (sel d_approvals (\<lambda>a. ap_taskId a = tk_id task \<and> ap_organizationId a = cx_organizationId ctx
                  \<and> ap_action a = ''execution.start'')) (\<lambda>own.
          guard (own \<noteq> []) (conflict_error ''Execution approval is required for this follow-up task'' [])))))"

lemma reads_resolve [reads_rules]: "reads (resolveExecutionPolicyTask ctx task)"
  unfolding resolveExecutionPolicyTask_def by (intro reads_rules) (simp add: reads_def lift_sum_def run_basic split: sum.split)

section \<open>The loop ends at the end of the chain\<close>

text \<open>A chain of links, each to a task of the organization in the scope of the first.\<close>

fun policy_chain :: "server_context \<Rightarrow> task_row list \<Rightarrow> task_row \<Rightarrow> nat \<Rightarrow> task_row \<Rightarrow> task_row \<Rightarrow> bool" where
  "policy_chain ctx rows task 0 current dest \<longleftrightarrow> dest = current"
| "policy_chain ctx rows task (Suc n) current dest \<longleftrightarrow>
     (\<exists>link parent. tk_executionPolicyTaskId current = Some link \<and> policy_parent ctx rows link = Some parent
        \<and> same_scope task parent \<and> policy_chain ctx rows task n parent dest)"

lemma policy_chain_det:
  "policy_chain ctx rows task m current r1 \<Longrightarrow> policy_chain ctx rows task n current r2
     \<Longrightarrow> tk_executionPolicyTaskId r1 = None \<Longrightarrow> tk_executionPolicyTaskId r2 = None \<Longrightarrow> m = n \<and> r1 = r2"
proof (induction m arbitrary: n current)
  case 0
  then show ?case by (cases n) auto
next
  case (Suc m)
  then show ?case by (cases n) auto
qed

lemma policy_chain_append:
  "policy_chain ctx rows task m a b \<Longrightarrow> policy_chain ctx rows task n b c \<Longrightarrow> policy_chain ctx rows task (m + n) a c"
  by (induction m arbitrary: a) auto

text \<open>What the search has found so far: the visited tasks lead to the current one.\<close>

definition search_ok :: "server_context \<Rightarrow> task_row list \<Rightarrow> task_row \<Rightarrow> ident list \<Rightarrow> task_row \<Rightarrow> bool" where
  "search_ok ctx rows task visited current \<longleftrightarrow>
     (\<forall>i \<in> set visited. \<exists>k > 0. \<exists>t. policy_parent ctx rows i = Some t \<and> policy_chain ctx rows task k t current)"

lemma resolve_sound:
  "resolve_policy ctx rows task visited current = Inr dest \<Longrightarrow> length visited \<le> 32 \<Longrightarrow>
     \<exists>n. n + length visited \<le> 32 \<and> policy_chain ctx rows task n current dest \<and> tk_executionPolicyTaskId dest = None"
proof (induction ctx rows task visited current rule: resolve_policy.induct)
  case (1 ctx rows task visited current)
  show ?case
  proof (cases "tk_executionPolicyTaskId current")
    case None
    then show ?thesis using 1(2,3) by (intro exI [of _ 0]) (simp add: resolve_policy.simps)
  next
    case (Some link)
    then obtain parent where parent: "\<not> (List.member visited (tk_id current) \<or> 32 \<le> length visited)"
        "policy_parent ctx rows link = Some parent" "same_scope task parent"
        "resolve_policy ctx rows task (tk_id current # visited) parent = Inr dest"
      using 1(2) by (auto simp: resolve_policy.simps [of ctx rows task visited current] split: if_splits option.splits)
    from 1(1) [OF Some parent(1,2)] parent obtain n where
      "n + length (tk_id current # visited) \<le> 32" "policy_chain ctx rows task n parent dest" "tk_executionPolicyTaskId dest = None"
      by auto
    then show ?thesis using Some parent by (intro exI [of _ "Suc n"]) auto
  qed
qed

text \<open>A chain to an end visits no task twice.\<close>

lemma chain_no_return:
  assumes "policy_chain ctx rows task k t current" "k > 0" "policy_chain ctx rows task n current dest"
    and "tk_executionPolicyTaskId dest = None" "t = current"
  shows False
proof -
  have "policy_chain ctx rows task (k + n) t dest" by (rule policy_chain_append [OF assms(1,3)])
  then show False using policy_chain_det [of ctx rows task "k + n" t dest n dest] assms by simp
qed

lemma resolve_complete:
  "policy_chain ctx rows task n current dest \<Longrightarrow> tk_executionPolicyTaskId dest = None \<Longrightarrow> n + length visited \<le> 32
     \<Longrightarrow> policy_parent ctx rows (tk_id current) = Some current \<Longrightarrow> search_ok ctx rows task visited current
     \<Longrightarrow> resolve_policy ctx rows task visited current = Inr dest"
proof (induction n arbitrary: current visited)
  case 0
  then show ?case by (simp add: resolve_policy.simps)
next
  case (Suc n)
  from Suc.prems(1) obtain link parent where link: "tk_executionPolicyTaskId current = Some link"
      "policy_parent ctx rows link = Some parent" "same_scope task parent" "policy_chain ctx rows task n parent dest"
    by auto
  have fresh: "tk_id current \<notin> set visited"
  proof
    assume "tk_id current \<in> set visited"
    then obtain k where "k > 0" "policy_chain ctx rows task k current current"
      using Suc.prems(4,5) by (auto simp: search_ok_def)
    then show False using chain_no_return [OF _ _ Suc.prems(1,2)] by blast
  qed
  have self: "policy_parent ctx rows (tk_id parent) = Some parent"
  proof -
    have "tk_id parent = link" using link(2) by (auto simp: policy_parent_def)
    then show ?thesis using link(2) by simp
  qed
  have one: "policy_chain ctx rows task 1 current parent" using link by auto
  have "search_ok ctx rows task (tk_id current # visited) parent"
    unfolding search_ok_def
  proof
    fix i assume "i \<in> set (tk_id current # visited)"
    then consider "i = tk_id current" | "i \<in> set visited" by auto
    then show "\<exists>k > 0. \<exists>t. policy_parent ctx rows i = Some t \<and> policy_chain ctx rows task k t parent"
    proof cases
      case 1
      then show ?thesis using one Suc.prems(4) by blast
    next
      case 2
      then obtain k t where "k > 0" "policy_parent ctx rows i = Some t" "policy_chain ctx rows task k t current"
        using Suc.prems(5) by (auto simp: search_ok_def)
      then show ?thesis using policy_chain_append [OF _ one] by (metis add_gr_0)
    qed
  qed
  then have "resolve_policy ctx rows task (tk_id current # visited) parent = Inr dest"
    using Suc.IH [OF link(4) Suc.prems(2) _ self] Suc.prems(3) by simp
  then show ?case using link fresh Suc.prems(3) by (simp add: resolve_policy.simps [of ctx rows task visited current])
qed

text \<open>
  Property C7. The search for the task whose policy governs an execution ends, after at most 32
  links, and is exact: for a stored task it returns a task exactly when a chain of at most 32 links
  leads to a task without a link, every link staying within the organization, the project and the
  goal; a cyclic, longer, dangling or straying chain is refused, and the search writes nothing.
\<close>

theorem policy_resolution_exact:
  assumes "policy_parent ctx (d_tasks (w_db w)) (tk_id task) = Some task"
  shows "snd (resolveExecutionPolicyTask ctx task w) = w
    \<and> (fst (resolveExecutionPolicyTask ctx task w) = Inr dest \<longleftrightarrow>
        (\<exists>n \<le> 32. policy_chain ctx (d_tasks (w_db w)) task n task dest) \<and> tk_executionPolicyTaskId dest = None)
    \<and> (\<forall>e. fst (resolveExecutionPolicyTask ctx task w) = Inl e \<longrightarrow> (\<exists>m. e = validation m []))"
proof -
  let ?rows = "d_tasks (w_db w)"
  have run: "resolveExecutionPolicyTask ctx task w =
      (case resolve_policy ctx ?rows task [] task of Inl e \<Rightarrow> (Inl e, w) | Inr r \<Rightarrow> (Inr r, w))"
    by (simp add: resolveExecutionPolicyTask_def bind_def gets_def lift_sum_def run_basic split: sum.split)
  have exact: "resolve_policy ctx ?rows task [] task = Inr dest \<longleftrightarrow>
      (\<exists>n \<le> 32. policy_chain ctx ?rows task n task dest) \<and> tk_executionPolicyTaskId dest = None"
    using resolve_sound [of ctx ?rows task "[]" task dest] resolve_complete [of ctx ?rows task _ task dest "[]"] assms
    by (auto simp: search_ok_def)
  have errors: "resolve_policy ctx rows t visited current = Inl e \<Longrightarrow> \<exists>m. e = validation m []" for rows t visited current e
    by (induction ctx rows t visited current rule: resolve_policy.induct)
       (subst (asm) (2) resolve_policy.simps, auto split: option.splits if_splits)
  show ?thesis
    using exact errors [of ?rows task "[]" task] unfolding run by (auto split: sum.splits)
qed

definition demo_policy_world :: world where
  "demo_policy_world = demo_world\<lparr>w_db := empty_db\<lparr>d_tasks :=
     [demo_task ''t1'' TS_done, (demo_task ''t2'' TS_ready)\<lparr>tk_executionPolicyTaskId := Some ''t1''\<rparr>,
      (demo_task ''t3'' TS_ready)\<lparr>tk_executionPolicyTaskId := Some ''t2''\<rparr>]\<rparr>\<rparr>"

lemma policy_resolution_exact_witness:
  "fst (resolveExecutionPolicyTask demo_ctx ((demo_task ''t3'' TS_ready)\<lparr>tk_executionPolicyTaskId := Some ''t2''\<rparr>) demo_policy_world)
     = Inr (demo_task ''t1'' TS_done)"
proof -
  let ?t2 = "(demo_task ''t2'' TS_ready)\<lparr>tk_executionPolicyTaskId := Some ''t1''\<rparr>"
  let ?t3 = "(demo_task ''t3'' TS_ready)\<lparr>tk_executionPolicyTaskId := Some ''t2''\<rparr>"
  have found: "policy_parent demo_ctx (d_tasks (w_db demo_policy_world)) (tk_id ?t3) = Some ?t3"
    "policy_parent demo_ctx (d_tasks (w_db demo_policy_world)) ''t2'' = Some ?t2"
    "policy_parent demo_ctx (d_tasks (w_db demo_policy_world)) ''t1'' = Some (demo_task ''t1'' TS_done)"
    by (simp_all add: policy_parent_def demo_policy_world_def demo_task_def demo_ctx_def)
  have "policy_chain demo_ctx (d_tasks (w_db demo_policy_world)) ?t3 2 ?t3 (demo_task ''t1'' TS_done)"
    using found by (simp add: numeral_2_eq_2 same_scope_def demo_task_def)
  then have "\<exists>n \<le> 32. policy_chain demo_ctx (d_tasks (w_db demo_policy_world)) ?t3 n ?t3 (demo_task ''t1'' TS_done)"
    by (intro exI [of _ 2]) simp
  then show ?thesis using policy_resolution_exact [OF found(1), of "demo_task ''t1'' TS_done"] by (simp add: demo_task_def)
qed

end
