(* ===== verification/Js_Number.thy ===== *)
theory Js_Number
  imports Prelude
begin

text \<open>
  Numbers as text: \<open>String(n)\<close> of a natural number, and \<open>Number(s)\<close> followed by
  \<open>Number.isInteger\<close>, by the grammar of numeric strings of ECMAScript. A literal is read exactly;
  JavaScript rounds one of more than 15 significant digits to a double, which no index of a list
  has.
\<close>

section \<open>Printing\<close>

definition digit_char :: "nat \<Rightarrow> char" where
  "digit_char d = char_of (48 + d)"

fun String_of :: "nat \<Rightarrow> string" where
  "String_of n = (if n < 10 then [digit_char n] else String_of (n div 10) @ [digit_char (n mod 10)])"

declare String_of.simps [simp del]

section \<open>Reading\<close>

text \<open>The value of a digit or letter as a digit of a base up to 36.\<close>

definition digit_value :: "char \<Rightarrow> nat option" where
  "digit_value c =
     (let n = (of_char c :: nat) in
      if 48 \<le> n \<and> n \<le> 57 then Some (n - 48)
      else if 65 \<le> n \<and> n \<le> 90 then Some (n - 55)
      else if 97 \<le> n \<and> n \<le> 122 then Some (n - 87)
      else None)"

definition is_digit :: "char \<Rightarrow> bool" where
  "is_digit c = (let n = (of_char c :: nat) in 48 \<le> n \<and> n \<le> 57)"

fun digits_from :: "nat \<Rightarrow> nat \<Rightarrow> string \<Rightarrow> nat option" where
  "digits_from base acc [] = Some acc"
| "digits_from base acc (c # cs) =
     (case digit_value c of
        None \<Rightarrow> None
      | Some d \<Rightarrow> if d < base then digits_from base (acc * base + d) cs else None)"

definition digits_in :: "nat \<Rightarrow> string \<Rightarrow> nat option" where
  "digits_in base s = (if s = [] then None else digits_from base 0 s)"

fun signed :: "(string \<Rightarrow> int option) \<Rightarrow> string \<Rightarrow> int option" where
  "signed f (c # cs) =
     (if c = CHR ''+'' then f cs else if c = CHR ''-'' then map_option uminus (f cs) else f (c # cs))"
| "signed f [] = f []"

text \<open>The mantissa \<open>m\<close> times ten to the \<open>e\<close>, when that is an integer.\<close>

definition scaled :: "nat \<Rightarrow> int \<Rightarrow> int option" where
  "scaled m e =
     (if 0 \<le> e then Some (int (m * 10 ^ nat e))
      else if m mod 10 ^ nat (- e) = 0 then Some (int (m div 10 ^ nat (- e))) else None)"

text \<open>Digits, an optional fraction, an optional exponent; \<open>Infinity\<close> is no integer.\<close>

definition decimal_literal :: "string \<Rightarrow> int option" where
  "decimal_literal s =
     (let whole = takeWhile is_digit s;
          rest = dropWhile is_digit s;
          (fraction, tail) = (case rest of
             [] \<Rightarrow> ([], [])
           | c # cs \<Rightarrow> if c = CHR ''.'' then (takeWhile is_digit cs, dropWhile is_digit cs) else ([], rest));
          exponent = (case tail of
             [] \<Rightarrow> Some 0
           | c # cs \<Rightarrow> if c = CHR ''e'' \<or> c = CHR ''E'' then signed (map_option int \<circ> digits_in 10) cs else None)
      in if whole = [] \<and> fraction = [] then None
         else (case (digits_in 10 (whole @ fraction), exponent) of
                 (Some m, Some e) \<Rightarrow> scaled m (e - int (length fraction))
               | _ \<Rightarrow> None))"

text \<open>The base a prefix \<open>0x\<close>, \<open>0o\<close> or \<open>0b\<close> stands for.\<close>

definition prefix_base :: "char \<Rightarrow> nat option" where
  "prefix_base c =
     (if c = CHR ''x'' \<or> c = CHR ''X'' then Some 16
      else if c = CHR ''o'' \<or> c = CHR ''O'' then Some 8
      else if c = CHR ''b'' \<or> c = CHR ''B'' then Some 2 else None)"

text \<open>\<open>Number(s)\<close> when it is an integer, the empty and the blank string being 0.\<close>

definition integer_of :: "string \<Rightarrow> int option" where
  "integer_of s =
     (let t = trim s in
      if t = [] then Some 0
      else if 2 \<le> length t \<and> t ! 0 = CHR ''0'' \<and> prefix_base (t ! 1) \<noteq> None
      then map_option int (digits_in (the (prefix_base (t ! 1))) (drop 2 t))
      else signed decimal_literal t)"

section \<open>Round trip\<close>

lemma digit_char_facts:
  assumes "d < 10"
  shows "digit_value (digit_char d) = Some d" "is_digit (digit_char d)" "\<not> is_ws (digit_char d)"
    "prefix_base (digit_char d) = None" "digit_char d \<noteq> CHR ''+''" "digit_char d \<noteq> CHR ''-''"
proof -
  have code: "(of_char (digit_char d) :: nat) = 48 + d"
    using assms by (simp add: digit_char_def of_char_of)
  then show "digit_value (digit_char d) = Some d" "is_digit (digit_char d)" "\<not> is_ws (digit_char d)"
    using assms by (simp_all add: digit_value_def is_digit_def is_ws_def Let_def)
  have "digit_char d \<noteq> c" if "(of_char c :: nat) < 48 \<or> 57 < (of_char c :: nat)" for c
    using code assms that by auto
  then show "prefix_base (digit_char d) = None" "digit_char d \<noteq> CHR ''+''" "digit_char d \<noteq> CHR ''-''"
    by (simp_all add: prefix_base_def)
qed

lemma digits_from_append:
  "digits_from b acc (xs @ ys) = (case digits_from b acc xs of None \<Rightarrow> None | Some a \<Rightarrow> digits_from b a ys)"
  by (induction xs arbitrary: acc) (auto split: option.split)

lemma String_of_facts: "String_of n \<noteq> [] \<and> list_all (\<lambda>c. \<exists>d < 10. c = digit_char d) (String_of n)
    \<and> digits_from 10 0 (String_of n) = Some n"
proof (induction n rule: String_of.induct)
  case (1 n)
  show ?case
  proof (cases "n < 10")
    case True
    then show ?thesis using digit_char_facts(1) [of n] by (auto simp: String_of.simps [of n])
  next
    case False
    have d: "n mod 10 < 10" by simp
    have "digits_from 10 0 (String_of n) = Some (n div 10 * 10 + n mod 10)"
      using 1 False digit_char_facts(1) [OF d] by (simp add: String_of.simps [of n] digits_from_append)
    moreover have "list_all (\<lambda>c. \<exists>d < 10. c = digit_char d) (String_of n)"
      using 1 False d unfolding String_of.simps [of n] by (auto intro: exI [of _ "n mod 10"])
    ultimately show ?thesis by (simp add: String_of.simps [of n])
  qed
qed

lemma digits_all: "list_all (\<lambda>c. \<exists>d < 10. c = digit_char d) s \<Longrightarrow> list_all is_digit s \<and> list_all (\<lambda>c. \<not> is_ws c) s"
  using digit_char_facts by (auto simp: list_all_iff)

theorem integer_of_String_of [simp]: "integer_of (String_of n) = Some (int n)"
proof -
  define s where "s = String_of n"
  have s: "s \<noteq> []" "list_all (\<lambda>c. \<exists>d < 10. c = digit_char d) s" "digits_from 10 0 s = Some n"
    using String_of_facts [of n] by (simp_all add: s_def)
  note all = digits_all [OF s(2)]
  have "dropWhile is_ws s = s" using all by (cases s) simp_all
  moreover have "dropWhile is_ws (rev s) = rev s" using all s(1) by (cases "rev s") (auto simp: list_all_iff dest: arg_cong [where f = set])
  ultimately have trim: "trim s = s" by (simp add: trim_def)
  have take: "takeWhile is_digit s = s" "dropWhile is_digit s = []" using all by (simp_all add: list_all_iff)
  have head: "\<exists>d cs. s = digit_char d # cs \<and> d < 10" using s(1,2) by (cases s) auto
  have no_prefix: "(2 \<le> length s \<and> s ! 0 = CHR ''0'' \<and> prefix_base (s ! 1) \<noteq> None) = False"
  proof (rule iffI)
    assume "2 \<le> length s \<and> s ! 0 = CHR ''0'' \<and> prefix_base (s ! 1) \<noteq> None"
    then have "s ! 1 \<in> set s" "prefix_base (s ! 1) \<noteq> None" by simp_all
    then show False using s(2) digit_char_facts(4) by (auto simp: list_all_iff)
  qed simp
  have "signed decimal_literal s = decimal_literal s"
    using head digit_char_facts(5,6) by auto
  also have "\<dots> = Some (int n)"
    using s by (simp add: decimal_literal_def take digits_in_def scaled_def)
  finally show ?thesis
    unfolding s_def [symmetric] integer_of_def trim Let_def no_prefix using s(1) by simp
qed

lemma String_of_inj: "String_of m = String_of n \<Longrightarrow> m = n"
  by (metis integer_of_String_of of_nat_eq_iff option.inject)


lemma integer_of_examples:
  "integer_of [] = Some 0" "integer_of ''2'' = Some 2" "integer_of ''0x10'' = Some 16" "integer_of '' 1e2 '' = Some 100"
  "integer_of ''1.50'' = None" "integer_of ''-0'' = Some 0" "integer_of ''one'' = None" "integer_of ''+3.'' = Some 3"
  by code_simp+

end
