(* ===== verification/Plan_Service.thy ===== *)
theory Plan_Service
  imports Budget_Service Dag_Service Lifecycle_Order Js_Number
begin

text \<open>
  \<open>apps/server/src/services/plan-service.ts\<close> and \<open>plan-policy.ts\<close>: the versions of a goal's plan,
  their acceptance, and the tasks and dependencies an accepted plan becomes. Acceptance and
  materialization are one transaction.
\<close>

section \<open>Records\<close>

record plan =
  pln_id :: ident
  pln_organization_id :: ident
  pln_goal_id :: ident
  pln_version :: int
  pln_author_type :: actor_type
  pln_author_id :: ident
  pln_rationale :: string
  pln_status :: plan_status
  pln_task_specs :: "task_spec list"
  pln_materialized_at :: "iso_time option"
  pln_materialization_event_id :: "ident option"
  pln_created_at :: iso_time
  pln_accepted_at :: "iso_time option"

text \<open>The stored row has passed the schema when it was written.\<close>

definition mapPlan :: "plan_row \<Rightarrow> plan" where
  "mapPlan r = \<lparr>pln_id = pl_id r, pln_organization_id = pl_organizationId r, pln_goal_id = pl_goalId r,
     pln_version = pl_version r, pln_author_type = pl_authorType r, pln_author_id = pl_authorId r,
     pln_rationale = pl_rationale r, pln_status = pl_status r, pln_task_specs = pl_taskSpecs r,
     pln_materialized_at = pl_materializedAt r, pln_materialization_event_id = pl_materializationEventId r,
     pln_created_at = pl_createdAt r, pln_accepted_at = pl_acceptedAt r\<rparr>"

record spec_input =
  si_title :: string
  si_description :: "string option"
  si_acceptance_criteria :: "string list"
  si_required_capabilities :: "string list option"
  si_dependencies :: "(string \<times> string) list option"
  si_approval_gates :: "string list option"
  si_write_scopes :: "string list option"
  si_expected_artifacts :: "(string \<times> string option) list option"

record propose_plan_input =
  pi_rationale :: "string option"
  pi_task_specs :: "spec_input list"
  pi_author_type :: "actor_type option"
  pi_author_id :: "ident option"

fun plan_status_text :: "plan_status \<Rightarrow> string" where
  "plan_status_text PS_proposed = ''proposed''"
| "plan_status_text PS_accepted = ''accepted''"
| "plan_status_text PS_rejected = ''rejected''"
| "plan_status_text PS_superseded = ''superseded''"

text \<open>\<open>x ?? d\<close>.\<close>

definition otherwise :: "'a option \<Rightarrow> 'a \<Rightarrow> 'a" where
  "otherwise v d = (case v of None \<Rightarrow> d | Some x \<Rightarrow> x)"

section \<open>Task specs\<close>

definition dependency_type_of_text :: "string \<Rightarrow> dependency_type option" where
  "dependency_type_of_text s =
     find (\<lambda>t. dependency_type_text t = s)
       [DT_blocks, DT_artifact_required, DT_contract_required, DT_review_required, DT_soft_context]"

text \<open>\<open>TaskSpecSchema.parse\<close> of an input: the defaults, or the schema's error.\<close>

definition zod_error :: server_error where
  "zod_error = Plain_error ''ZodError''"

definition parse_dependency :: "string \<times> string \<Rightarrow> server_error + spec_dependency" where
  "parse_dependency d =
     (case dependency_type_of_text (snd d) of
        None \<Rightarrow> Inl zod_error
      | Some t \<Rightarrow> Inr \<lparr>sd_ref = fst d, sd_type = t\<rparr>)"

fun map_sum :: "('a \<Rightarrow> 'e + 'b) \<Rightarrow> 'a list \<Rightarrow> 'e + 'b list" where
  "map_sum f [] = Inr []"
| "map_sum f (x # xs) =
     (case f x of Inl e \<Rightarrow> Inl e
      | Inr y \<Rightarrow> (case map_sum f xs of Inl e \<Rightarrow> Inl e | Inr ys \<Rightarrow> Inr (y # ys)))"

definition reparse_spec :: "task_spec \<Rightarrow> server_error + task_spec" where
  "reparse_spec s = (if valid_task_spec s then Inr s else Inl zod_error)"

definition parse_spec :: "spec_input \<Rightarrow> server_error + task_spec" where
  "parse_spec i =
     (case map_sum parse_dependency (otherwise (si_dependencies i) []) of
        Inl e \<Rightarrow> Inl e
      | Inr deps \<Rightarrow> reparse_spec
          \<lparr>ts_title = si_title i, ts_description = otherwise (si_description i) [],
           ts_acceptance_criteria = si_acceptance_criteria i,
           ts_required_capabilities = otherwise (si_required_capabilities i) [], ts_dependencies = deps,
           ts_approval_gates = otherwise (si_approval_gates i) [], ts_write_scopes = otherwise (si_write_scopes i) [],
           ts_expected_artifacts = map (\<lambda>(t, d). \<lparr>ea_type = t, ea_description = otherwise d []\<rparr>)
             (otherwise (si_expected_artifacts i) [])\<rparr>)"

definition assertSupportedPlanTaskControls :: "task_spec \<Rightarrow> nat \<Rightarrow> server_error + unit" where
  "assertSupportedPlanTaskControls spec specIndex =
     (if 0 < length (ts_approval_gates spec)
      then Inl (validation ''Plan task approval_gates are not supported in this preview; request execution approval on the task before assignment''
        [(''field'', JStr (''task_specs['' @ String_of specIndex @ ''].approval_gates'')), (''spec_index'', JNum (int specIndex))])
      else if 0 < length (ts_write_scopes spec)
      then Inl (validation ''Plan task write_scopes are not enforced in this preview; configure local workspace roots and runtime permissions instead''
        [(''field'', JStr (''task_specs['' @ String_of specIndex @ ''].write_scopes'')), (''spec_index'', JNum (int specIndex))])
      else Inr ())"

definition assert_controls :: "task_spec list \<Rightarrow> server_error + unit list" where
  "assert_controls specs = map_sum (\<lambda>(i, s). assertSupportedPlanTaskControls s i) (enumerate 0 specs)"

section \<open>Edges\<close>

text \<open>
  The two nested loops of \<open>buildEdges\<close> visit the dependencies in this order; \<open>edges\<close> and \<open>out\<close>
  have the same entries.
\<close>

definition spec_deps :: "task_spec list \<Rightarrow> (nat \<times> spec_dependency) list" where
  "spec_deps specs = concat (map (\<lambda>(i, s). map (Pair i) (ts_dependencies s)) (enumerate 0 specs))"

definition spec_edge ::
  "nat \<Rightarrow> (nat \<Rightarrow> ident) \<Rightarrow> dag_edge list \<Rightarrow> nat \<times> spec_dependency \<Rightarrow> server_error + dag_edge" where
  "spec_edge n idForIndex edges p =
     (case p of (i, dep) \<Rightarrow>
       let unknown = validation (''task spec '' @ String_of i @ '' has an unknown dependency ref '' @ quoted (sd_ref dep))
             [(''spec_index'', JNum (int i)), (''ref'', JStr (sd_ref dep))] in
       case integer_of (sd_ref dep) of
         None \<Rightarrow> Inl unknown
       | Some refIdx \<Rightarrow>
           if refIdx < 0 \<or> int n \<le> refIdx then Inl unknown
           else if refIdx = int i
           then Inl (validation (''task spec '' @ String_of i @ '' cannot depend on itself'') [(''spec_index'', JNum (int i))])
           else
             let fromId = idForIndex (nat refIdx); toId = idForIndex i in
             if wouldCreateCycle edges fromId toId
             then Inl (conflict_error ''plan dependencies would create a cycle''
                    [(''spec_index'', JNum (int i)), (''ref'', JStr (sd_ref dep))])
             else Inr \<lparr>from_task_id = fromId, to_task_id = toId, edge_type = sd_type dep\<rparr>)"

fun add_edges ::
  "nat \<Rightarrow> (nat \<Rightarrow> ident) \<Rightarrow> dag_edge list \<Rightarrow> (nat \<times> spec_dependency) list \<Rightarrow> server_error + dag_edge list" where
  "add_edges n idForIndex edges [] = Inr edges"
| "add_edges n idForIndex edges (p # ps) =
     (case spec_edge n idForIndex edges p of
        Inl e \<Rightarrow> Inl e
      | Inr edge \<Rightarrow> add_edges n idForIndex (edges @ [edge]) ps)"

definition buildEdges :: "task_spec list \<Rightarrow> (nat \<Rightarrow> ident) \<Rightarrow> server_error + dag_edge list" where
  "buildEdges specs idForIndex = add_edges (length specs) idForIndex [] (spec_deps specs)"

definition validatePlanTaskSpecs :: "spec_input list \<Rightarrow> server_error + task_spec list" where
  "validatePlanTaskSpecs inputs =
     (case map_sum parse_spec inputs of
        Inl e \<Rightarrow> Inl e
      | Inr specs \<Rightarrow>
          (case assert_controls specs of
             Inl e \<Rightarrow> Inl e
           | Inr _ \<Rightarrow>
               if length specs = 0 then Inl (validation ''a plan must contain at least one task spec'' [])
               else (case buildEdges specs String_of of Inl e \<Rightarrow> Inl e | Inr _ \<Rightarrow> Inr specs)))"

section \<open>Proposals\<close>

definition requireGoalInOrg :: "server_context \<Rightarrow> ident \<Rightarrow> goal_row srv" where
  "requireGoalInOrg ctx goalId =
     bind (sel d_goals (goal_matches ctx goalId)) (\<lambda>rows.
     case first rows of
       None \<Rightarrow> throw (notFound (''goal not found: '' @ goalId) [(''goal_id'', JStr goalId)])
     | Some goal \<Rightarrow> ret goal)"

definition plan_matches :: "server_context \<Rightarrow> ident \<Rightarrow> plan_row \<Rightarrow> bool" where
  "plan_matches ctx i p \<longleftrightarrow> pl_id p = i \<and> pl_organizationId p = cx_organizationId ctx"

text \<open>\<open>(await tx.select().from(plans).where(eq(plans.id, id)))[0]!\<close>, mapped.\<close>

definition stored_plan :: "ident \<Rightarrow> plan srv" where
  "stored_plan planId =
     bind (sel d_plans (\<lambda>p. pl_id p = planId)) (\<lambda>rows.
     case first rows of
       None \<Rightarrow> throw (Plain_error ''undefined plan row'')
     | Some row \<Rightarrow> ret (mapPlan row))"

definition proposePlanInTx :: "server_context \<Rightarrow> ident \<Rightarrow> propose_plan_input \<Rightarrow> plan srv" where
  "proposePlanInTx ctx goalId input =
     bind (lift_sum id (validatePlanTaskSpecs (pi_task_specs input))) (\<lambda>specs.
     bind (nowIso ctx) (\<lambda>now.
     bind (generate ctx IP_plan) (\<lambda>planId.
     bind (requireGoalInOrg ctx goalId) (\<lambda>goal.
     bind (sel d_plans (\<lambda>p. pl_organizationId p = cx_organizationId ctx \<and> pl_goalId p = goalId)) (\<lambda>existing.
     let hasAccepted = list_ex (\<lambda>p. pl_status p = PS_accepted) existing in
     bind (guard (canProposePlan (gl_status goal) hasAccepted)
            (invalidState (''cannot propose a plan while goal is '' @ quoted (goal_status_text (gl_status goal))
                 @ (if hasAccepted then '' (re-plan requires pause/block first)'' else []))
               [(''goal_status'', JStr (goal_status_text (gl_status goal))), (''has_accepted_plan'', JBool hasAccepted)])) (\<lambda>_.
     let nextVersion = foldl (\<lambda>m p. max m (pl_version p)) 0 existing + 1 in
     bind (insert_plan ctx \<lparr>pl_id = planId, pl_organizationId = cx_organizationId ctx, pl_goalId = goalId,
             pl_version = nextVersion, pl_authorType = otherwise (pi_author_type input) Act_user,
             pl_authorId = otherwise (pi_author_id input) (cx_actorUserId ctx),
             pl_rationale = otherwise (pi_rationale input) [], pl_status = PS_proposed, pl_taskSpecs = specs,
             pl_materializedAt = None, pl_materializationEventId = None, pl_createdAt = now, pl_acceptedAt = None\<rparr>) (\<lambda>_.
     bind (emit ctx ((event_of ''goal.plan_proposed'' Act_user (cx_actorUserId ctx) goalId)\<lparr>
             es_projectId := Some (gl_projectId goal), es_roomId := gl_roomId goal, es_goalId := Some goalId,
             es_payload := [(''goal_id'', JStr goalId), (''plan_id'', JStr planId), (''version'', JNum nextVersion)]\<rparr>)) (\<lambda>_.
     stored_plan planId))))))))"

definition proposePlan :: "server_context \<Rightarrow> ident \<Rightarrow> propose_plan_input \<Rightarrow> plan srv" where
  "proposePlan ctx goalId input = transaction (proposePlanInTx ctx goalId input)"

definition getPlan :: "server_context \<Rightarrow> ident \<Rightarrow> plan option srv" where
  "getPlan ctx i = bind (sel d_plans (plan_matches ctx i)) (\<lambda>rows. ret (map_option mapPlan (first rows)))"

definition listPlans :: "server_context \<Rightarrow> ident \<Rightarrow> plan list srv" where
  "listPlans ctx goalId =
     transaction (
       bind (requireGoalInOrg ctx goalId) (\<lambda>_.
       bind (sel d_plans (\<lambda>p. pl_organizationId p = cx_organizationId ctx \<and> pl_goalId p = goalId)) (\<lambda>rows.
       ret (map mapPlan (order_desc pl_version rows)))))"

definition reject_row :: "server_context \<Rightarrow> ident \<Rightarrow> goal_row \<Rightarrow> plan_row \<Rightarrow> plan srv" where
  "reject_row ctx planId goal row =
     bind (guard (pl_status row = PS_proposed)
            (invalidState (''cannot reject a plan in status '' @ quoted (plan_status_text (pl_status row)))
               [(''status'', JStr (plan_status_text (pl_status row)))])) (\<lambda>_.
     bind (lift_sum Goal_transition_error (applyPlanTransition (pl_status row) PT_reject)) (\<lambda>_.
     bind (update_rows d_plans_update (\<lambda>p. pl_id p = planId) (\<lambda>p. p\<lparr>pl_status := PS_rejected\<rparr>)) (\<lambda>_.
     bind (emit ctx ((event_of ''goal.plan_rejected'' Act_user (cx_actorUserId ctx) (pl_goalId row))\<lparr>
             es_projectId := Some (gl_projectId goal), es_roomId := gl_roomId goal, es_goalId := Some (pl_goalId row),
             es_payload := [(''goal_id'', JStr (pl_goalId row)), (''plan_id'', JStr planId)]\<rparr>)) (\<lambda>_.
     stored_plan planId))))"

definition rejectPlan :: "server_context \<Rightarrow> ident \<Rightarrow> plan option srv" where
  "rejectPlan ctx planId =
     transaction (
       bind (sel d_plans (plan_matches ctx planId)) (\<lambda>found.
       case first found of
         None \<Rightarrow> ret None
       | Some lookup \<Rightarrow>
           bind (requireGoalInOrg ctx (pl_goalId lookup)) (\<lambda>goal.
           bind (sel d_plans (plan_matches ctx planId)) (\<lambda>rows.
           case first rows of
             None \<Rightarrow> ret None
           | Some row \<Rightarrow> bind (reject_row ctx planId goal row) (\<lambda>plan. ret (Some plan))))))"

section \<open>Materialization\<close>

record materialize_result =
  mr_plan :: plan
  mr_task_ids :: "ident list"

text \<open>\<open>Number(t.ref)\<close> of a stored reference, which \<open>String(i)\<close> wrote.\<close>

definition ref_number :: "string option \<Rightarrow> int" where
  "ref_number ref = otherwise (integer_of (otherwise ref [])) 0"

definition plan_task_ids :: "server_context \<Rightarrow> ident \<Rightarrow> ident list srv" where
  "plan_task_ids ctx planId =
     bind (sel d_tasks (\<lambda>t. tk_organizationId t = cx_organizationId ctx \<and> tk_sourcePlanId t = Some planId)) (\<lambda>existing.
     ret (map tk_id (order_asc (\<lambda>t. ref_number (tk_sourcePlanSpecRef t)) existing)))"

text \<open>\<open>specs.map(() => ctx.idGen.generate(ID_PREFIXES.task))\<close>.\<close>

definition new_task_ids :: "server_context \<Rightarrow> 'a list \<Rightarrow> ident list srv" where
  "new_task_ids ctx specs = for_fold specs [] (\<lambda>ids _. bind (generate ctx IP_task) (\<lambda>i. ret (ids @ [i])))"

text \<open>One round of the loop that creates the tasks.\<close>

definition materialize_spec ::
  "server_context \<Rightarrow> goal_row \<Rightarrow> ident \<Rightarrow> iso_time \<Rightarrow> nat \<times> ident \<times> task_spec \<Rightarrow> unit srv" where
  "materialize_spec ctx goal planId now p =
     (case p of (i, taskId, spec) \<Rightarrow>
        bind (generate ctx IP_room) (\<lambda>roomId.
        bind (insert_task ctx \<lparr>tk_id = taskId, tk_organizationId = gl_organizationId goal,
                tk_projectId = gl_projectId goal, tk_parentTaskId = None, tk_executionPolicyTaskId = None,
                tk_roomId = Some roomId, tk_goalId = Some (gl_id goal), tk_sourcePlanId = Some planId,
                tk_sourcePlanSpecRef = Some (String_of i), tk_title = ts_title spec,
                tk_description = ts_description spec, tk_status = TS_backlog, tk_priority = gl_priority goal,
                tk_assigneeType = None, tk_assigneeId = None, tk_requiredCapabilities = ts_required_capabilities spec,
                tk_preferredModelProfileId = None, tk_preferredEffort = None,
                tk_acceptanceCriteria = ts_acceptance_criteria spec, tk_createdByType = By_system,
                tk_createdById = ''plan_materializer'', tk_createdAt = now, tk_updatedAt = now\<rparr>) (\<lambda>_.
        bind (insert_room ctx \<lparr>rm_id = roomId, rm_organizationId = gl_organizationId goal,
                rm_projectId = Some (gl_projectId goal), rm_taskId = Some taskId, rm_goalId = Some (gl_id goal),
                rm_type = RT_task, rm_name = take 200 (ts_title spec), rm_description = [], rm_createdAt = now\<rparr>) (\<lambda>_.
        bind (emit ctx ((event_of ''task.created'' Act_system ''plan_materializer'' (gl_id goal))\<lparr>
                es_projectId := Some (gl_projectId goal), es_taskId := Some taskId, es_roomId := Some roomId,
                es_goalId := Some (gl_id goal),
                es_payload := [(''title'', JStr (ts_title spec)), (''source_plan_id'', JStr planId),
                  (''source_plan_spec_ref'', JStr (String_of i))]\<rparr>)) (\<lambda>_.
        emit ctx ((event_of ''room.created'' Act_system ''plan_materializer'' (gl_id goal))\<lparr>
                es_projectId := Some (gl_projectId goal), es_taskId := Some taskId, es_roomId := Some roomId,
                es_goalId := Some (gl_id goal)\<rparr>))))))"

definition materialize_edge :: "server_context \<Rightarrow> goal_row \<Rightarrow> iso_time \<Rightarrow> dag_edge \<Rightarrow> unit srv" where
  "materialize_edge ctx goal now e =
     bind (generate ctx IP_dependency) (\<lambda>i.
     insert_dependency ctx \<lparr>dp_id = i, dp_organizationId = gl_organizationId goal, dp_fromTaskId = from_task_id e,
       dp_toTaskId = to_task_id e, dp_type = edge_type e, dp_createdAt = now\<rparr>)"

text \<open>The part after the checks, for a plan that is not materialized yet.\<close>

definition materialize_new ::
  "server_context \<Rightarrow> ident \<Rightarrow> iso_time \<Rightarrow> goal_row \<Rightarrow> task_spec list \<Rightarrow> materialize_result srv" where
  "materialize_new ctx planId now goal specs =
     bind (new_task_ids ctx specs) (\<lambda>taskIds.
     bind (lift_sum id (buildEdges specs (\<lambda>i. taskIds ! i))) (\<lambda>edgeRows.
     bind (for_each (enumerate 0 (zip taskIds specs)) (materialize_spec ctx goal planId now)) (\<lambda>_.
     bind (for_each edgeRows (materialize_edge ctx goal now)) (\<lambda>_.
     bind (if gl_status goal = GS_paused then ret GS_paused
           else lift_sum Goal_transition_error (applyGoalTransition GS_planned GT_dag_materialized)) (\<lambda>goalStatus.
     bind (ts_nullable ctx (Some (otherwise (gl_runningSince goal) now))) (\<lambda>since.
     bind (ts_value ctx now) (\<lambda>stamp.
     bind (update_rows d_goals_update (\<lambda>g. gl_id g = gl_id goal)
             (\<lambda>g. g\<lparr>gl_status := goalStatus, gl_runningSince := since, gl_updatedAt := stamp\<rparr>)) (\<lambda>_.
     bind (buildEvent ctx ((event_of ''goal.plan_materialized'' Act_system ''plan_materializer'' (gl_id goal))\<lparr>
             es_projectId := Some (gl_projectId goal), es_roomId := gl_roomId goal, es_goalId := Some (gl_id goal),
             es_payload := [(''goal_id'', JStr (gl_id goal)), (''plan_id'', JStr planId),
               (''task_ids'', JArr (map JStr taskIds))]\<rparr>)) (\<lambda>matEvent.
     bind (update_rows d_plans_update (\<lambda>p. pl_id p = planId)
             (\<lambda>p. p\<lparr>pl_materializedAt := Some stamp, pl_materializationEventId := Some (ev_id matEvent)\<rparr>)) (\<lambda>_.
     bind (appendEvent ctx matEvent) (\<lambda>_.
     bind (hasMaterializeCheckpoint ctx planId) (\<lambda>has.
     bind (if has then skip
           else bind (createCheckpointInTx ctx (goal\<lparr>gl_status := goalStatus\<rparr>) CT_dag_materialized
                  \<lparr>co_planId = Some planId, co_triggerEventId = Some (ev_id matEvent),
                   co_summary = Some (''Materialized plan into '' @ String_of (length taskIds) @ '' task(s)'')\<rparr>)
                  (\<lambda>_. skip)) (\<lambda>_.
     bind (stored_plan planId) (\<lambda>plan.
     ret \<lparr>mr_plan = plan, mr_task_ids = taskIds\<rparr>))))))))))))))"

definition plan_not_found :: "ident \<Rightarrow> server_error" where
  "plan_not_found planId = notFound (''plan not found: '' @ planId) [(''plan_id'', JStr planId)]"

definition materializeInTx :: "server_context \<Rightarrow> ident \<Rightarrow> iso_time \<Rightarrow> materialize_result srv" where
  "materializeInTx ctx planId now =
     bind (sel d_plans (plan_matches ctx planId)) (\<lambda>found.
     case first found of
       None \<Rightarrow> throw (plan_not_found planId)
     | Some lookup \<Rightarrow>
         bind (requireGoalInOrg ctx (pl_goalId lookup)) (\<lambda>goal.
         bind (sel d_plans (plan_matches ctx planId)) (\<lambda>rows.
         case first rows of
           None \<Rightarrow> throw (plan_not_found planId)
         | Some plan \<Rightarrow>
             bind (guard (pl_status plan = PS_accepted)
                    (invalidState (''only an accepted plan can materialize (is '' @ quoted (plan_status_text (pl_status plan)) @ '')'')
                       [(''status'', JStr (plan_status_text (pl_status plan)))])) (\<lambda>_.
             bind (guard (gl_currentPlanId goal = Some planId)
                    (invalidState (''plan is not the goal'' @ [CHR 0x27] @ ''s current plan'') [(''plan_id'', JStr planId)])) (\<lambda>_.
             bind (lift_sum id (map_sum reparse_spec (pl_taskSpecs plan))) (\<lambda>specs.
             bind (lift_sum id (assert_controls specs)) (\<lambda>_.
             if pl_materializedAt plan \<noteq> None
             then bind (plan_task_ids ctx planId) (\<lambda>ordered. ret \<lparr>mr_plan = mapPlan plan, mr_task_ids = ordered\<rparr>)
             else
               bind (guard (gl_status goal = GS_planned \<or> gl_status goal = GS_paused)
                      (invalidState (''goal must be planned or paused to materialize (is '' @ quoted (goal_status_text (gl_status goal)) @ '')'')
                         [(''goal_status'', JStr (goal_status_text (gl_status goal)))])) (\<lambda>_.
               materialize_new ctx planId now goal specs))))))))"

definition materializePlan :: "server_context \<Rightarrow> ident \<Rightarrow> materialize_result srv" where
  "materializePlan ctx planId =
     bind (nowIso ctx) (\<lambda>now. transaction (materializeInTx ctx planId now))"

section \<open>Acceptance\<close>

text \<open>
  Replacing a plan: the new one is newer, every process of the goal has stopped, and the tasks of
  the current plan that never ran are cancelled.
\<close>

definition retire_task ::
  "server_context \<Rightarrow> goal_row \<Rightarrow> ident \<Rightarrow> iso_time \<Rightarrow> ident list \<Rightarrow> ident list \<Rightarrow> task_row \<Rightarrow> ident list srv" where
  "retire_task ctx goal planId now historical retired task =
     (if List.member historical (tk_id task) \<or> \<not> canTransitionTask (tk_status task) TT_cancel then ret retired
      else
        bind (transitionTask ctx \<lparr>tp_taskId = tk_id task, tp_from = tk_status task, tp_trigger = TT_cancel,
                tp_now = now, tp_events = Some (\<lambda>to. build_all ctx
                  [(event_of ''task.updated'' Act_user (cx_actorUserId ctx) (gl_id goal))\<lparr>
                     es_projectId := Some (gl_projectId goal), es_taskId := Some (tk_id task),
                     es_roomId := tk_roomId task, es_goalId := Some (gl_id goal),
                     es_payload := [(''status'', JStr (task_status_text to)), (''reason'', JStr ''plan_superseded''),
                       (''source_plan_id'', jopt (tk_sourcePlanId task)), (''replacement_plan_id'', JStr planId)]\<rparr>])\<rparr>) (\<lambda>_.
        ret (retired @ [tk_id task])))"

definition retire_current ::
  "server_context \<Rightarrow> goal_row \<Rightarrow> plan_row \<Rightarrow> ident \<Rightarrow> ident \<Rightarrow> iso_time \<Rightarrow> ident list srv" where
  "retire_current ctx goal plan currentId planId now =
     bind (sel d_plans (plan_matches ctx currentId)) (\<lambda>found.
     bind (guard (case first found of None \<Rightarrow> False | Some current \<Rightarrow> \<not> pl_version plan \<le> pl_version current)
            (conflict_error ''A replacement plan must be newer than the current accepted plan'' [])) (\<lambda>_.
     bind (unsettledGoalRunIds ctx (gl_id goal)) (\<lambda>unsettled.
     bind (guard (length unsettled = 0)
            (conflict_error ''Cannot replace a plan until all goal executions have confirmed they stopped''
               [(''run_ids'', JArr (map JStr unsettled))])) (\<lambda>_.
     bind (sel d_tasks (\<lambda>t. tk_organizationId t = cx_organizationId ctx \<and> tk_goalId t = Some (gl_id goal)
             \<and> tk_sourcePlanId t = Some currentId)) (\<lambda>previous.
     bind (sel_runs_tasks (\<lambda>(r, t). rn_organizationId r = cx_organizationId ctx \<and> tk_goalId t = Some (gl_id goal))) (\<lambda>executed.
     let historical = map (\<lambda>p. rn_taskId (fst p)) executed in
     bind (for_fold previous [] (retire_task ctx goal planId now historical)) (\<lambda>retiredTaskIds.
     bind (for_each retiredTaskIds (\<lambda>taskId. bind (propagateBlocked ctx taskId ''plan_superseded'') (\<lambda>_. skip))) (\<lambda>_.
     ret retiredTaskIds))))))))"

definition accept_new ::
  "server_context \<Rightarrow> ident \<Rightarrow> iso_time \<Rightarrow> goal_row \<Rightarrow> plan_row \<Rightarrow> materialize_result srv" where
  "accept_new ctx planId now goal plan =
     bind (guard (pl_status plan = PS_proposed)
            (invalidState (''cannot accept a plan in status '' @ quoted (plan_status_text (pl_status plan)))
               [(''status'', JStr (plan_status_text (pl_status plan)))])) (\<lambda>_.
     let replacement = (gl_currentPlanId goal \<noteq> None) in
     bind (guard (\<not> (\<not> replacement \<and> gl_status goal \<noteq> GS_draft \<or> replacement \<and> gl_status goal \<noteq> GS_paused))
            (invalidState (if replacement then ''Pause the goal before accepting a replacement plan''
                 else ''A first plan requires a draft goal (is '' @ quoted (goal_status_text (gl_status goal)) @ '')'')
               [(''goal_status'', JStr (goal_status_text (gl_status goal)))])) (\<lambda>_.
     bind (lift_sum id (supportedGoalPolicy (gl_budgets goal) (gl_stopConditions goal))) (\<lambda>_.
     bind (case gl_currentPlanId goal of
             None \<Rightarrow> ret []
           | Some currentId \<Rightarrow> retire_current ctx goal plan currentId planId now) (\<lambda>retiredTaskIds.
     bind (lift_sum Goal_transition_error (applyPlanTransition PS_proposed PT_accept)) (\<lambda>_.
     bind (update_rows d_plans_update (\<lambda>p. pl_organizationId p = cx_organizationId ctx \<and> pl_goalId p = pl_goalId plan
             \<and> pl_status p = PS_accepted) (\<lambda>p. p\<lparr>pl_status := PS_superseded\<rparr>)) (\<lambda>_.
     bind (ts_value ctx now) (\<lambda>stamp.
     bind (update_rows d_plans_update (\<lambda>p. pl_id p = planId)
             (\<lambda>p. p\<lparr>pl_status := PS_accepted, pl_acceptedAt := Some stamp\<rparr>)) (\<lambda>_.
     bind (if replacement then ret GS_paused
           else lift_sum Goal_transition_error (applyGoalTransition GS_draft GT_plan_accepted)) (\<lambda>status.
     bind (update_rows d_goals_update (\<lambda>g. gl_id g = pl_goalId plan)
             (\<lambda>g. g\<lparr>gl_status := status, gl_currentPlanId := Some planId, gl_updatedAt := stamp\<rparr>)) (\<lambda>_.
     bind (emit ctx ((event_of ''goal.plan_accepted'' Act_user (cx_actorUserId ctx) (pl_goalId plan))\<lparr>
             es_projectId := Some (gl_projectId goal), es_roomId := gl_roomId goal, es_goalId := Some (pl_goalId plan),
             es_payload := [(''goal_id'', JStr (pl_goalId plan)), (''plan_id'', JStr planId),
               (''previous_plan_id'', jopt (gl_currentPlanId goal)),
               (''retired_task_ids'', JArr (map JStr retiredTaskIds))]\<rparr>)) (\<lambda>_.
     materializeInTx ctx planId now)))))))))))"

definition accept_tx :: "server_context \<Rightarrow> ident \<Rightarrow> iso_time \<Rightarrow> materialize_result srv" where
  "accept_tx ctx planId now =
     bind (sel d_plans (plan_matches ctx planId)) (\<lambda>found.
     case first found of
       None \<Rightarrow> throw (plan_not_found planId)
     | Some lookup \<Rightarrow>
         bind (requireGoalInOrg ctx (pl_goalId lookup)) (\<lambda>goal.
         bind (sel d_plans (plan_matches ctx planId)) (\<lambda>rows.
         case first rows of
           None \<Rightarrow> throw (plan_not_found planId)
         | Some plan \<Rightarrow>
             if pl_status plan = PS_accepted then materializeInTx ctx planId now
             else accept_new ctx planId now goal plan)))"

definition acceptPlan :: "server_context \<Rightarrow> ident \<Rightarrow> materialize_result srv" where
  "acceptPlan ctx planId = bind (nowIso ctx) (\<lambda>now. transaction (accept_tx ctx planId now))"

section \<open>A concrete run\<close>

definition demo_spec :: "string \<Rightarrow> (string \<times> string) list \<Rightarrow> spec_input" where
  "demo_spec title deps = \<lparr>si_title = title, si_description = None, si_acceptance_criteria = [''works''],
     si_required_capabilities = None, si_dependencies = Some deps, si_approval_gates = None, si_write_scopes = None,
     si_expected_artifacts = None\<rparr>"

definition demo_proposal :: "(string \<times> string) list \<Rightarrow> propose_plan_input" where
  "demo_proposal deps = \<lparr>pi_rationale = None, pi_task_specs = [demo_spec ''one'' [], demo_spec ''two'' deps],
     pi_author_type = None, pi_author_id = None\<rparr>"

definition demo_plan_world :: world where
  "demo_plan_world = demo_world\<lparr>w_db := empty_db\<lparr>d_goals := [demo_goal ''g1'' GS_draft],
     d_projects := [\<lparr>pj_id = ''proj_1'', pj_organizationId = ''org_1'', pj_name = ''demo'', pj_defaultWorkspace = None,
       pj_createdAt = ''2026-06-11''\<rparr>]\<rparr>\<rparr>"

definition demo_proposed :: "(string \<times> string) list \<Rightarrow> world" where
  "demo_proposed deps = snd (proposePlan demo_ctx ''g1'' (demo_proposal deps) demo_plan_world)"

definition demo_plan_id :: ident where
  "demo_plan_id = ''plan_''"

text \<open>
  A dependency named twice passes the validation of the proposal, and the plan can then never be
  accepted: the tasks' dependencies are unique.
\<close>

lemma duplicate_dependency_blocks_acceptance:
  "returns (proposePlan demo_ctx ''g1'' (demo_proposal [(''0'', ''blocks''), (''0'', ''blocks'')])) demo_plan_world
   \<and> fst (acceptPlan demo_ctx demo_plan_id (demo_proposed [(''0'', ''blocks''), (''0'', ''blocks'')]))
       = Inl (Db_error ''task_deps_unique'')"
  by code_simp

section \<open>The edges of a plan\<close>

text \<open>Every reference is the index of a spec of the plan.\<close>

definition refs_ok :: "task_spec list \<Rightarrow> bool" where
  "refs_ok specs \<longleftrightarrow> (\<forall>(i, dep) \<in> set (spec_deps specs).
     \<exists>k < length specs. integer_of (sd_ref dep) = Some (int k))"

definition ref_index :: "spec_dependency \<Rightarrow> nat" where
  "ref_index dep = nat (the (integer_of (sd_ref dep)))"

definition spec_rel :: "task_spec list \<Rightarrow> (nat \<times> nat) set" where
  "spec_rel specs = (\<lambda>(i, dep). (ref_index dep, i)) ` set (spec_deps specs)"

definition named_edge :: "(nat \<Rightarrow> ident) \<Rightarrow> nat \<times> spec_dependency \<Rightarrow> dag_edge" where
  "named_edge idf p = (case p of (i, dep) \<Rightarrow>
     \<lparr>from_task_id = idf (ref_index dep), to_task_id = idf i, edge_type = sd_type dep\<rparr>)"

lemma spec_deps_index: "(i, dep) \<in> set (spec_deps specs) \<Longrightarrow> i < length specs"
  by (auto simp: spec_deps_def in_set_enumerate_eq)

definition ref_ok :: "nat \<Rightarrow> nat \<times> spec_dependency \<Rightarrow> bool" where
  "ref_ok n p \<longleftrightarrow> (\<exists>k < n. integer_of (sd_ref (snd p)) = Some (int k))"

lemma spec_edge_iff:
  assumes "inj_on idf {..<n}" and "fst p < n"
  shows "spec_edge n idf edges p =
     (if ref_ok n p \<and> \<not> wouldCreateCycle edges (from_task_id (named_edge idf p)) (to_task_id (named_edge idf p))
      then Inr (named_edge idf p) else Inl (projl (spec_edge n idf edges p)))"
proof (cases p)
  case (Pair i dep)
  show ?thesis
  proof (cases "ref_ok n p")
    case False
    then have "integer_of (sd_ref dep) = Some k \<Longrightarrow> k < 0 \<or> int n \<le> k" for k
      unfolding ref_ok_def Pair by (metis snd_conv int_nat_eq linorder_not_less nat_less_iff zless_nat_conj of_nat_less_iff)
    then show ?thesis using False by (auto simp: spec_edge_def Pair Let_def split: option.split)
  next
    case True
    then obtain k where k: "k < n" "integer_of (sd_ref dep) = Some (int k)" by (auto simp: ref_ok_def Pair)
    have "wouldCreateCycle edges (idf k) (idf i)" if "k = i"
      using that by (simp add: wouldCreateCycle_path)
    then show ?thesis using True k by (auto simp: spec_edge_def Pair named_edge_def ref_index_def Let_def)
  qed
qed

lemma add_edges_iff:
  assumes "\<And>p. p \<in> set ps \<Longrightarrow> fst p < n" and inj: "inj_on idf {..<n}" and "acyclic (edge_rel edges)"
  shows "(\<forall>es. add_edges n idf edges ps = Inr es \<longleftrightarrow>
      (\<forall>p \<in> set ps. ref_ok n p) \<and> acyclic (edge_rel (edges @ map (named_edge idf) ps)) \<and> es = edges @ map (named_edge idf) ps)"
  using assms(1,3)
proof (induction ps arbitrary: edges)
  case Nil
  then show ?case by auto
next
  case (Cons p ps)
  let ?e = "named_edge idf p"
  note edge = spec_edge_iff [OF inj, of p edges]
  have edge: "spec_edge n idf edges p =
     (if ref_ok n p \<and> \<not> wouldCreateCycle edges (from_task_id ?e) (to_task_id ?e)
      then Inr ?e else Inl (projl (spec_edge n idf edges p)))"
    by (rule edge) (simp add: Cons.prems(1))
  have one: "acyclic (edge_rel (edges @ [?e])) \<longleftrightarrow> \<not> wouldCreateCycle edges (from_task_id ?e) (to_task_id ?e)"
    using Cons.prems(2) by (simp add: acyclic_insert wouldCreateCycle_path)
  have more: "acyclic (edge_rel (edges @ [?e]))" if "acyclic (edge_rel (edges @ map (named_edge idf) (p # ps)))"
    by (rule acyclic_subset [OF that]) auto
  show ?case
  proof (cases "ref_ok n p \<and> \<not> wouldCreateCycle edges (from_task_id ?e) (to_task_id ?e)")
    case True
    then have "add_edges n idf edges (p # ps) = add_edges n idf (edges @ [?e]) ps" using edge by simp
    moreover have "acyclic (edge_rel (edges @ [?e]))" using True one by simp
    ultimately show ?thesis using Cons.IH [of "edges @ [?e]"] Cons.prems(1) True by simp
  next
    case False
    have "spec_edge n idf edges p = Inl (projl (spec_edge n idf edges p))" using edge unfolding if_not_P [OF False] .
    then obtain err where "spec_edge n idf edges p = Inl err" by blast
    then have "add_edges n idf edges (p # ps) = Inl err" by simp
    moreover have "\<not> ((\<forall>q \<in> set (p # ps). ref_ok n q) \<and> acyclic (edge_rel (edges @ map (named_edge idf) (p # ps))))"
      using False one more by auto
    ultimately show ?thesis by auto
  qed
qed

lemma acyclic_named:
  assumes inj: "inj_on f A" and sub: "r \<subseteq> A \<times> A" and fin: "finite r"
  shows "acyclic (map_prod f f ` r) \<longleftrightarrow> acyclic r"
proof
  assume image: "acyclic (map_prod f f ` r)"
  show "acyclic r"
    unfolding acyclic_def
  proof (intro allI notI)
    fix x assume "(x, x) \<in> r\<^sup>+"
    have "(f x, f y) \<in> (map_prod f f ` r)\<^sup>+" if "(x, y) \<in> r\<^sup>+" for x y
      using that
    proof induction
      case (base y)
      then show ?case by (intro r_into_trancl) (auto intro: rev_image_eqI)
    next
      case (step y z)
      then have "(f y, f z) \<in> map_prod f f ` r" by (auto intro: rev_image_eqI)
      with step.IH show ?case by (rule trancl_into_trancl)
    qed
    from this [OF \<open>(x, x) \<in> r\<^sup>+\<close>] show False using image by (simp add: acyclic_def)
  qed
next
  assume "acyclic r"
  then have "wf r" using fin by (rule finite_acyclic_wf [rotated])
  moreover have "\<forall>a \<in> Domain r. \<forall>a' \<in> Range r. f a = f a' \<longrightarrow> a = a'"
    using inj sub by (auto dest: inj_onD)
  ultimately have "wf (map_prod f f ` r)" by (intro wf_map_prod_image_Dom_Ran) blast+
  then show "acyclic (map_prod f f ` r)" by (rule wf_acyclic)
qed

lemma named_rel:
  "edge_rel (map (named_edge idf) (spec_deps specs)) = map_prod idf idf ` spec_rel specs"
  by (force simp: edge_rel_def spec_rel_def named_edge_def)

lemma refs_ok_iff: "refs_ok specs \<longleftrightarrow> (\<forall>p \<in> set (spec_deps specs). ref_ok (length specs) p)"
  by (force simp: refs_ok_def ref_ok_def)

lemma buildEdges_iff:
  assumes inj: "inj_on idf {..<length specs}"
  shows "buildEdges specs idf = Inr es \<longleftrightarrow>
    refs_ok specs \<and> acyclic (spec_rel specs) \<and> es = map (named_edge idf) (spec_deps specs)"
proof -
  have index: "fst p < length specs" if "p \<in> set (spec_deps specs)" for p
    using that spec_deps_index [of "fst p" "snd p" specs] by simp
  have built: "buildEdges specs idf = Inr es \<longleftrightarrow>
      refs_ok specs \<and> acyclic (edge_rel (map (named_edge idf) (spec_deps specs))) \<and> es = map (named_edge idf) (spec_deps specs)"
    using add_edges_iff [OF index inj, of "spec_deps specs" "[]"] by (simp add: buildEdges_def refs_ok_iff acyclic_def [of "{}"])
  have "acyclic (edge_rel (map (named_edge idf) (spec_deps specs))) \<longleftrightarrow> acyclic (spec_rel specs)" if "refs_ok specs"
    unfolding named_rel
  proof (rule acyclic_named [OF inj])
    show "spec_rel specs \<subseteq> {..<length specs} \<times> {..<length specs}"
    proof
      fix e assume "e \<in> spec_rel specs"
      then obtain i dep where p: "(i, dep) \<in> set (spec_deps specs)" "e = (ref_index dep, i)" by (auto simp: spec_rel_def)
      then obtain k where "k < length specs" "integer_of (sd_ref dep) = Some (int k)"
        using \<open>refs_ok specs\<close> by (auto simp: refs_ok_def)
      then show "e \<in> {..<length specs} \<times> {..<length specs}" using p spec_deps_index by (auto simp: ref_index_def)
    qed
  qed (simp add: spec_rel_def)
  then show ?thesis using built by blast
qed

text \<open>
  Property C20. What a proposal's validation accepted can be materialized: a plan whose specs passed
  has only references to its own specs and no cycle, whatever distinct identifiers the tasks get
  the edges are built without an error, one per declared dependency from the named prerequisite,
  and they form an acyclic graph. The validation throws for no other reason once the specs parse
  and use no unsupported control.
\<close>

theorem validated_plan_materializes:
  assumes "map_sum parse_spec inputs = Inr specs" and "assert_controls specs = Inr u" and "specs \<noteq> []"
    and "distinct taskIds" and "length taskIds = length specs"
  shows "case validatePlanTaskSpecs inputs of
      Inl e \<Rightarrow> \<not> (refs_ok specs \<and> acyclic (spec_rel specs))
    | Inr specs' \<Rightarrow> specs' = specs \<and> refs_ok specs \<and> acyclic (spec_rel specs)
        \<and> buildEdges specs' (\<lambda>i. taskIds ! i) = Inr (map (named_edge (\<lambda>i. taskIds ! i)) (spec_deps specs))
        \<and> acyclic (edge_rel (map (named_edge (\<lambda>i. taskIds ! i)) (spec_deps specs)))"
proof -
  have names: "inj_on String_of {..<length specs}" by (auto intro!: inj_onI dest: String_of_inj)
  have ids: "inj_on (\<lambda>i. taskIds ! i) {..<length specs}"
    using assms(4,5) by (auto simp: inj_on_def nth_eq_iff_index_eq)
  have valid: "validatePlanTaskSpecs inputs = (case buildEdges specs String_of of Inl e \<Rightarrow> Inl e | Inr _ \<Rightarrow> Inr specs)"
    using assms(1-3) by (simp add: validatePlanTaskSpecs_def)
  show ?thesis
  proof (cases "buildEdges specs String_of")
    case (Inl e)
    then have "\<not> (refs_ok specs \<and> acyclic (spec_rel specs))" using buildEdges_iff [OF names] by auto
    then show ?thesis using valid Inl by simp
  next
    case (Inr es)
    then have ok: "refs_ok specs" "acyclic (spec_rel specs)" using buildEdges_iff [OF names] by auto
    then have built: "buildEdges specs (\<lambda>i. taskIds ! i) = Inr (map (named_edge (\<lambda>i. taskIds ! i)) (spec_deps specs))"
      using buildEdges_iff [OF ids] by blast
    have "acyclic (edge_rel (map (named_edge (\<lambda>i. taskIds ! i)) (spec_deps specs)))"
      using add_edges_iff [of "spec_deps specs" "length specs" "\<lambda>i. taskIds ! i" "[]"] ids built spec_deps_index
      by (force simp: buildEdges_def acyclic_def [of "{}"])
    then show ?thesis using valid Inr ok built by simp
  qed
qed

lemma validated_plan_materializes_witness:
  "case validatePlanTaskSpecs [demo_spec ''one'' [], demo_spec ''two'' [(''0'', ''blocks'')]] of
     Inl e \<Rightarrow> False
   | Inr specs \<Rightarrow> buildEdges specs (\<lambda>i. [''a'', ''b''] ! i)
       = Inr [\<lparr>from_task_id = ''a'', to_task_id = ''b'', edge_type = DT_blocks\<rparr>]"
proof -
  let ?inputs = "[demo_spec ''one'' [], demo_spec ''two'' [(''0'', ''blocks'')]]"
  let ?spec = "\<lambda>title deps. \<lparr>ts_title = title, ts_description = [], ts_acceptance_criteria = [''works''],
      ts_required_capabilities = [], ts_dependencies = deps, ts_approval_gates = [], ts_write_scopes = [], ts_expected_artifacts = []\<rparr>"
  let ?specs = "[?spec ''one'' [], ?spec ''two'' [\<lparr>sd_ref = ''0'', sd_type = DT_blocks\<rparr>]]"
  have parsed: "map_sum parse_spec ?inputs = Inr ?specs" by code_simp
  have controls: "assert_controls ?specs = Inr [(), ()]" by code_simp
  have edges: "map (named_edge (\<lambda>i. [''a'', ''b''] ! i)) (spec_deps ?specs)
      = [\<lparr>from_task_id = ''a'', to_task_id = ''b'', edge_type = DT_blocks\<rparr>]" by code_simp
  have valid: "validatePlanTaskSpecs ?inputs = Inr ?specs" by code_simp
  show ?thesis
    using validated_plan_materializes [OF parsed controls, of "[''a'', ''b'']"] unfolding valid edges by simp
qed

section \<open>At most one accepted plan\<close>

text \<open>What the invariant reads of the plans.\<close>

definition plan_keys :: "database \<Rightarrow> (ident \<times> ident \<times> ident \<times> plan_status) list" where
  "plan_keys db = map (\<lambda>p. (pl_id p, pl_organizationId p, pl_goalId p, pl_status p)) (d_plans db)"

definition one_accepted :: "(ident \<times> ident \<times> ident \<times> plan_status) list \<Rightarrow> bool" where
  "one_accepted keys \<longleftrightarrow> distinct (map fst keys)
     \<and> (\<forall>i j org g. (i, org, g, PS_accepted) \<in> set keys \<and> (j, org, g, PS_accepted) \<in> set keys \<longrightarrow> i = j)"

lemma plan_keys_frames [simp]:
  "plan_keys (d_events_update f db) = plan_keys db" "plan_keys (d_tasks_update f1 db) = plan_keys db"
  "plan_keys (d_rooms_update f2 db) = plan_keys db" "plan_keys (d_goals_update f3 db) = plan_keys db"
  "plan_keys (d_deps_update f4 db) = plan_keys db" "plan_keys (d_checkpoints_update f5 db) = plan_keys db"
  by (simp_all add: plan_keys_def)

lemma leaves_keep_status:
  "(\<And>p. pl_id (f p) = pl_id p \<and> pl_organizationId (f p) = pl_organizationId p \<and> pl_goalId (f p) = pl_goalId p
      \<and> pl_status (f p) = pl_status p) \<Longrightarrow> leaves plan_keys (update_rows d_plans_update P f)"
  by (simp add: leaves_def update_rows_run plan_keys_def map_set_rows)

lemma leaves_reads: "reads m \<Longrightarrow> leaves part m"
  by (simp add: leaves_def reads_def)

lemma reads_sel_of_tasks [reads_rules]: "reads (sel_of_tasks ids table P)"
  unfolding sel_of_tasks_def by (intro reads_rules)

lemma quiet_synthesize: "quiet (synthesizeRefsInTx ctx goal)"
  unfolding synthesizeRefsInTx_def sel_of_tasks_def plan_version_of_def event_cursor_def Let_def by (intro quiet_rules)

lemma leaves_createCheckpoint:
  "(\<And>f db. part (d_events_update f db) = part db) \<Longrightarrow> (\<And>f db. part (d_checkpoints_update f db) = part db)
     \<Longrightarrow> leaves part (createCheckpointInTx ctx goal ty opts)"
  unfolding createCheckpointInTx_def
  by (intro leaves_rules leaves_log leaves_inserts leaves_quiet [OF quiet_synthesize]) simp_all

lemma leaves_hasMaterialize: "leaves part (hasMaterializeCheckpoint ctx i)"
  unfolding hasMaterializeCheckpoint_def by (intro leaves_rules)

lemma leaves_propagate: "(\<And>f db. part (d_events_update f db) = part db) \<Longrightarrow> leaves part (propagateBlocked ctx s r)"
  unfolding propagateBlocked_def signal_one_def [abs_def] find_task_def loadEdges_def Let_def
  by (intro leaves_rules leaves_log)

lemma leaves_unsettled: "(\<And>f db. part (d_events_update f db) = part db) \<Longrightarrow> leaves part (unsettledGoalRunIds ctx i)"
  by (rule leaves_quiet [OF quiet_unsettled]) simp

lemma leaves_stored_plan: "leaves part (stored_plan i)"
  unfolding stored_plan_def by (intro leaves_rules)

lemma leaves_requireGoal: "leaves part (requireGoalInOrg ctx g)"
  unfolding requireGoalInOrg_def by (intro leaves_rules)

lemma leaves_materialize_new:
  "leaves plan_keys (materialize_new ctx planId now goal specs)"
  unfolding materialize_new_def new_task_ids_def materialize_spec_def [abs_def] materialize_edge_def [abs_def] split_def
  by (intro leaves_rules leaves_log leaves_inserts leaves_keep_status leaves_update leaves_createCheckpoint
        leaves_hasMaterialize leaves_stored_plan) simp_all

lemma leaves_materialize: "leaves plan_keys (materializeInTx ctx planId now)"
  unfolding materializeInTx_def plan_task_ids_def
  by (intro leaves_rules leaves_requireGoal leaves_materialize_new)

lemma leaves_retire: "leaves plan_keys (retire_current ctx goal plan currentId planId now)"
  unfolding retire_current_def retire_task_def [abs_def] sel_runs_tasks_def Let_def
  by (intro leaves_rules leaves_unsettled leaves_propagate leaves_transitionTask) (auto simp: logs_only_def quiet_rules)

lemma keeps_tx:
  assumes "\<And>w r w'. J (w_db w) \<Longrightarrow> m w = (Inr r, w') \<Longrightarrow> J (w_db w')"
  shows "keeps (\<lambda>w :: world. J (w_db w)) (transaction m)"
proof (rule keepsI)
  fix w :: world assume J: "J (w_db w)"
  obtain r w' where run: "transaction m w = (r, w')" by (cases "transaction m w")
  have "J (w_db w')"
  proof (cases r)
    case (Inl e)
    then show ?thesis using J run transaction_error [of m w e w'] by simp
  next
    case (Inr a)
    then have "m w = (Inr a, w')" using run by (simp add: transaction_ok)
    from assms [OF J this] show ?thesis .
  qed
  then show "J (w_db (snd (transaction m w)))" using run by simp
qed

definition accepted_key ::
  "ident \<Rightarrow> ident \<Rightarrow> ident \<Rightarrow> ident \<times> ident \<times> ident \<times> plan_status \<Rightarrow> ident \<times> ident \<times> ident \<times> plan_status" where
  "accepted_key org goalId planId k = (case k of (i, o1, g, s) \<Rightarrow>
     (i, o1, g, if i = planId then PS_accepted else if o1 = org \<and> g = goalId \<and> s = PS_accepted then PS_superseded else s))"

lemma accept_new_keys:
  assumes run: "accept_new ctx planId now goal plan w = (Inr r, w')"
  shows "plan_keys (w_db w') = map (accepted_key (cx_organizationId ctx) (pl_goalId plan) planId) (plan_keys (w_db w))"
    and "pl_status plan = PS_proposed"
proof -
  from run obtain a0 w0 a1 w1 a2 w2 ids w3 a4 w4 a5 w5 stamp w6 a7 w7 st w8 a9 w9 a10 w10 where
    g0: "guard (pl_status plan = PS_proposed)
            (invalidState (''cannot accept a plan in status '' @ quoted (plan_status_text (pl_status plan)))
               [(''status'', JStr (plan_status_text (pl_status plan)))]) w = (Inr a0, w0)"
    and g1: "guard (\<not> (\<not> (gl_currentPlanId goal \<noteq> None) \<and> gl_status goal \<noteq> GS_draft \<or> (gl_currentPlanId goal \<noteq> None) \<and> gl_status goal \<noteq> GS_paused))
            (invalidState (if (gl_currentPlanId goal \<noteq> None) then ''Pause the goal before accepting a replacement plan''
                 else ''A first plan requires a draft goal (is '' @ quoted (goal_status_text (gl_status goal)) @ '')'')
               [(''goal_status'', JStr (goal_status_text (gl_status goal)))]) w0 = (Inr a1, w1)"
    and g2: "lift_sum id (supportedGoalPolicy (gl_budgets goal) (gl_stopConditions goal)) w1 = (Inr a2, w2)"
    and retire: "(case gl_currentPlanId goal of None \<Rightarrow> ret []
             | Some currentId \<Rightarrow> retire_current ctx goal plan currentId planId now) w2 = (Inr ids, w3)"
    and g4: "lift_sum Goal_transition_error (applyPlanTransition PS_proposed PT_accept) w3 = (Inr a4, w4)"
    and u1: "update_rows d_plans_update (\<lambda>p. pl_organizationId p = cx_organizationId ctx \<and> pl_goalId p = pl_goalId plan
             \<and> pl_status p = PS_accepted) (\<lambda>p. p\<lparr>pl_status := PS_superseded\<rparr>) w4 = (Inr a5, w5)"
    and ts: "ts_value ctx now w5 = (Inr stamp, w6)"
    and u2: "update_rows d_plans_update (\<lambda>p. pl_id p = planId)
             (\<lambda>p. p\<lparr>pl_status := PS_accepted, pl_acceptedAt := Some stamp\<rparr>) w6 = (Inr a7, w7)"
    and g8: "(if gl_currentPlanId goal \<noteq> None then ret GS_paused
           else lift_sum Goal_transition_error (applyGoalTransition GS_draft GT_plan_accepted)) w7 = (Inr st, w8)"
    and u3: "update_rows d_goals_update (\<lambda>g. gl_id g = pl_goalId plan)
             (\<lambda>g. g\<lparr>gl_status := st, gl_currentPlanId := Some planId, gl_updatedAt := stamp\<rparr>) w8 = (Inr a9, w9)"
    and em: "emit ctx ((event_of ''goal.plan_accepted'' Act_user (cx_actorUserId ctx) (pl_goalId plan))\<lparr>
             es_projectId := Some (gl_projectId goal), es_roomId := gl_roomId goal, es_goalId := Some (pl_goalId plan),
             es_payload := [(''goal_id'', JStr (pl_goalId plan)), (''plan_id'', JStr planId),
               (''previous_plan_id'', jopt (gl_currentPlanId goal)),
               (''retired_task_ids'', JArr (map JStr ids))]\<rparr>) w9 = (Inr a10, w10)"
    and mat: "materializeInTx ctx planId now w10 = (Inr r, w')"
    unfolding accept_new_def Let_def by (elim bind_InrE)
  show "pl_status plan = PS_proposed" using guard_Inr [OF g0] by simp
  have "w1 = w" using guard_Inr [OF g0] guard_Inr [OF g1] by simp
  moreover have "w2 = w1" using g2 by (auto simp: lift_sum_def run_basic split: sum.splits)
  moreover have "plan_keys (w_db w3) = plan_keys (w_db w2)"
    using retire leaves_run [OF leaves_retire, of ctx goal plan _ planId now] by (auto simp: run_basic split: option.splits)
  moreover have "w4 = w3" using g4 by (auto simp: lift_sum_def run_basic split: sum.splits)
  ultimately have before: "plan_keys (w_db w4) = plan_keys (w_db w)" by simp
  have w5: "d_plans (w_db w5) = set_rows (\<lambda>p. pl_organizationId p = cx_organizationId ctx \<and> pl_goalId p = pl_goalId plan
             \<and> pl_status p = PS_accepted) (\<lambda>p. p\<lparr>pl_status := PS_superseded\<rparr>) (d_plans (w_db w4))"
    using u1 by (auto simp: update_rows_run)
  have w6: "w6 = w5" by (rule readsD [OF reads_ts(1) ts])
  have w7: "d_plans (w_db w7) = set_rows (\<lambda>p. pl_id p = planId)
             (\<lambda>p. p\<lparr>pl_status := PS_accepted, pl_acceptedAt := Some stamp\<rparr>) (d_plans (w_db w6))"
    using u2 by (auto simp: update_rows_run)
  have "plan_keys (w_db w7) = map (accepted_key (cx_organizationId ctx) (pl_goalId plan) planId) (plan_keys (w_db w4))"
    by (auto simp: plan_keys_def w7 w6 w5 set_rows_def accepted_key_def)
  moreover have "plan_keys (w_db w8) = plan_keys (w_db w7)"
    using g8 by (auto simp: lift_sum_def run_basic split: if_splits sum.splits)
  moreover have "plan_keys (w_db w9) = plan_keys (w_db w8)" using u3 by (auto simp: update_rows_run)
  moreover have "plan_keys (w_db w10) = plan_keys (w_db w9)" by (rule leaves_run [OF leaves_emit em]) simp
  moreover have "plan_keys (w_db w') = plan_keys (w_db w10)" by (rule leaves_run [OF leaves_materialize mat])
  ultimately show "plan_keys (w_db w') = map (accepted_key (cx_organizationId ctx) (pl_goalId plan) planId) (plan_keys (w_db w))"
    using before by simp
qed

lemma one_accepted_accept:
  assumes inv: "one_accepted keys" and plan: "(planId, org, g, s) \<in> set keys"
  shows "one_accepted (map (accepted_key org g planId) keys)"
proof -
  have fst: "fst (accepted_key org g planId k) = fst k" for k by (cases k) (simp add: accepted_key_def)
  have ids: "map fst (map (accepted_key org g planId) keys) = map fst keys" by (simp add: fst comp_def)
  have only: "k = (planId, org, g, s)" if "k \<in> set keys" "fst k = planId" for k
  proof -
    have "distinct (map fst keys)" using inv by (simp add: one_accepted_def)
    then show ?thesis using plan that by (auto simp: distinct_map inj_on_def)
  qed
  have from_key: "i = planId \<and> o1 = org \<and> g1 = g \<or> (i, o1, g1, PS_accepted) \<in> set keys \<and> \<not> (o1 = org \<and> g1 = g)"
    if acc: "(i, o1, g1, PS_accepted) \<in> set (map (accepted_key org g planId) keys)" for i o1 g1
  proof -
    from acc obtain t where k: "(i, o1, g1, t) \<in> set keys"
      "PS_accepted = (if i = planId then PS_accepted else if o1 = org \<and> g1 = g \<and> t = PS_accepted then PS_superseded else t)"
      by (auto simp: accepted_key_def)
    show ?thesis
    proof (cases "i = planId")
      case True
      then show ?thesis using only [OF k(1)] by simp
    next
      case False
      then show ?thesis using k by (auto split: if_splits)
    qed
  qed
  show ?thesis
    unfolding one_accepted_def ids
  proof (intro conjI allI impI)
    show "distinct (map fst keys)" using inv by (simp add: one_accepted_def)
    fix i j o1 g1
    assume "(i, o1, g1, PS_accepted) \<in> set (map (accepted_key org g planId) keys)
      \<and> (j, o1, g1, PS_accepted) \<in> set (map (accepted_key org g planId) keys)"
    then show "i = j" using from_key [of i o1 g1] from_key [of j o1 g1] inv unfolding one_accepted_def by blast
  qed
qed

lemma plan_found: "find (plan_matches ctx i) (d_plans db) = Some p \<Longrightarrow> (i, cx_organizationId ctx, pl_goalId p, pl_status p) \<in> set (plan_keys db)"
  by (drule find_Some_D) (force simp: plan_keys_def plan_matches_def)

lemma accept_keeps:
  assumes inv: "one_accepted (plan_keys (w_db w))" and run: "accept_tx ctx planId now w = (Inr r, w')"
  shows "one_accepted (plan_keys (w_db w'))"
proof -
  obtain lookup where "find (plan_matches ctx planId) (d_plans (w_db w)) = Some lookup"
    using run by (cases "find (plan_matches ctx planId) (d_plans (w_db w))")
      (simp_all add: accept_tx_def bind_sel first_filter run_basic)
  then obtain goal w1 where goal: "requireGoalInOrg ctx (pl_goalId lookup) w = (Inr goal, w1)"
    and rows: "(case find (plan_matches ctx planId) (d_plans (w_db w1)) of
           None \<Rightarrow> throw (plan_not_found planId)
         | Some plan \<Rightarrow>
             if pl_status plan = PS_accepted then materializeInTx ctx planId now
             else accept_new ctx planId now goal plan) w1 = (Inr r, w')"
    using run unfolding accept_tx_def bind_sel first_filter by (auto elim!: bind_InrE simp: bind_sel first_filter)
  then obtain plan where found: "find (plan_matches ctx planId) (d_plans (w_db w1)) = Some plan"
    by (cases "find (plan_matches ctx planId) (d_plans (w_db w1))") (simp_all add: run_basic)
  then have rest: "(if pl_status plan = PS_accepted then materializeInTx ctx planId now else accept_new ctx planId now goal plan) w1 = (Inr r, w')"
    using rows by simp
  have w1: "plan_keys (w_db w1) = plan_keys (w_db w)" by (rule leaves_run [OF leaves_requireGoal goal])
  show ?thesis
  proof (cases "pl_status plan = PS_accepted")
    case True
    then have "plan_keys (w_db w') = plan_keys (w_db w1)" using rest leaves_run [OF leaves_materialize] by simp
    then show ?thesis using inv w1 by simp
  next
    case False
    then have new: "accept_new ctx planId now goal plan w1 = (Inr r, w')" using rest by simp
    show ?thesis
      unfolding accept_new_keys(1) [OF new]
      using one_accepted_accept [OF _ plan_found [OF found]] inv w1 by simp
  qed
qed

lemma insert_plan_keys:
  assumes "insert_plan ctx row w = (Inr u, w')"
  shows "plan_keys (w_db w') = plan_keys (w_db w) @ [(pl_id row, pl_organizationId row, pl_goalId row, pl_status row)]"
    and "pl_id row \<notin> fst ` set (plan_keys (w_db w))"
  using assms
  by (auto simp: insert_plan_def checked_plan_def bind_assoc bind_checks in_db_run plan_keys_def list_ex_iff
      split: option.splits if_splits)

lemma one_accepted_propose:
  "one_accepted keys \<Longrightarrow> i \<notin> fst ` set keys \<Longrightarrow> one_accepted (keys @ [(i, org, g, PS_proposed)])"
  by (auto simp: one_accepted_def)

lemma propose_keeps:
  assumes inv: "one_accepted (plan_keys (w_db w))" and run: "proposePlanInTx ctx g input w = (Inr r, w')"
  shows "one_accepted (plan_keys (w_db w'))"
  using run unfolding proposePlanInTx_def Let_def
proof (elim bind_InrE)
  fix specs w0 now w1 planId w2 goal w3 existing w4 a5 w5 a6 w6 a7 w7
  assume run: "lift_sum id (validatePlanTaskSpecs (pi_task_specs input)) w = (Inr specs, w0)"
    "nowIso ctx w0 = (Inr now, w1)" "generate ctx IP_plan w1 = (Inr planId, w2)"
    "requireGoalInOrg ctx g w2 = (Inr goal, w3)"
    "sel d_plans (\<lambda>p. pl_organizationId p = cx_organizationId ctx \<and> pl_goalId p = g) w3 = (Inr existing, w4)"
    "guard (canProposePlan (gl_status goal) (list_ex (\<lambda>p. pl_status p = PS_accepted) existing))
            (invalidState (''cannot propose a plan while goal is '' @ quoted (goal_status_text (gl_status goal))
                 @ (if list_ex (\<lambda>p. pl_status p = PS_accepted) existing then '' (re-plan requires pause/block first)'' else []))
               [(''goal_status'', JStr (goal_status_text (gl_status goal))),
                (''has_accepted_plan'', JBool (list_ex (\<lambda>p. pl_status p = PS_accepted) existing))]) w4 = (Inr a5, w5)"
    "insert_plan ctx \<lparr>pl_id = planId, pl_organizationId = cx_organizationId ctx, pl_goalId = g,
             pl_version = foldl (\<lambda>m p. max m (pl_version p)) 0 existing + 1, pl_authorType = otherwise (pi_author_type input) Act_user,
             pl_authorId = otherwise (pi_author_id input) (cx_actorUserId ctx),
             pl_rationale = otherwise (pi_rationale input) [], pl_status = PS_proposed, pl_taskSpecs = specs,
             pl_materializedAt = None, pl_materializationEventId = None, pl_createdAt = now, pl_acceptedAt = None\<rparr> w5 = (Inr a6, w6)"
    "emit ctx ((event_of ''goal.plan_proposed'' Act_user (cx_actorUserId ctx) g)\<lparr>
             es_projectId := Some (gl_projectId goal), es_roomId := gl_roomId goal, es_goalId := Some g,
             es_payload := [(''goal_id'', JStr g), (''plan_id'', JStr planId),
               (''version'', JNum (foldl (\<lambda>m p. max m (pl_version p)) 0 existing + 1))]\<rparr>) w6 = (Inr a7, w7)"
    "stored_plan planId w7 = (Inr r, w')"
  have "plan_keys (w_db w5) = plan_keys (w_db w)"
    using leaves_run [OF leaves_lift_sum run(1)] leaves_run [OF leaves_basic(1) run(2)] leaves_run [OF leaves_basic(2) run(3)]
      leaves_run [OF leaves_requireGoal run(4)] leaves_run [OF leaves_basic(3) run(5)] guard_Inr [OF run(6)] by metis
  moreover have "plan_keys (w_db w') = plan_keys (w_db w6)"
    using leaves_run [OF leaves_stored_plan run(9)] leaves_run [OF leaves_emit run(8)] by (metis plan_keys_frames(1))
  ultimately show ?thesis
    using insert_plan_keys [OF run(7)] inv by (simp add: one_accepted_propose)
qed

lemma reject_keys:
  assumes "reject_row ctx planId goal row w = (Inr r, w')"
  shows "plan_keys (w_db w') = map (\<lambda>(i, o1, g, s). (i, o1, g, if i = planId then PS_rejected else s)) (plan_keys (w_db w))"
  using assms unfolding reject_row_def
proof (elim bind_InrE)
  fix a0 w0 a1 w1 a2 w2 a3 w3
  assume run: "guard (pl_status row = PS_proposed)
            (invalidState (''cannot reject a plan in status '' @ quoted (plan_status_text (pl_status row)))
               [(''status'', JStr (plan_status_text (pl_status row)))]) w = (Inr a0, w0)"
    "lift_sum Goal_transition_error (applyPlanTransition (pl_status row) PT_reject) w0 = (Inr a1, w1)"
    "update_rows d_plans_update (\<lambda>p. pl_id p = planId) (\<lambda>p. p\<lparr>pl_status := PS_rejected\<rparr>) w1 = (Inr a2, w2)"
    "emit ctx ((event_of ''goal.plan_rejected'' Act_user (cx_actorUserId ctx) (pl_goalId row))\<lparr>
             es_projectId := Some (gl_projectId goal), es_roomId := gl_roomId goal, es_goalId := Some (pl_goalId row),
             es_payload := [(''goal_id'', JStr (pl_goalId row)), (''plan_id'', JStr planId)]\<rparr>) w2 = (Inr a3, w3)"
    "stored_plan planId w3 = (Inr r, w')"
  have "plan_keys (w_db w1) = plan_keys (w_db w)"
    using guard_Inr [OF run(1)] leaves_run [OF leaves_lift_sum run(2)] by metis
  moreover have "plan_keys (w_db w2) = map (\<lambda>(i, o1, g, s). (i, o1, g, if i = planId then PS_rejected else s)) (plan_keys (w_db w1))"
    using run(3) by (auto simp: update_rows_run plan_keys_def set_rows_def)
  moreover have "plan_keys (w_db w') = plan_keys (w_db w2)"
    using leaves_run [OF leaves_stored_plan run(5)] leaves_run [OF leaves_emit run(4)] by (metis plan_keys_frames(1))
  ultimately show ?thesis by simp
qed

lemma one_accepted_reject:
  "one_accepted keys \<Longrightarrow> one_accepted (map (\<lambda>(i, o1, g, s). (i, o1, g, if i = planId then PS_rejected else s)) keys)"
proof -
  assume inv: "one_accepted keys"
  have ids: "map fst (map (\<lambda>(i, o1, g, s). (i, o1, g, if i = planId then PS_rejected else s)) keys) = map fst keys"
    by (simp add: comp_def split_def)
  show ?thesis unfolding one_accepted_def ids using inv unfolding one_accepted_def by (auto split: if_splits) blast
qed

text \<open>
  The steps of the system as far as plans go: the operations, of whichever organizations, and
  whatever else happens that leaves the plans alone.
\<close>

inductive plan_step :: "world \<Rightarrow> world \<Rightarrow> bool" where
  propose: "plan_step w (snd (proposePlan ctx g input w))"
| reject: "plan_step w (snd (rejectPlan ctx i w))"
| accept: "plan_step w (snd (acceptPlan ctx i w))"
| materialize: "plan_step w (snd (materializePlan ctx i w))"
| other: "d_plans (w_db w') = d_plans (w_db w) \<Longrightarrow> plan_step w w'"

definition plans_inv :: "world \<Rightarrow> bool" where
  "plans_inv w \<longleftrightarrow> one_accepted (plan_keys (w_db w))"

lemma plans_inv_leaves: "leaves plan_keys m \<Longrightarrow> keeps plans_inv m"
  by (rule keepsI) (simp add: plans_inv_def leavesD)

lemma plans_inv_tx:
  "(\<And>w r w'. one_accepted (plan_keys (w_db w)) \<Longrightarrow> m w = (Inr r, w') \<Longrightarrow> one_accepted (plan_keys (w_db w')))
     \<Longrightarrow> keeps plans_inv (transaction m)"
  unfolding plans_inv_def by (rule keeps_tx)

lemma reject_keeps:
  assumes inv: "one_accepted (plan_keys (w_db w))"
    and run: "bind (sel d_plans (plan_matches ctx planId)) (\<lambda>found.
       case first found of
         None \<Rightarrow> ret None
       | Some lookup \<Rightarrow>
           bind (requireGoalInOrg ctx (pl_goalId lookup)) (\<lambda>goal.
           bind (sel d_plans (plan_matches ctx planId)) (\<lambda>rows.
           case first rows of
             None \<Rightarrow> ret None
           | Some row \<Rightarrow> bind (reject_row ctx planId goal row) (\<lambda>plan. ret (Some plan))))) w = (Inr r, w')"
  shows "one_accepted (plan_keys (w_db w'))"
proof (cases "find (plan_matches ctx planId) (d_plans (w_db w))")
  case None
  then show ?thesis using run inv by (simp add: bind_sel first_filter run_basic)
next
  case (Some lookup)
  then obtain goal w1 where goal: "requireGoalInOrg ctx (pl_goalId lookup) w = (Inr goal, w1)"
    and rest: "(case find (plan_matches ctx planId) (d_plans (w_db w1)) of
             None \<Rightarrow> ret None
           | Some row \<Rightarrow> bind (reject_row ctx planId goal row) (\<lambda>plan. ret (Some plan))) w1 = (Inr r, w')"
    using run unfolding bind_sel first_filter by (auto elim!: bind_InrE simp: bind_sel first_filter)
  have w1: "one_accepted (plan_keys (w_db w1))" using leaves_run [OF leaves_requireGoal goal, of plan_keys] inv by simp
  show ?thesis
  proof (cases "find (plan_matches ctx planId) (d_plans (w_db w1))")
    case None
    then show ?thesis using rest w1 by (simp add: run_basic)
  next
    case (Some row)
    then obtain p where rej: "reject_row ctx planId goal row w1 = (Inr p, w')" using rest by (auto elim!: bind_InrE simp: run_basic)
    from one_accepted_reject [OF w1, of planId] show ?thesis unfolding reject_keys [OF rej] .
  qed
qed

lemma plan_step_keeps: "plan_step w w' \<Longrightarrow> plans_inv w \<Longrightarrow> plans_inv w'"
proof (induction rule: plan_step.induct)
  case (propose w ctx g input)
  have "keeps plans_inv (proposePlan ctx g input)"
    unfolding proposePlan_def by (rule plans_inv_tx, rule propose_keeps)
  then show ?case using propose by (rule keepsD)
next
  case (reject w ctx i)
  have "keeps plans_inv (rejectPlan ctx i)"
    unfolding rejectPlan_def by (rule plans_inv_tx, rule reject_keeps)
  then show ?case using reject by (rule keepsD)
next
  case (accept w ctx i)
  have "keeps plans_inv (acceptPlan ctx i)"
    unfolding acceptPlan_def by (intro keeps_bind plans_inv_leaves [OF leaves_basic(1)] plans_inv_tx) (rule accept_keeps)
  then show ?case using accept by (rule keepsD)
next
  case (materialize w ctx i)
  have "keeps plans_inv (materializePlan ctx i)"
    unfolding materializePlan_def by (intro plans_inv_leaves leaves_rules leaves_basic leaves_materialize)
  then show ?case using materialize by (rule keepsD)
next
  case (other w' w)
  then show ?case by (simp add: plans_inv_def plan_keys_def)
qed

lemma plan_steps_keep: "plan_step\<^sup>*\<^sup>* w w' \<Longrightarrow> plans_inv w \<Longrightarrow> plans_inv w'"
  by (induction rule: rtranclp_induct) (auto dest: plan_step_keeps)

lemma plans_inv_start:
  assumes "distinct (map pl_id (d_plans (w_db w)))" and "\<forall>p \<in> set (d_plans (w_db w)). pl_status p \<noteq> PS_accepted"
  shows "plans_inv w"
proof -
  have "map fst (plan_keys (w_db w)) = map pl_id (d_plans (w_db w))" by (simp add: plan_keys_def comp_def)
  moreover have "(i, o1, g, PS_accepted) \<notin> set (plan_keys (w_db w))" for i o1 g
  proof
    assume "(i, o1, g, PS_accepted) \<in> set (plan_keys (w_db w))"
    then obtain p where p: "p \<in> set (d_plans (w_db w))"
      and eq: "(i, o1, g, PS_accepted) = (pl_id p, pl_organizationId p, pl_goalId p, pl_status p)"
      unfolding plan_keys_def set_map by (rule imageE)
    from eq have "pl_status p = PS_accepted" by simp
    then show False using assms(2) p by blast
  qed
  ultimately show ?thesis using assms(1) unfolding plans_inv_def one_accepted_def by simp
qed

lemma plans_inv_unique:
  assumes inv: "plans_inv w" and p: "p \<in> set (d_plans (w_db w))" and q: "q \<in> set (d_plans (w_db w))"
    and "pl_status p = PS_accepted" "pl_status q = PS_accepted"
    and "pl_organizationId p = pl_organizationId q" "pl_goalId p = pl_goalId q"
  shows "p = q"
proof -
  have key: "(pl_id r, pl_organizationId r, pl_goalId r, pl_status r) \<in> set (plan_keys (w_db w))"
    if "r \<in> set (d_plans (w_db w))" for r
    unfolding plan_keys_def set_map by (rule image_eqI [OF refl that])
  have "pl_id p = pl_id q"
    using key [OF p] key [OF q] inv unfolding plans_inv_def one_accepted_def assms(4-7) by blast
  moreover have "map fst (plan_keys (w_db w)) = map pl_id (d_plans (w_db w))" by (simp add: plan_keys_def comp_def)
  then have "distinct (map pl_id (d_plans (w_db w)))" using inv unfolding plans_inv_def one_accepted_def by metis
  ultimately show ?thesis using p q by (meson distinct_map inj_onD)
qed

text \<open>
  Property C19. A goal never has two accepted plans. From a table of plans with distinct ids and no
  goal with two accepted plans, whatever proposals, rejections, acceptances and materializations
  are made, whether they return or throw, and whatever else happens to the other tables, two
  accepted plans of one goal and organization are one and the same.
\<close>

theorem one_accepted_plan:
  assumes "plan_step\<^sup>*\<^sup>* w w'"
    and "distinct (map pl_id (d_plans (w_db w)))"
    and "\<forall>p \<in> set (d_plans (w_db w)). pl_status p \<noteq> PS_accepted"
    and "p \<in> set (d_plans (w_db w'))" "q \<in> set (d_plans (w_db w'))"
    and "pl_status p = PS_accepted" "pl_status q = PS_accepted"
    and "pl_organizationId p = pl_organizationId q" "pl_goalId p = pl_goalId q"
  shows "p = q"
proof -
  have "plans_inv w" using assms(2,3) by (rule plans_inv_start)
  then have "plans_inv w'" by (rule plan_steps_keep [OF assms(1)])
  from plans_inv_unique [OF this assms(4-9)] show ?thesis .
qed

lemma one_accepted_plan_witness:
  "d_plans (w_db (snd (acceptPlan demo_ctx demo_plan_id (demo_proposed [])))) \<noteq> []
    \<and> hd (d_plans (w_db (snd (acceptPlan demo_ctx demo_plan_id (demo_proposed [])))))
      = last (d_plans (w_db (snd (acceptPlan demo_ctx demo_plan_id (demo_proposed [])))))"
proof -
  define w where "w = snd (acceptPlan demo_ctx demo_plan_id (demo_proposed []))"
  have "plan_step\<^sup>*\<^sup>* demo_plan_world (demo_proposed [])"
    unfolding demo_proposed_def by (rule r_into_rtranclp, rule plan_step.propose)
  then have steps: "plan_step\<^sup>*\<^sup>* demo_plan_world w"
    unfolding w_def by (rule rtranclp.rtrancl_into_rtrancl) (rule plan_step.accept)
  have "map (\<lambda>p. (pl_status p, pl_organizationId p, pl_goalId p)) (d_plans (w_db w)) = [(PS_accepted, ''org_1'', ''g1'')]"
    unfolding w_def by code_simp
  then obtain row where rows: "d_plans (w_db w) = [row]" "pl_status row = PS_accepted" by auto
  have none: "d_plans (w_db demo_plan_world) = []" by (simp add: demo_plan_world_def empty_db_def)
  have "hd (d_plans (w_db w)) = last (d_plans (w_db w))"
    by (rule one_accepted_plan [OF steps]) (simp_all add: none rows)
  then show ?thesis unfolding w_def [symmetric] rows(1) by simp
qed

section \<open>The tasks of a materialized plan\<close>

lemma for_each_appends:
  assumes run: "for_each xs f w = (Inr u, w')"
    and each: "\<And>x v v' a. x \<in> set xs \<Longrightarrow> f x v = (Inr a, v') \<Longrightarrow> \<exists>r. table v' = table v @ [r] \<and> R x r"
  shows "\<exists>rows. table w' = table w @ rows \<and> list_all2 R xs rows"
  using assms
proof (induction xs arbitrary: w)
  case Nil
  then show ?case by (auto simp: run_basic)
next
  case (Cons x xs)
  from Cons.prems(1) obtain a w1 where x: "f x w = (Inr a, w1)" and rest: "for_each xs f w1 = (Inr u, w')"
    by (auto elim: bind_InrE)
  obtain r where r: "table w1 = table w @ [r]" "R x r" using Cons.prems(2) [OF list.set_intros(1) x] by blast
  have "\<exists>rows. table w' = table w1 @ rows \<and> list_all2 R xs rows"
    by (rule Cons.IH [OF rest Cons.prems(2)]) (simp_all add: list.set_intros(2))
  then obtain rows where "table w' = table w1 @ rows" "list_all2 R xs rows" by blast
  then show ?case using r by (intro exI [of _ "r # rows"]) simp
qed

lemma insert_task_effect:
  assumes "insert_task ctx row w = (Inr u, w')"
  shows "\<exists>c d. w_db w' = (w_db w)\<lparr>d_tasks := d_tasks (w_db w) @ [row\<lparr>tk_createdAt := c, tk_updatedAt := d\<rparr>]\<rparr>"
proof -
  from assms obtain r v where r: "checked_task ctx row w = (Inr r, v)" and v: "in_db (d_tasks_update (\<lambda>rows. rows @ [r])) v = (Inr u, w')"
    unfolding insert_task_def by (elim bind_InrE)
  have "reads (checked_task ctx row)"
    unfolding checked_task_def unique_def refers_def refers_opt_def refers_own_def by (intro reads_rules)
  then have "v = w" using r by (rule readsD)
  moreover have "\<exists>c d. r = row\<lparr>tk_createdAt := c, tk_updatedAt := d\<rparr>"
    using r unfolding checked_task_def by (elim bind_InrE) (simp only: run_basic prod.inject sum.inject, blast)
  moreover have "w_db w' = (w_db v)\<lparr>d_tasks := d_tasks (w_db v) @ [r]\<rparr>" using v by (auto simp: in_db_run)
  ultimately show ?thesis by blast
qed

text \<open>The row a spec becomes.\<close>

definition spec_task :: "goal_row \<Rightarrow> ident \<Rightarrow> nat \<times> ident \<times> task_spec \<Rightarrow> task_row \<Rightarrow> bool" where
  "spec_task goal planId p t = (case p of (i, taskId, spec) \<Rightarrow>
     tk_id t = taskId \<and> tk_organizationId t = gl_organizationId goal \<and> tk_projectId t = gl_projectId goal
     \<and> tk_goalId t = Some (gl_id goal) \<and> tk_sourcePlanId t = Some planId \<and> tk_sourcePlanSpecRef t = Some (String_of i)
     \<and> tk_title t = ts_title spec \<and> tk_acceptanceCriteria t = ts_acceptance_criteria spec
     \<and> tk_requiredCapabilities t = ts_required_capabilities spec \<and> tk_status t = TS_backlog)"

lemma materialize_spec_task:
  assumes run: "materialize_spec ctx goal planId now p w = (Inr u, w')"
  shows "\<exists>t. d_tasks (w_db w') = d_tasks (w_db w) @ [t] \<and> spec_task goal planId p t"
proof -
  obtain i taskId spec where p: "p = (i, taskId, spec)" by (cases p) auto
  define row where "row roomId = \<lparr>tk_id = taskId, tk_organizationId = gl_organizationId goal,
                tk_projectId = gl_projectId goal, tk_parentTaskId = None, tk_executionPolicyTaskId = None,
                tk_roomId = Some roomId, tk_goalId = Some (gl_id goal), tk_sourcePlanId = Some planId,
                tk_sourcePlanSpecRef = Some (String_of i), tk_title = ts_title spec,
                tk_description = ts_description spec, tk_status = TS_backlog, tk_priority = gl_priority goal,
                tk_assigneeType = None, tk_assigneeId = None, tk_requiredCapabilities = ts_required_capabilities spec,
                tk_preferredModelProfileId = None, tk_preferredEffort = None,
                tk_acceptanceCriteria = ts_acceptance_criteria spec, tk_createdByType = By_system,
                tk_createdById = ''plan_materializer'', tk_createdAt = now, tk_updatedAt = now\<rparr>" for roomId
  have spec: "spec_task goal planId p ((row x)\<lparr>tk_createdAt := c, tk_updatedAt := d\<rparr>)" for x c d
    by (simp add: spec_task_def p row_def)
  from run have "materialize_spec ctx goal planId now (i, taskId, spec) w = (Inr u, w')" by (simp only: p)
  then show ?thesis
    unfolding materialize_spec_def prod.case
  proof (elim bind_InrE)
    fix roomId v1 a2 v2 a3 v3 a4 v4
    assume gen: "generate ctx IP_room w = (Inr roomId, v1)"
      and ins: "insert_task ctx \<lparr>tk_id = taskId, tk_organizationId = gl_organizationId goal,
                tk_projectId = gl_projectId goal, tk_parentTaskId = None, tk_executionPolicyTaskId = None,
                tk_roomId = Some roomId, tk_goalId = Some (gl_id goal), tk_sourcePlanId = Some planId,
                tk_sourcePlanSpecRef = Some (String_of i), tk_title = ts_title spec,
                tk_description = ts_description spec, tk_status = TS_backlog, tk_priority = gl_priority goal,
                tk_assigneeType = None, tk_assigneeId = None, tk_requiredCapabilities = ts_required_capabilities spec,
                tk_preferredModelProfileId = None, tk_preferredEffort = None,
                tk_acceptanceCriteria = ts_acceptance_criteria spec, tk_createdByType = By_system,
                tk_createdById = ''plan_materializer'', tk_createdAt = now, tk_updatedAt = now\<rparr> v1 = (Inr a2, v2)"
      and room: "insert_room ctx \<lparr>rm_id = roomId, rm_organizationId = gl_organizationId goal,
                rm_projectId = Some (gl_projectId goal), rm_taskId = Some taskId, rm_goalId = Some (gl_id goal),
                rm_type = RT_task, rm_name = take 200 (ts_title spec), rm_description = [], rm_createdAt = now\<rparr> v2 = (Inr a3, v3)"
      and e1: "emit ctx ((event_of ''task.created'' Act_system ''plan_materializer'' (gl_id goal))\<lparr>
                es_projectId := Some (gl_projectId goal), es_taskId := Some taskId, es_roomId := Some roomId,
                es_goalId := Some (gl_id goal),
                es_payload := [(''title'', JStr (ts_title spec)), (''source_plan_id'', JStr planId),
                  (''source_plan_spec_ref'', JStr (String_of i))]\<rparr>) v3 = (Inr a4, v4)"
      and e2: "emit ctx ((event_of ''room.created'' Act_system ''plan_materializer'' (gl_id goal))\<lparr>
                es_projectId := Some (gl_projectId goal), es_taskId := Some taskId, es_roomId := Some roomId,
                es_goalId := Some (gl_id goal)\<rparr>) v4 = (Inr u, w')"
    obtain c d where "w_db v2 = (w_db v1)\<lparr>d_tasks := d_tasks (w_db v1) @ [(row roomId)\<lparr>tk_createdAt := c, tk_updatedAt := d\<rparr>]\<rparr>"
      using insert_task_effect [OF ins] unfolding row_def by blast
    then have "d_tasks (w_db v2) = d_tasks (w_db v1) @ [(row roomId)\<lparr>tk_createdAt := c, tk_updatedAt := d\<rparr>]" by simp
    moreover have "d_tasks (w_db v1) = d_tasks (w_db w)" by (rule leaves_run [OF leaves_basic(2) gen])
    moreover have "d_tasks (w_db v3) = d_tasks (w_db v2)" by (rule leaves_run [OF leaves_insert_room room]) simp_all
    moreover have "d_tasks (w_db v4) = d_tasks (w_db v3)" by (rule leaves_run [OF leaves_emit e1]) simp
    moreover have "d_tasks (w_db w') = d_tasks (w_db v4)" by (rule leaves_run [OF leaves_emit e2]) simp
    ultimately have "d_tasks (w_db w') = d_tasks (w_db w) @ [(row roomId)\<lparr>tk_createdAt := c, tk_updatedAt := d\<rparr>]" by simp
    with spec show ?thesis by blast
  qed
qed

lemma materialize_edge_row:
  assumes run: "materialize_edge ctx goal now e w = (Inr u, w')"
  shows "\<exists>d. d_deps (w_db w') = d_deps (w_db w) @ [d] \<and> row_edge d = e \<and> dp_organizationId d = gl_organizationId goal"
proof -
  from run obtain i v where gen: "generate ctx IP_dependency w = (Inr i, v)"
    and ins: "insert_dependency ctx \<lparr>dp_id = i, dp_organizationId = gl_organizationId goal, dp_fromTaskId = from_task_id e,
       dp_toTaskId = to_task_id e, dp_type = edge_type e, dp_createdAt = now\<rparr> v = (Inr u, w')"
    unfolding materialize_edge_def by (elim bind_InrE)
  have "d_deps (w_db v) = d_deps (w_db w)" by (rule leaves_run [OF leaves_basic(2) gen])
  moreover have "\<exists>c. d_deps (w_db w') = d_deps (w_db v) @ [\<lparr>dp_id = i, dp_organizationId = gl_organizationId goal,
       dp_fromTaskId = from_task_id e, dp_toTaskId = to_task_id e, dp_type = edge_type e, dp_createdAt = c\<rparr>]"
    using ins unfolding insert_dependency_def
    by (auto elim!: bind_InrE simp: in_db_run refuse_if_result ts_value_result split: if_splits option.splits)
  ultimately show ?thesis by (auto simp: row_edge_def)
qed

end
