(* ===== verification/Lifecycle_Service.thy ===== *)
theory Lifecycle_Service
  imports Execution_Policy Plan_Service
begin

text \<open>
  \<open>apps/server/src/services/lifecycle-service.ts\<close> without the assignment of a task (which needs
  tables that are not modelled), and \<open>sync-service.ts\<close>: a task becomes ready, is reviewed and is
  retried, under the rules of its goal; a client that pins the version of the task it has seen is
  refused when the task has moved on.
\<close>

section \<open>The task a client gets\<close>

record task =
  tsk_id :: ident
  tsk_organization_id :: ident
  tsk_project_id :: ident
  tsk_parent_task_id :: "ident option"
  tsk_room_id :: "ident option"
  tsk_title :: string
  tsk_description :: string
  tsk_status :: task_status
  tsk_priority :: priority
  tsk_assignee_type :: "assignee_type option"
  tsk_assignee_id :: "ident option"
  tsk_required_capabilities :: "string list"
  tsk_preferred_model_profile_id :: "ident option"
  tsk_preferred_effort :: "effort option"
  tsk_acceptance_criteria :: "string list"
  tsk_created_by_type :: created_by_type
  tsk_created_by_id :: ident
  tsk_created_at :: iso_time
  tsk_updated_at :: iso_time

text \<open>
  \<open>TaskSchema.parse\<close>: the capabilities of a stored task are texts, the schema wants those of the
  enumeration.
\<close>

definition mapTask :: "task_row \<Rightarrow> server_error + task" where
  "mapTask r =
     (if \<not> list_all (\<lambda>c. List.member CAPABILITIES c) (tk_requiredCapabilities r) then Inl zod_error
      else Inr \<lparr>tsk_id = tk_id r, tsk_organization_id = tk_organizationId r, tsk_project_id = tk_projectId r,
        tsk_parent_task_id = tk_parentTaskId r, tsk_room_id = tk_roomId r, tsk_title = tk_title r,
        tsk_description = tk_description r, tsk_status = tk_status r, tsk_priority = tk_priority r,
        tsk_assignee_type = tk_assigneeType r, tsk_assignee_id = tk_assigneeId r,
        tsk_required_capabilities = tk_requiredCapabilities r,
        tsk_preferred_model_profile_id = tk_preferredModelProfileId r, tsk_preferred_effort = tk_preferredEffort r,
        tsk_acceptance_criteria = tk_acceptanceCriteria r, tsk_created_by_type = tk_createdByType r,
        tsk_created_by_id = tk_createdById r, tsk_created_at = tk_createdAt r, tsk_updated_at = tk_updatedAt r\<rparr>)"

text \<open>The end of every operation: the row is read again and mapped.\<close>

definition stored_task :: "string \<Rightarrow> ident \<Rightarrow> task srv" where
  "stored_task caller i =
     bind (sel d_tasks (\<lambda>t. tk_id t = i)) (\<lambda>rows.
     case first rows of
       None \<Rightarrow> throw (Plain_error (caller @ '': task missing after transition''))
     | Some updated \<Rightarrow> lift_sum id (mapTask updated))"

definition task_not_found :: "ident \<Rightarrow> server_error" where
  "task_not_found i = notFound (''task not found: '' @ i) [(''task_id'', JStr i)]"

text \<open>The \<open>task.updated\<close> event of the acting user.\<close>

definition task_event :: "server_context \<Rightarrow> string \<Rightarrow> task_row \<Rightarrow> json_object \<Rightarrow> event_spec" where
  "task_event ctx ty row payload = (event_of ty Act_user (cx_actorUserId ctx) (tk_id row))\<lparr>
     es_projectId := Some (tk_projectId row), es_taskId := Some (tk_id row), es_roomId := tk_roomId row,
     es_payload := payload\<rparr>"

section \<open>Versions\<close>

definition top_position :: "event_row list \<Rightarrow> nat" where
  "top_position rows = (case first (order_desc ev_position rows) of None \<Rightarrow> 0 | Some e \<Rightarrow> ev_position e)"

definition maxOrgPosition :: "ident \<Rightarrow> nat srv" where
  "maxOrgPosition org = bind (sel d_events (\<lambda>e. ev_organizationId e = org)) (\<lambda>rows. ret (top_position rows))"

definition maxTaskPosition :: "ident \<Rightarrow> ident \<Rightarrow> nat srv" where
  "maxTaskPosition org taskId =
     bind (sel d_events (\<lambda>e. ev_organizationId e = org \<and> ev_taskId e = Some taskId)) (\<lambda>rows. ret (top_position rows))"

definition currentCursor :: "server_context \<Rightarrow> nat srv" where
  "currentCursor ctx = maxOrgPosition (cx_organizationId ctx)"

definition currentTaskVersion :: "server_context \<Rightarrow> ident \<Rightarrow> nat srv" where
  "currentTaskVersion ctx taskId = maxTaskPosition (cx_organizationId ctx) taskId"

definition assertFreshTaskBaseVersion :: "ident \<Rightarrow> ident \<Rightarrow> int option \<Rightarrow> unit srv" where
  "assertFreshTaskBaseVersion org taskId baseVersion =
     (case baseVersion of
        None \<Rightarrow> skip
      | Some base \<Rightarrow>
          bind (maxTaskPosition org taskId) (\<lambda>current.
          guard (\<not> base < int current)
            (conflict_error ''task changed since base_version; refetch and retry''
              [(''reason'', JStr ''stale_base_version''), (''base_version'', JNum base),
               (''current_version'', JNum (int current)),
               (''resource'', JObj [(''type'', JStr ''task''), (''id'', JStr taskId)])])))"

section \<open>What the goal and its plan allow\<close>

definition assertTaskPlanControlsSupported :: "server_context \<Rightarrow> task_row \<Rightarrow> unit srv" where
  "assertTaskPlanControlsSupported ctx task =
     (case tk_sourcePlanId task of
        None \<Rightarrow> skip
      | Some planId \<Rightarrow>
          let unverified = (\<lambda>more. validation (''Cannot verify the source plan'' @ [CHR 0x27] @ ''s task controls'')
                ((''source_plan_id'', JStr planId) # more)) in
          bind (sel d_plans (plan_matches ctx planId)) (\<lambda>rows.
          case (first rows, tk_sourcePlanSpecRef task) of
            (Some plan, Some ref) \<Rightarrow>
              (case integer_of ref of
                 None \<Rightarrow> throw (unverified [])
               | Some index \<Rightarrow>
                   if index < 0 \<or> String_of (nat index) \<noteq> ref then throw (unverified [])
                   else if length (pl_taskSpecs plan) \<le> nat index
                     \<or> \<not> valid_task_spec (pl_taskSpecs plan ! nat index)
                   then throw (unverified [(''spec_index'', JNum index)])
                   else bind (lift_sum id (assertSupportedPlanTaskControls (pl_taskSpecs plan ! nat index) (nat index)))
                          (\<lambda>_. skip))
          | _ \<Rightarrow> throw (unverified [])))"

datatype execution_operation = Op_assign | Op_retry

text \<open>The statuses that forbid execution.\<close>

definition goal_stopped :: "goal_status \<Rightarrow> bool" where
  "goal_stopped s = List.member [GS_paused, GS_cancelled, GS_completed, GS_archived, GS_awaiting_approval] s"

definition budget_details :: "ident \<Rightarrow> string \<Rightarrow> rat \<Rightarrow> int \<Rightarrow> json_object" where
  "budget_details goalId budget limit actual = [(''goal_id'', JStr goalId), (''budget'', JStr budget),
     (''limit'', json_number limit), (''actual'', JNum actual)]"

definition over_limit :: "rat option \<Rightarrow> int \<Rightarrow> bool" where
  "over_limit limit n = (case limit of None \<Rightarrow> False | Some l \<Rightarrow> l < of_int n)"

definition check_elapsed :: "server_context \<Rightarrow> goal_row \<Rightarrow> goal_budgets \<Rightarrow> unit srv" where
  "check_elapsed ctx goal budgets =
     (case (max_elapsed_ms budgets, gl_runningSince goal) of
        (Some limit, Some since) \<Rightarrow>
          bind (nowIso ctx) (\<lambda>now.
          case elapsed_since ctx now since of
            None \<Rightarrow> skip
          | Some elapsed \<Rightarrow>
              guard (\<not> limit \<le> of_int elapsed)
                (conflict_error ''Goal elapsed time budget has been reached''
                  (budget_details (gl_id goal) ''max_elapsed_ms'' limit elapsed)))
      | _ \<Rightarrow> skip)"

definition check_retries :: "goal_row \<Rightarrow> goal_budgets \<Rightarrow> execution_operation \<Rightarrow> unit srv" where
  "check_retries goal budgets operation =
     (let retries = gl_retryCount goal + (if operation = Op_retry then 1 else 0) in
      guard (\<not> over_limit (max_retries budgets) retries)
        (conflict_error ''Goal retry budget would be exceeded''
          (budget_details (gl_id goal) ''max_retries'' (otherwise (max_retries budgets) 0) retries)))"

definition check_concurrency :: "server_context \<Rightarrow> goal_row \<Rightarrow> goal_budgets \<Rightarrow> execution_operation \<Rightarrow> unit srv" where
  "check_concurrency ctx goal budgets operation =
     (case (operation, max_concurrent_runs budgets) of
        (Op_assign, Some limit) \<Rightarrow>
          bind (unsettledGoalRunIds ctx (gl_id goal)) (\<lambda>active.
          guard (\<not> limit \<le> of_nat (length active))
            (conflict_error ''Goal concurrent run limit has been reached''
              (budget_details (gl_id goal) ''max_concurrent_runs'' limit (int (length active) + 1))))
      | _ \<Rightarrow> skip)"

definition assertGoalAllowsExecution ::
  "server_context \<Rightarrow> ident option \<Rightarrow> execution_operation \<Rightarrow> ident option \<Rightarrow> string list option srv" where
  "assertGoalAllowsExecution ctx goalId operation sourcePlanId =
     (if otherwise goalId [] = [] then ret None
      else
        bind (sel d_goals (goal_matches ctx (otherwise goalId []))) (\<lambda>rows.
        case first rows of
          None \<Rightarrow> ret None
        | Some goal \<Rightarrow>
            bind (guard (\<not> (sourcePlanId \<noteq> None \<and> sourcePlanId \<noteq> gl_currentPlanId goal))
                   (invalidState (''This task belongs to a superseded plan; use the current plan'' @ [CHR 0x27] @ ''s tasks'')
                     [(''goal_id'', JStr (gl_id goal)), (''source_plan_id'', jopt sourcePlanId),
                      (''current_plan_id'', jopt (gl_currentPlanId goal))])) (\<lambda>_.
            bind (guard (\<not> goal_stopped (gl_status goal))
                   (invalidState (''goal is '' @ quoted (goal_status_text (gl_status goal))
                        @ ''; resume the goal before assigning or retrying tasks'')
                     [(''goal_id'', JStr (gl_id goal)), (''status'', JStr (goal_status_text (gl_status goal)))])) (\<lambda>_.
            bind (lift_sum id (supportedGoalPolicy (gl_budgets goal) (gl_stopConditions goal))) (\<lambda>policy.
            let budgets = fst policy in
            bind (check_elapsed ctx goal budgets) (\<lambda>_.
            bind (check_retries goal budgets operation) (\<lambda>_.
            bind (check_concurrency ctx goal budgets operation) (\<lambda>_.
            ret (allowed_runtimes budgets)))))))))"

section \<open>Ready\<close>

text \<open>The dependencies of a task joined with the tasks they come from.\<close>

definition joined_rows :: "server_context \<Rightarrow> database \<Rightarrow> ident \<Rightarrow> (dependency_row \<times> task_row) list" where
  "joined_rows ctx db taskId =
     filter (\<lambda>(d, t). dp_organizationId d = cx_organizationId ctx \<and> dp_toTaskId d = taskId)
       (inner_join (\<lambda>d t. dp_fromTaskId d = tk_id t) (d_deps db) (d_tasks db))"

definition incoming_rows :: "server_context \<Rightarrow> ident \<Rightarrow> (dependency_row \<times> task_row) list srv" where
  "incoming_rows ctx taskId = gets (\<lambda>w. joined_rows ctx (w_db w) taskId)"

definition ready_transition :: "server_context \<Rightarrow> task_row \<Rightarrow> ident \<Rightarrow> iso_time \<Rightarrow> task_transition_params" where
  "ready_transition ctx row taskId now = \<lparr>tp_taskId = taskId, tp_from = tk_status row, tp_trigger = TT_triage, tp_now = now,
     tp_events = Some (\<lambda>to. build_all ctx [task_event ctx ''task.updated'' row [(''status'', task_status_json to)]])\<rparr>"

definition ready_tx :: "server_context \<Rightarrow> ident \<Rightarrow> iso_time \<Rightarrow> task srv" where
  "ready_tx ctx taskId now =
     bind (find_task ctx taskId) (\<lambda>found.
     case found of
       None \<Rightarrow> throw (task_not_found taskId)
     | Some row \<Rightarrow>
         bind (guard (length (tk_acceptanceCriteria row) \<noteq> 0)
                (validation ''acceptance_criteria must be non-empty to mark a task ready'' [])) (\<lambda>_.
         bind (incoming_rows ctx taskId) (\<lambda>dependencyRows.
         bind (isDependentSatisfied ctx (map (\<lambda>p. row_edge (fst p)) dependencyRows)
                (fold (\<lambda>p m. m(dp_fromTaskId (fst p) \<mapsto> tk_status (snd p))) dependencyRows Map.empty)) (\<lambda>ok.
         bind (guard ok (invalidState ''upstream gating dependencies are not all satisfied'' [])) (\<lambda>_.
         bind (guard (canTransitionTask (tk_status row) TT_triage)
                (invalidState (''cannot mark ready from '' @ quoted (task_status_text (tk_status row)))
                  [(''status'', JStr (task_status_text (tk_status row)))])) (\<lambda>_.
         bind (transitionTask ctx (ready_transition ctx row taskId now)) (\<lambda>_.
         stored_task ''markReady'' taskId)))))))"

definition markReady :: "server_context \<Rightarrow> ident \<Rightarrow> task srv" where
  "markReady ctx taskId = bind (nowIso ctx) (\<lambda>now. transaction (ready_tx ctx taskId now))"

section \<open>Retry and review\<close>

definition incrementLinkedGoalRetryCount :: "server_context \<Rightarrow> ident \<Rightarrow> iso_time \<Rightarrow> unit srv" where
  "incrementLinkedGoalRetryCount ctx goalId now =
     bind (ts_value ctx now) (\<lambda>updated.
     update_rows d_goals_update (goal_matches ctx goalId)
       (\<lambda>g. g\<lparr>gl_retryCount := gl_retryCount g + 1, gl_updatedAt := updated\<rparr>))"

text \<open>The checks before a task is sent back to ready.\<close>

definition assert_retry_allowed :: "server_context \<Rightarrow> task_row \<Rightarrow> unit srv" where
  "assert_retry_allowed ctx row =
     bind (resolveExecutionPolicyTask ctx row) (\<lambda>policyTask.
     bind (assertGoalAllowsExecution ctx (tk_goalId policyTask) Op_retry (tk_sourcePlanId policyTask)) (\<lambda>_.
     assertTaskPlanControlsSupported ctx policyTask))"

definition retryTask :: "server_context \<Rightarrow> ident \<Rightarrow> task srv" where
  "retryTask ctx taskId =
     bind (nowIso ctx) (\<lambda>now.
     transaction (
       bind (find_task ctx taskId) (\<lambda>found.
       case found of
         None \<Rightarrow> throw (task_not_found taskId)
       | Some row \<Rightarrow>
           bind (guard (canTransitionTask (tk_status row) TT_retry)
                  (invalidState (''cannot retry from '' @ quoted (task_status_text (tk_status row)))
                    [(''status'', JStr (task_status_text (tk_status row)))])) (\<lambda>_.
           bind (assert_retry_allowed ctx row) (\<lambda>_.
           bind (transitionTask ctx \<lparr>tp_taskId = taskId, tp_from = tk_status row, tp_trigger = TT_retry, tp_now = now,
                   tp_events = Some (\<lambda>to. build_all ctx
                     [task_event ctx ''task.updated'' row [(''status'', task_status_json to), (''retried'', JBool True)]])\<rparr>) (\<lambda>transition.
           bind (case tk_goalId row of
                   None \<Rightarrow> skip
                 | Some goalId \<Rightarrow>
                     if tres_changed transition then incrementLinkedGoalRetryCount ctx goalId now else skip) (\<lambda>_.
           stored_task ''retryTask'' taskId)))))))"

definition completeGoalIfAllTasksDone :: "server_context \<Rightarrow> ident \<Rightarrow> iso_time \<Rightarrow> unit srv" where
  "completeGoalIfAllTasksDone ctx goalId now =
     bind (sel d_goals (\<lambda>g. goal_matches ctx goalId g \<and> gl_status g = GS_running)) (\<lambda>rows.
     case first rows of
       None \<Rightarrow> skip
     | Some goal \<Rightarrow>
         bind (sel d_tasks (\<lambda>t. tk_organizationId t = cx_organizationId ctx \<and> tk_goalId t = Some goalId
                 \<and> (gl_currentPlanId goal = None \<or> tk_sourcePlanId t = None
                    \<or> tk_sourcePlanId t = gl_currentPlanId goal))) (\<lambda>childTasks.
         if length childTasks = 0 \<or> list_ex (\<lambda>t. tk_status t \<noteq> TS_done) childTasks then skip
         else
           bind (lift_sum Goal_transition_error (applyGoalTransition GS_running GT_all_tasks_terminal)) (\<lambda>to.
           bind (ts_value ctx now) (\<lambda>updated.
           bind (update_goals (\<lambda>g. goal_matches ctx goalId g \<and> gl_status g = GS_running)
                   (\<lambda>g. g\<lparr>gl_status := to, gl_updatedAt := updated\<rparr>)) (\<lambda>changed.
           if length changed = 0 then skip
           else emit ctx (goal_event ''goal.completed'' Act_system ''goal_aggregator'' goal
                  [(''goal_id'', JStr goalId), (''from'', JStr ''running''), (''to'', JStr (goal_status_text to)),
                   (''trigger'', JStr ''all_tasks_terminal'')]))))))"

datatype review_outcome = Rev_accepted | Rev_changes_requested

record review_request =
  rv_outcome :: review_outcome
  rv_comment :: "string option"

fun review_outcome_text :: "review_outcome \<Rightarrow> string" where
  "review_outcome_text Rev_accepted = ''accepted''"
| "review_outcome_text Rev_changes_requested = ''changes_requested''"

definition assert_children_ended :: "server_context \<Rightarrow> ident \<Rightarrow> unit srv" where
  "assert_children_ended ctx taskId =
     bind (sel d_tasks (\<lambda>t. tk_parentTaskId t = Some taskId \<and> tk_organizationId t = cx_organizationId ctx)) (\<lambda>children.
     let pending = filter (\<lambda>c. tk_status c \<noteq> TS_done \<and> tk_status c \<noteq> TS_cancelled) children in
     guard (length pending = 0)
       (invalidState ''cannot accept parent task until all child tasks are done or cancelled''
         [(''open_children'', JNum (int (length pending)))]))"

text \<open>What follows the transition out of review.\<close>

definition after_review :: "server_context \<Rightarrow> task_row \<Rightarrow> review_outcome \<Rightarrow> iso_time \<Rightarrow> unit srv" where
  "after_review ctx row outcome now =
     (if outcome = Rev_accepted
      then
        bind (unlockDownstream ctx (tk_id row)) (\<lambda>_.
        case tk_goalId row of None \<Rightarrow> skip | Some goalId \<Rightarrow> completeGoalIfAllTasksDone ctx goalId now)
      else (case tk_goalId row of None \<Rightarrow> skip | Some goalId \<Rightarrow> incrementLinkedGoalRetryCount ctx goalId now))"

text \<open>The transition out of review, with its two events.\<close>

definition review_transition ::
  "server_context \<Rightarrow> ident \<Rightarrow> review_request \<Rightarrow> iso_time \<Rightarrow> task_row \<Rightarrow> artifact_row list \<Rightarrow> task_transition_params" where
  "review_transition ctx taskId req now row artifactRows =
     \<lparr>tp_taskId = taskId, tp_from = TS_review,
      tp_trigger = (if rv_outcome req = Rev_accepted then TT_accept else TT_request_changes), tp_now = now,
      tp_events = Some (\<lambda>to. build_all ctx
        [task_event ctx ''review.completed'' row
           [(''outcome'', JStr (review_outcome_text (rv_outcome req))), (''comment'', jopt (rv_comment req)),
            (''artifact_ids'', JArr (map (\<lambda>a. JStr (at_id a)) artifactRows))],
         task_event ctx ''task.updated'' row [(''status'', task_status_json to)]])\<rparr>"

definition review_tx :: "server_context \<Rightarrow> ident \<Rightarrow> review_request \<Rightarrow> int option \<Rightarrow> iso_time \<Rightarrow> task srv" where
  "review_tx ctx taskId req baseVersion now =
     bind (find_task ctx taskId) (\<lambda>found.
     case found of
       None \<Rightarrow> throw (task_not_found taskId)
     | Some row \<Rightarrow>
         bind (assertFreshTaskBaseVersion (cx_organizationId ctx) taskId baseVersion) (\<lambda>_.
         bind (guard (tk_status row = TS_review)
                (invalidState (''task must be '' @ quoted ''review'' @ '' to review (is ''
                    @ quoted (task_status_text (tk_status row)) @ '')'')
                  [(''status'', JStr (task_status_text (tk_status row)))])) (\<lambda>_.
         bind (if rv_outcome req = Rev_accepted then skip else assert_retry_allowed ctx row) (\<lambda>_.
         bind (if rv_outcome req = Rev_accepted then assert_children_ended ctx taskId else skip) (\<lambda>_.
         bind (sel d_artifacts (\<lambda>a. at_organizationId a = cx_organizationId ctx \<and> at_taskId a = taskId)) (\<lambda>unordered.
         bind (transitionTask ctx (review_transition ctx taskId req now row (order_asc at_id unordered))) (\<lambda>result.
         bind (guard (tres_changed result) (conflict_error ''task is no longer in review'' [])) (\<lambda>_.
         bind (after_review ctx row (rv_outcome req) now) (\<lambda>_.
         stored_task ''reviewTask'' taskId)))))))))"

definition reviewTask :: "server_context \<Rightarrow> ident \<Rightarrow> review_request \<Rightarrow> int option \<Rightarrow> task srv" where
  "reviewTask ctx taskId req baseVersion =
     bind (nowIso ctx) (\<lambda>now. transaction (review_tx ctx taskId req baseVersion now))"

section \<open>Errors of the database\<close>

text \<open>An operation whose only errors are those of the database driver.\<close>

definition driver_errors :: "'a srv \<Rightarrow> bool" where
  "driver_errors m \<longleftrightarrow> (\<forall>w e w'. m w = (Inl e, w') \<longrightarrow> (\<exists>msg. e = Db_error msg))"

named_theorems driver_rules \<open>operations that fail by the database only\<close>

lemma driver_errorsD: "driver_errors m \<Longrightarrow> m w = (Inl e, w') \<Longrightarrow> \<exists>msg. e = Db_error msg"
  unfolding driver_errors_def by blast

lemma driver_basic [driver_rules]: "driver_errors (ret a)" "driver_errors skip" "driver_errors (sel table P)"
  "driver_errors (nowIso ctx)" "driver_errors (generate ctx p)" "driver_errors (in_db g)" "driver_errors nextval"
  "driver_errors (ts_value ctx t)" "driver_errors (refuse_if bad m)"
  by (auto simp: driver_errors_def run_basic sel_def gets_def nowIso_def generate_def in_db_def modify_def nextval_def
      ts_value_result refuse_if_result split: option.splits if_splits)

lemma driver_bind [driver_rules]: "driver_errors m \<Longrightarrow> (\<And>a. driver_errors (f a)) \<Longrightarrow> driver_errors (bind m f)"
  unfolding driver_errors_def bind_Inl by blast

lemma driver_if [driver_rules]:
  "(b \<Longrightarrow> driver_errors m) \<Longrightarrow> (\<not> b \<Longrightarrow> driver_errors m') \<Longrightarrow> driver_errors (if b then m else m')"
  by simp

lemma driver_option [driver_rules]:
  "(v = None \<Longrightarrow> driver_errors m) \<Longrightarrow> (\<And>x. v = Some x \<Longrightarrow> driver_errors (f x))
     \<Longrightarrow> driver_errors (case v of None \<Rightarrow> m | Some x \<Rightarrow> f x)"
  by (cases v) simp_all

lemma driver_for_each [driver_rules]: "(\<And>x. x \<in> set xs \<Longrightarrow> driver_errors (f x)) \<Longrightarrow> driver_errors (for_each xs f)"
  by (induction xs) (simp_all add: driver_rules)

lemma driver_for_fold [driver_rules]:
  "(\<And>acc x. x \<in> set xs \<Longrightarrow> driver_errors (f acc x)) \<Longrightarrow> driver_errors (for_fold xs acc f)"
  by (induction xs arbitrary: acc) (simp_all add: driver_rules)

lemma driver_build_all [driver_rules]: "driver_errors (build_all ctx specs)"
  unfolding build_all_def buildEvent_def by (intro driver_rules)

lemma driver_appendEvent [driver_rules]: "driver_errors (appendEvent ctx input)"
  unfolding appendEvent_def by (intro driver_rules)

text \<open>A transition along the table, with events of the usual kind.\<close>

lemma transitionTask_errors:
  assumes "transitionTask ctx \<lparr>tp_taskId = i, tp_from = s, tp_trigger = t, tp_now = n,
      tp_events = Some (\<lambda>to. build_all ctx (specs to))\<rparr> w = (Inl e, w')"
    and "applyTaskTransition s t = Inr to"
  shows "\<exists>msg. e = Db_error msg"
proof -
  have "driver_errors (transitionTask ctx \<lparr>tp_taskId = i, tp_from = s, tp_trigger = t, tp_now = n,
      tp_events = Some (\<lambda>to. build_all ctx (specs to))\<rparr>)"
    unfolding transitionTask_def update_tasks_def Let_def
    by (simp add: assms(2) lift_sum_def bind_def [where m = "ret _"] run_basic)
       (intro driver_rules)
  then show ?thesis using assms(1) by (rule driver_errorsD)
qed

section \<open>When a task becomes ready\<close>

text \<open>Every gating dependency of the task is satisfied: its prerequisite is done and its evidence there.\<close>

definition prerequisites_met :: "server_context \<Rightarrow> database \<Rightarrow> ident \<Rightarrow> bool" where
  "prerequisites_met ctx db i \<longleftrightarrow>
     (\<forall>d \<in> set (d_deps db). \<forall>t \<in> set (d_tasks db).
        dp_organizationId d = cx_organizationId ctx \<and> dp_toTaskId d = i \<and> dp_fromTaskId d = tk_id t
        \<and> dp_type d \<noteq> DT_soft_context
        \<longrightarrow> tk_status t = TS_done
          \<and> (case requiredEvidenceKind (dp_type d) of None \<Rightarrow> True | Some k \<Rightarrow> has_evidence ctx db (tk_id t) k))"

definition may_become_ready :: "server_context \<Rightarrow> database \<Rightarrow> ident \<Rightarrow> bool" where
  "may_become_ready ctx db i \<longleftrightarrow> prerequisites_met ctx db i
     \<and> (case find (\<lambda>t. tk_id t = i) (org_tasks ctx db) of
          None \<Rightarrow> False
        | Some t \<Rightarrow> tk_status t = TS_backlog \<and> tk_acceptanceCriteria t \<noteq> []
            \<and> set (tk_requiredCapabilities t) \<subseteq> set CAPABILITIES)"

lemma mapTask_Inr: "mapTask r = Inr t \<Longrightarrow>
    tsk_id t = tk_id r \<and> tsk_status t = tk_status r \<and> set (tk_requiredCapabilities r) \<subseteq> set CAPABILITIES"
  by (auto simp: mapTask_def list_all_iff subset_iff split: if_splits)

lemma mapTask_Inl: "mapTask r = Inl e \<Longrightarrow> \<not> set (tk_requiredCapabilities r) \<subseteq> set CAPABILITIES"
  by (auto simp: mapTask_def list_all_iff split: if_splits)

lemma joined_status:
  assumes "\<And>p q. p \<in> set ps \<Longrightarrow> q \<in> set ps \<Longrightarrow> dp_fromTaskId (fst p) = dp_fromTaskId (fst q) \<Longrightarrow> snd p = snd q"
    and "p \<in> set ps"
  shows "fold (\<lambda>p m. m(dp_fromTaskId (fst p) \<mapsto> tk_status (snd p))) ps m (dp_fromTaskId (fst p)) = Some (tk_status (snd p))"
proof -
  have "fold (\<lambda>p m. m(dp_fromTaskId (fst p) \<mapsto> tk_status (snd p))) qs m x =
      (if \<exists>q \<in> set qs. dp_fromTaskId (fst q) = x then Some (tk_status (snd p)) else m x)"
    if "\<And>q. q \<in> set qs \<Longrightarrow> dp_fromTaskId (fst q) = x \<Longrightarrow> snd q = snd p" for qs m x
    using that by (induction qs arbitrary: m) auto
  then have "fold (\<lambda>p m. m(dp_fromTaskId (fst p) \<mapsto> tk_status (snd p))) ps m (dp_fromTaskId (fst p)) =
      (if \<exists>q \<in> set ps. dp_fromTaskId (fst q) = dp_fromTaskId (fst p) then Some (tk_status (snd p))
       else m (dp_fromTaskId (fst p)))"
    using assms(1) [OF _ assms(2)] by this
  then show ?thesis using assms(2) by auto
qed

lemma isDependentSatisfied_total: "\<exists>ok. isDependentSatisfied ctx incoming st w = (Inr ok, w)"
proof -
  have "\<exists>m. loadEvidenceMap ctx ids w = (Inr m, w)" for ids
    by (simp add: loadEvidenceMap_def bind_sel run_basic)
  then obtain m where "loadEvidenceMap ctx (map from_task_id (filter (\<lambda>e. isGatingDependency (edge_type e)) incoming)) w = (Inr m, w)"
    by blast
  note load = bind_run [where m = "loadEvidenceMap ctx _", OF this]
  show ?thesis
    by (cases "isTaskUnlocked incoming st") (simp_all add: isDependentSatisfied_def Let_def run_basic load ex_bool_eq)
qed

lemma row_edge_fields: "from_task_id (row_edge d) = dp_fromTaskId d" "edge_type (row_edge d) = dp_type d"
  by (simp_all add: row_edge_def)

text \<open>The check of the dependencies, as \<open>markReady\<close> makes it.\<close>

lemma dependencies_checked:
  assumes "distinct (map tk_id (d_tasks (w_db w)))"
  shows "isDependentSatisfied ctx (map (\<lambda>p. row_edge (fst p)) (joined_rows ctx (w_db w) i))
      (fold (\<lambda>p m. m(dp_fromTaskId (fst p) \<mapsto> tk_status (snd p))) (joined_rows ctx (w_db w) i) Map.empty) w
    = (Inr (prerequisites_met ctx (w_db w) i), w)"
proof -
  define rows where "rows = joined_rows ctx (w_db w) i"
  let ?st = "fold (\<lambda>p m. m(dp_fromTaskId (fst p) \<mapsto> tk_status (snd p))) rows Map.empty"
  have rows: "set rows = {(d, t). d \<in> set (d_deps (w_db w)) \<and> t \<in> set (d_tasks (w_db w)) \<and> dp_fromTaskId d = tk_id t
      \<and> dp_organizationId d = cx_organizationId ctx \<and> dp_toTaskId d = i}"
    unfolding rows_def by (auto simp: joined_rows_def set_inner_join)
  have one: "snd p = snd q" if "p \<in> set rows" "q \<in> set rows" "dp_fromTaskId (fst p) = dp_fromTaskId (fst q)" for p q
    using that assms unfolding rows by (auto simp: distinct_map dest: inj_onD)
  have st: "?st (dp_fromTaskId d) = Some (tk_status t)" if "(d, t) \<in> set rows" for d t
  proof -
    have "?st (dp_fromTaskId (fst (d, t))) = Some (tk_status (snd (d, t)))"
      by (rule joined_status [OF _ that]) (rule one)
    then show ?thesis unfolding fst_conv snd_conv .
  qed
  obtain ok where run: "isDependentSatisfied ctx (map (\<lambda>p. row_edge (fst p)) rows) ?st w = (Inr ok, w)"
    using isDependentSatisfied_total by blast
  have "ok \<longleftrightarrow> (\<forall>(d, t) \<in> set rows. dp_type d \<noteq> DT_soft_context \<longrightarrow> ?st (dp_fromTaskId d) = Some TS_done
      \<and> (case requiredEvidenceKind (dp_type d) of None \<Rightarrow> True | Some k \<Rightarrow> has_evidence ctx (w_db w) (dp_fromTaskId d) k))"
    using isDependentSatisfied_run [OF run] unfolding set_map ball_simps row_edge_fields split_def by simp
  also have "\<dots> \<longleftrightarrow> (\<forall>(d, t) \<in> set rows. dp_type d \<noteq> DT_soft_context \<longrightarrow> tk_status t = TS_done
      \<and> (case requiredEvidenceKind (dp_type d) of None \<Rightarrow> True | Some k \<Rightarrow> has_evidence ctx (w_db w) (tk_id t) k))"
  proof (rule ball_cong [OF refl])
    fix p assume p: "p \<in> set rows"
    obtain d t where dt: "p = (d, t)" by (cases p)
    have from_t: "dp_fromTaskId d = tk_id t" using p unfolding dt rows by simp
    have st_t: "?st (tk_id t) = Some (tk_status t)" using st [of d t] p unfolding dt from_t by simp
    show "(case p of (d, t) \<Rightarrow> dp_type d \<noteq> DT_soft_context \<longrightarrow> ?st (dp_fromTaskId d) = Some TS_done
      \<and> (case requiredEvidenceKind (dp_type d) of None \<Rightarrow> True | Some k \<Rightarrow> has_evidence ctx (w_db w) (dp_fromTaskId d) k))
      = (case p of (d, t) \<Rightarrow> dp_type d \<noteq> DT_soft_context \<longrightarrow> tk_status t = TS_done
      \<and> (case requiredEvidenceKind (dp_type d) of None \<Rightarrow> True | Some k \<Rightarrow> has_evidence ctx (w_db w) (tk_id t) k))"
      unfolding dt prod.case from_t st_t by simp
  qed
  also have "\<dots> \<longleftrightarrow> prerequisites_met ctx (w_db w) i"
    unfolding prerequisites_met_def rows by auto
  finally show ?thesis using run unfolding rows_def by simp
qed

lemma bind_dependencies:
  assumes "distinct (map tk_id (d_tasks (w_db w)))"
  shows "bind (isDependentSatisfied ctx (map (\<lambda>p. row_edge (fst p)) (joined_rows ctx (w_db w) i))
      (fold (\<lambda>p m. m(dp_fromTaskId (fst p) \<mapsto> tk_status (snd p))) (joined_rows ctx (w_db w) i) Map.empty)) f w
    = f (prerequisites_met ctx (w_db w) i) w"
  by (rule bind_run) (rule dependencies_checked [OF assms])

lemma bind_incoming: "bind (incoming_rows ctx i) f w = f (joined_rows ctx (w_db w) i) w"
  by (simp add: bind_def incoming_rows_def gets_def)

lemma triage_only_backlog: "canTransitionTask s TT_triage \<longleftrightarrow> s = TS_backlog"
  by (cases s) (simp_all add: task_machine_defs find_transition_def)

text \<open>The transaction, as a function of the state it runs in.\<close>

lemma ready_tx_run:
  assumes "distinct (map tk_id (d_tasks (w_db w)))"
  shows "ready_tx ctx i now w = (case find (\<lambda>t. tk_id t = i) (org_tasks ctx (w_db w)) of
      None \<Rightarrow> (Inl (task_not_found i), w)
    | Some row \<Rightarrow>
        if tk_acceptanceCriteria row = []
        then (Inl (validation ''acceptance_criteria must be non-empty to mark a task ready'' []), w)
        else if \<not> prerequisites_met ctx (w_db w) i
        then (Inl (invalidState ''upstream gating dependencies are not all satisfied'' []), w)
        else if tk_status row \<noteq> TS_backlog
        then (Inl (invalidState (''cannot mark ready from '' @ quoted (task_status_text (tk_status row)))
               [(''status'', JStr (task_status_text (tk_status row)))]), w)
        else bind (transitionTask ctx (ready_transition ctx row i now)) (\<lambda>_. stored_task ''markReady'' i) w)"
  unfolding ready_tx_def bind_run [OF find_task_run] find_org triage_only_backlog length_0_conv
  by (simp add: bind_guard bind_incoming bind_dependencies [OF assms] run_basic split: option.split)

lemma filter_one:
  "distinct (map key rows) \<Longrightarrow> x \<in> set rows \<Longrightarrow> key x = i \<Longrightarrow> filter (\<lambda>r. key r = i) rows = [x]"
proof (induction rows)
  case (Cons r rows)
  show ?case
  proof (cases "r = x")
    case True
    then have "filter (\<lambda>r. key r = i) rows = []" using Cons.prems by (auto simp: filter_empty_conv image_iff)
    then show ?thesis using True Cons.prems by simp
  next
    case False
    then have "key r \<noteq> i" using Cons.prems by (auto simp: image_iff)
    then show ?thesis using False Cons by simp
  qed
qed simp

lemma find_org_key:
  assumes "distinct (map tk_id (d_tasks db))" and "find (\<lambda>t. tk_id t = i) (org_tasks ctx db) = Some row"
  shows "row \<in> set (d_tasks db) \<and> tk_id row = i \<and> tk_organizationId row = cx_organizationId ctx
    \<and> (\<forall>t \<in> set (d_tasks db). tk_id t = i \<longrightarrow> t = row)"
  using assms by (auto simp: org_tasks_def distinct_map dest!: find_Some_D dest: inj_onD)

lemma stored_task_row:
  assumes "filter (\<lambda>t. tk_id t = i) (d_tasks (w_db w)) = row # rest"
  shows "stored_task caller i w = (case mapTask row of Inl e \<Rightarrow> (Inl e, w) | Inr t \<Rightarrow> (Inr t, w))"
  by (simp add: stored_task_def bind_sel assms lift_sum_def run_basic split: sum.split)

text \<open>The rows after a task has become ready.\<close>

definition made_ready :: "server_context \<Rightarrow> iso_time \<Rightarrow> ident \<Rightarrow> task_row \<Rightarrow> task_row" where
  "made_ready ctx now i t =
     (if tk_id t = i \<and> tk_organizationId t = cx_organizationId ctx
      then t\<lparr>tk_status := TS_ready, tk_updatedAt := the (cx_ts ctx now)\<rparr> else t)"

lemma made_ready_id [simp]: "tk_id (made_ready ctx now i t) = tk_id t"
  by (simp add: made_ready_def)

lemma ready_transition_effect:
  assumes key: "distinct (map tk_id (d_tasks (w_db w)))"
    and row: "find (\<lambda>t. tk_id t = i) (org_tasks ctx (w_db w)) = Some row" "tk_status row = TS_backlog"
    and run: "transitionTask ctx (ready_transition ctx row i now) w = (Inr res, w')"
  shows "core w' = (core w)\<lparr>d_tasks := map (made_ready ctx now i) (d_tasks (w_db w))\<rparr>"
proof -
  have logs: "logs_only (ready_transition ctx row i now)"
    unfolding logs_only_def ready_transition_def by (auto simp: quiet_rules)
  obtain stamp where app: "applyTaskTransition (tk_status row) TT_triage = Inr (tres_to res)"
    and now: "cx_ts ctx now = Some stamp"
    and core: "core w' = (core w)\<lparr>d_tasks := set_rows (task_matches ctx i (tk_status row))
            (\<lambda>t. t\<lparr>tk_status := tres_to res, tk_updatedAt := stamp\<rparr>) (d_tasks (w_db w))\<rparr>"
    by (rule transitionTask_tables [OF run logs]) (rule that, simp_all add: ready_transition_def)
  have to: "tres_to res = TS_ready" using app triage_target row(2) by simp
  have "set_rows (task_matches ctx i (tk_status row)) (\<lambda>t. t\<lparr>tk_status := tres_to res, tk_updatedAt := stamp\<rparr>) (d_tasks (w_db w))
      = map (made_ready ctx now i) (d_tasks (w_db w))"
    unfolding set_rows_def
  proof (rule map_cong [OF refl])
    fix t assume t: "t \<in> set (d_tasks (w_db w))"
    have "task_matches ctx i (tk_status row) t \<longleftrightarrow> tk_id t = i \<and> tk_organizationId t = cx_organizationId ctx"
      using find_org_key [OF key row(1)] t by (auto simp: task_matches_def)
    then show "(if task_matches ctx i (tk_status row) t then t\<lparr>tk_status := tres_to res, tk_updatedAt := stamp\<rparr> else t)
        = made_ready ctx now i t"
      by (simp add: made_ready_def now to)
  qed
  then show ?thesis using core by simp
qed

text \<open>
  Property C5. A task becomes ready exactly when it may. When the call returns, the task was in
  backlog, had acceptance criteria and only known capabilities, every gating prerequisite was done
  with its evidence, and exactly this row became ready, with the time of the call; no other row of
  any table but the event log changed. When it throws, no table changed, and unless the database
  itself refused something (a timestamp, the id of an event) one of these conditions failed.
\<close>

theorem mark_ready_exact:
  assumes "markReady ctx i w = (r, w')"
    and "distinct (map tk_id (d_tasks (w_db w)))"
  shows "case r of
      Inl e \<Rightarrow> w_db w' = w_db w \<and> ((\<exists>msg. e = Db_error msg) \<or> \<not> may_become_ready ctx (w_db w) i)
    | Inr t \<Rightarrow> may_become_ready ctx (w_db w) i \<and> tsk_id t = i \<and> tsk_status t = TS_ready
        \<and> core w' = (core w)\<lparr>d_tasks := map (\<lambda>t. if tk_id t = i \<and> tk_organizationId t = cx_organizationId ctx
             then t\<lparr>tk_status := TS_ready, tk_updatedAt := the (cx_ts ctx (cx_now ctx (w_clock w)))\<rparr> else t)
           (d_tasks (w_db w))\<rparr>"
proof -
  define now where "now = cx_now ctx (w_clock w)"
  define v where "v = w\<lparr>w_clock := w_clock w + 1\<rparr>"
  have v: "w_db v = w_db w" "core v = core w" by (simp_all add: v_def core_def)
  have key: "distinct (map tk_id (d_tasks (w_db v)))" using assms(2) v by simp
  have tx: "transaction (ready_tx ctx i now) v = (r, w')"
    using assms(1) by (simp add: markReady_def bind_nowIso now_def v_def)
  show ?thesis
  proof (cases "\<exists>row. find (\<lambda>t. tk_id t = i) (org_tasks ctx (w_db v)) = Some row \<and> tk_acceptanceCriteria row \<noteq> []
      \<and> prerequisites_met ctx (w_db v) i \<and> tk_status row = TS_backlog")
    case False
    then have "\<exists>e. ready_tx ctx i now v = (Inl e, v)"
      unfolding ready_tx_run [OF key] by (auto split: option.split)
    then obtain e where "ready_tx ctx i now v = (Inl e, v)" by blast
    moreover have "\<not> may_become_ready ctx (w_db w) i" using False v by (auto simp: may_become_ready_def split: option.splits)
    ultimately show ?thesis using tx v by (auto simp: transaction_def)
  next
    case True
    then obtain row where row: "find (\<lambda>t. tk_id t = i) (org_tasks ctx (w_db v)) = Some row" "tk_acceptanceCriteria row \<noteq> []"
      "prerequisites_met ctx (w_db v) i" "tk_status row = TS_backlog" by blast
    have may: "may_become_ready ctx (w_db w) i \<longleftrightarrow> set (tk_requiredCapabilities row) \<subseteq> set CAPABILITIES"
      using row v by (simp add: may_become_ready_def)
    have body: "ready_tx ctx i now v = bind (transitionTask ctx (ready_transition ctx row i now)) (\<lambda>_. stored_task ''markReady'' i) v"
      unfolding ready_tx_run [OF key] using row by simp
    obtain r1 w1 where step: "transitionTask ctx (ready_transition ctx row i now) v = (r1, w1)" by fastforce
    show ?thesis
    proof (cases r1)
      case (Inl e)
      have "\<exists>msg. e = Db_error msg"
        by (rule transitionTask_errors [OF step [unfolded Inl ready_transition_def] triage_target [folded row(4)]])
      moreover have "ready_tx ctx i now v = (Inl e, w1)" unfolding body using step Inl by (simp add: bind_err)
      ultimately show ?thesis using tx v by (auto simp: transaction_def)
    next
      case (Inr res)
      have eff: "core w1 = (core v)\<lparr>d_tasks := map (made_ready ctx now i) (d_tasks (w_db v))\<rparr>"
        by (rule ready_transition_effect [OF key row(1,4) step [unfolded Inr]])
      have tasks: "d_tasks (w_db w1) = map (made_ready ctx now i) (d_tasks (w_db v))"
        using arg_cong [OF eff, of d_tasks] by simp
      have one: "filter (\<lambda>t. tk_id t = i) (d_tasks (w_db v)) = [row]"
        using find_org_key [OF key row(1)] by (intro filter_one [OF key]) simp_all
      have "filter (\<lambda>t. tk_id t = i) (d_tasks (w_db w1)) = [made_ready ctx now i row]"
        unfolding tasks filter_map comp_def by (simp add: one)
      note stored = stored_task_row [OF this, of "''markReady''"]
      have made: "tk_status (made_ready ctx now i row) = TS_ready" "tk_id (made_ready ctx now i row) = i"
        "tk_requiredCapabilities (made_ready ctx now i row) = tk_requiredCapabilities row"
        using find_org_key [OF key row(1)] by (simp_all add: made_ready_def)
      have run: "ready_tx ctx i now v = (case mapTask (made_ready ctx now i row) of Inl e \<Rightarrow> (Inl e, w1) | Inr t \<Rightarrow> (Inr t, w1))"
        unfolding body by (subst bind_run) (rule step [unfolded Inr], rule stored)
      show ?thesis
      proof (cases "mapTask (made_ready ctx now i row)")
        case (Inl e)
        then have "\<not> may_become_ready ctx (w_db w) i" using mapTask_Inl [OF Inl] made(3) may by simp
        moreover have "r = Inl e" "w_db w' = w_db v" using tx run Inl by (auto simp: transaction_def)
        ultimately show ?thesis using v by simp
      next
        case (Inr t)
        then have "may_become_ready ctx (w_db w) i \<and> tsk_id t = i \<and> tsk_status t = TS_ready"
          using mapTask_Inr [OF Inr] made may by simp
        moreover have "r = Inr t" "w' = w1" using tx run Inr by (auto simp: transaction_def)
        ultimately show ?thesis using eff v by (simp add: made_ready_def [abs_def] now_def)
      qed
    qed
  qed
qed

lemma demo_ready: "(case fst (markReady demo_ctx ''t1'' demo_tasks_world) of Inl e \<Rightarrow> False | Inr t \<Rightarrow> True)"
  by code_simp

lemma mark_ready_exact_witness:
  "map tk_status (d_tasks (core (snd (markReady demo_ctx ''t1'' demo_tasks_world)))) = [TS_ready, TS_done]"
proof -
  have "returns (markReady demo_ctx ''t1'') demo_tasks_world" unfolding returns_def by (rule demo_ready)
  then obtain t where run: "markReady demo_ctx ''t1'' demo_tasks_world
      = (Inr t, snd (markReady demo_ctx ''t1'' demo_tasks_world))" by (rule returnsE)
  have key: "distinct (map tk_id (d_tasks (w_db demo_tasks_world)))"
    by (simp add: demo_tasks_world_def demo_task_def demo_world_def)
  from mark_ready_exact [OF run key] show ?thesis
    by (simp add: demo_tasks_world_def demo_task_def demo_world_def demo_ctx_def)
qed

text \<open>
  A capability that the enumeration does not have. A plan's task specs may name any text as a
  capability, so such a task is stored; it can never be made ready, whatever its state.
\<close>

lemma unknown_capability_never_ready:
  assumes "find (\<lambda>t. tk_id t = i) (org_tasks ctx (w_db w)) = Some row"
    and "c \<in> set (tk_requiredCapabilities row)" "c \<notin> set CAPABILITIES"
  shows "\<not> may_become_ready ctx (w_db w) i"
  using assms by (auto simp: may_become_ready_def)

section \<open>Reviews\<close>

text \<open>The tasks that count for the completion of a goal: those of its current plan and those of none.\<close>

definition counts_for :: "goal_row \<Rightarrow> task_row \<Rightarrow> bool" where
  "counts_for g t \<longleftrightarrow> tk_organizationId t = gl_organizationId g \<and> tk_goalId t = Some (gl_id g)
     \<and> (gl_currentPlanId g = None \<or> tk_sourcePlanId t = None \<or> tk_sourcePlanId t = gl_currentPlanId g)"

definition goal_finished :: "database \<Rightarrow> goal_row \<Rightarrow> bool" where
  "goal_finished db g \<longleftrightarrow> (\<exists>t \<in> set (d_tasks db). counts_for g t)
     \<and> (\<forall>t \<in> set (d_tasks db). counts_for g t \<longrightarrow> tk_status t = TS_done)"

text \<open>A goal that is completed now was completed before, or has finished.\<close>

definition completions_justified :: "database \<Rightarrow> database \<Rightarrow> bool" where
  "completions_justified db db' \<longleftrightarrow>
     (\<forall>g \<in> set (d_goals db'). gl_status g = GS_completed
        \<longrightarrow> (\<exists>g0 \<in> set (d_goals db). gl_id g0 = gl_id g \<and> gl_status g0 = GS_completed) \<or> goal_finished db' g)"

lemma justified_same: "(\<And>g. g \<in> set (d_goals db') \<Longrightarrow> g \<in> set (d_goals db) \<or> goal_finished db' g) \<Longrightarrow> completions_justified db db'"
  unfolding completions_justified_def by blast

lemma leaves_complete_tasks: "leaves d_tasks (completeGoalIfAllTasksDone ctx g now)"
  unfolding completeGoalIfAllTasksDone_def update_goals_def
  by (intro leaves_rules leaves_log leaves_update) simp_all

lemma complete_goal_effect:
  assumes run: "completeGoalIfAllTasksDone ctx i now w = (Inr u, w')"
    and key: "distinct (map gl_id (d_goals (w_db w)))"
  shows "d_tasks (w_db w') = d_tasks (w_db w) \<and> completions_justified (w_db w) (w_db w')"
proof -
  have tasks: "d_tasks (w_db w') = d_tasks (w_db w)" by (rule leaves_run [OF leaves_complete_tasks run])
  let ?run = "\<lambda>g. goal_matches ctx i g \<and> gl_status g = GS_running"
  show ?thesis
  proof (cases "filter ?run (d_goals (w_db w))")
    case Nil
    then have "w' = w" using run by (simp add: completeGoalIfAllTasksDone_def bind_sel run_basic)
    then show ?thesis by (simp add: justified_same)
  next
    case (Cons goal rest)
    then have goal: "goal \<in> set (d_goals (w_db w))" "gl_id goal = i" "gl_organizationId goal = cx_organizationId ctx"
      by (auto simp: goal_matches_def dest: filter_eq_ConsD)
    define children where "children = filter (\<lambda>t. tk_organizationId t = cx_organizationId ctx \<and> tk_goalId t = Some i
                 \<and> (gl_currentPlanId goal = None \<or> tk_sourcePlanId t = None
                    \<or> tk_sourcePlanId t = gl_currentPlanId goal)) (d_tasks (w_db w))"
    have children: "set children = {t \<in> set (d_tasks (w_db w)). counts_for goal t}"
      using goal by (auto simp: children_def counts_for_def)
    show ?thesis
    proof (cases "length children = 0 \<or> list_ex (\<lambda>t. tk_status t \<noteq> TS_done) children")
      case True
      then have "w' = w" using run Cons by (simp add: completeGoalIfAllTasksDone_def bind_sel run_basic children_def)
      then show ?thesis by (simp add: justified_same)
    next
      case False
      obtain to v v1 v2 updated where upd: "update_goals ?run (\<lambda>g. g\<lparr>gl_status := to, gl_updatedAt := updated\<rparr>) v = (Inr v1, v2)"
        and v: "w_db v = w_db w"
        and rest: "(if length v1 = 0 then skip
           else emit ctx (goal_event ''goal.completed'' Act_system ''goal_aggregator'' goal
                  [(''goal_id'', JStr i), (''from'', JStr ''running''), (''to'', JStr (goal_status_text to)),
                   (''trigger'', JStr ''all_tasks_terminal'')])) v2 = (Inr u, w')"
        using run Cons False unfolding completeGoalIfAllTasksDone_def bind_sel children_def [symmetric] Cons first.simps option.case
        by (auto elim!: bind_InrE simp: lift_sum_def run_basic ts_value_result split: sum.splits option.splits)
      have children_in: "t \<in> set children \<longleftrightarrow> t \<in> set (d_tasks (w_db w)) \<and> counts_for goal t" for t
        by (simp add: children)
      obtain t where "t \<in> set children" using False by (cases children) auto
      moreover have "tk_status t = TS_done" if "t \<in> set children" for t
        using False that by (auto simp: list_ex_iff)
      ultimately have fin: "goal_finished (w_db w) goal"
        unfolding goal_finished_def children_in by blast
      have v2: "d_goals (w_db v2) = set_rows ?run (\<lambda>g. g\<lparr>gl_status := to, gl_updatedAt := updated\<rparr>) (d_goals (w_db w))"
        using upd unfolding update_goals_run v by auto
      have "leaves d_goals (if length v1 = 0 then skip
           else emit ctx (goal_event ''goal.completed'' Act_system ''goal_aggregator'' goal
                  [(''goal_id'', JStr i), (''from'', JStr ''running''), (''to'', JStr (goal_status_text to)),
                   (''trigger'', JStr ''all_tasks_terminal'')]))"
        by (intro leaves_rules leaves_log) simp
      from leaves_run [OF this rest] have goals: "d_goals (w_db w') = d_goals (w_db v2)" .
      have "g \<in> set (d_goals (w_db w)) \<or> goal_finished (w_db w') g" if g: "g \<in> set (d_goals (w_db w'))" for g
      proof -
        obtain g0 where g0: "g0 \<in> set (d_goals (w_db w))"
          "g = (if ?run g0 then g0\<lparr>gl_status := to, gl_updatedAt := updated\<rparr> else g0)"
          using g unfolding goals v2 set_rows_def set_map by (elim imageE)
        show ?thesis
        proof (cases "?run g0")
          case True
          then have "gl_id g0 = gl_id goal" using goal(2) by (simp add: goal_matches_def)
          then have same: "g0 = goal" using key g0(1) goal(1) by (meson distinct_map inj_onD)
          have "counts_for g t \<longleftrightarrow> counts_for goal t" for t
            unfolding g0(2) if_P [OF True] same by (simp add: counts_for_def)
          then show ?thesis using fin unfolding goal_finished_def tasks by simp
        next
          case False
          then show ?thesis using g0(1) unfolding g0(2) if_not_P [OF False] by blast
        qed
      qed
      then show ?thesis using tasks justified_same by blast
    qed
  qed
qed

text \<open>The checks change nothing but the clock.\<close>

lemma reads_unsettled [reads_rules]: "reads (unsettledGoalRunIds ctx i)"
  unfolding unsettledGoalRunIds_def unconfirmedDisconnectRunIds_def sel_runs_tasks_def sel_leases_tasks_def Let_def
  by (intro reads_rules)

lemma unchanged_allows: "leaves part (assertGoalAllowsExecution ctx goalId operation planId)"
proof -
  have "leaves part (check_elapsed ctx goal budgets)" for goal budgets
    unfolding check_elapsed_def by (cases "max_elapsed_ms budgets"; cases "gl_runningSince goal") (simp_all add: leaves_rules)
  moreover have "leaves part (check_concurrency ctx goal budgets operation)" for goal budgets
    unfolding check_concurrency_def
    by (cases operation; cases "max_concurrent_runs budgets") (simp_all add: leaves_rules leaves_reads reads_unsettled)
  ultimately show ?thesis
    unfolding assertGoalAllowsExecution_def check_retries_def Let_def by (intro leaves_rules)
qed

lemma unchanged_controls: "leaves part (assertTaskPlanControlsSupported ctx task)"
  unfolding assertTaskPlanControlsSupported_def Let_def
  by (intro leaves_rules) (auto split: option.split intro!: leaves_rules)

lemma unchanged_retry: "leaves part (assert_retry_allowed ctx row)"
  unfolding assert_retry_allowed_def
  by (intro leaves_rules leaves_reads [OF reads_resolve] unchanged_allows unchanged_controls)

lemma reads_fresh: "reads (assertFreshTaskBaseVersion org i base)"
  unfolding assertFreshTaskBaseVersion_def maxTaskPosition_def by (intro reads_rules)

lemma reads_stored_task: "reads (stored_task caller i)"
  unfolding stored_task_def
  by (intro reads_rules) (simp add: reads_def lift_sum_def run_basic split: sum.split)

text \<open>What has to hold for a review that returns, and the states it runs through.\<close>

lemma review_steps:
  assumes "review_tx ctx i req base now w = (Inr t, w')"
  obtains row artifactRows result v v1 u where
    "find (\<lambda>t. tk_id t = i) (org_tasks ctx (w_db w)) = Some row" "tk_status row = TS_review"
    "assertFreshTaskBaseVersion (cx_organizationId ctx) i base w = (Inr (), w)"
    "rv_outcome req = Rev_accepted \<Longrightarrow> assert_children_ended ctx i w = (Inr (), w)"
    "rv_outcome req \<noteq> Rev_accepted \<Longrightarrow> assert_retry_allowed ctx row w = (Inr (), v)"
    "w_db v = w_db w"
    "transitionTask ctx (review_transition ctx i req now row artifactRows) v = (Inr result, v1)"
    "tres_changed result"
    "after_review ctx row (rv_outcome req) now v1 = (Inr u, w')"
    "stored_task ''reviewTask'' i w' = (Inr t, w')"
proof (cases "find (\<lambda>t. tk_id t = i) (org_tasks ctx (w_db w))")
  case None
  then show ?thesis using assms by (simp add: review_tx_def bind_run [OF find_task_run] find_org run_basic)
next
  case (Some row)
  from assms obtain u1 v1 u2 v2 u3 v3 u4 v4 unordered v5 result v6 u7 v7 u8 v8 where
    fresh: "assertFreshTaskBaseVersion (cx_organizationId ctx) i base w = (Inr u1, v1)"
    and g: "guard (tk_status row = TS_review)
                (invalidState (''task must be '' @ quoted ''review'' @ '' to review (is ''
                    @ quoted (task_status_text (tk_status row)) @ '')'')
                  [(''status'', JStr (task_status_text (tk_status row)))]) v1 = (Inr u2, v2)"
    and retry: "(if rv_outcome req = Rev_accepted then skip else assert_retry_allowed ctx row) v2 = (Inr u3, v3)"
    and kids: "(if rv_outcome req = Rev_accepted then assert_children_ended ctx i else skip) v3 = (Inr u4, v4)"
    and art: "sel d_artifacts (\<lambda>a. at_organizationId a = cx_organizationId ctx \<and> at_taskId a = i) v4 = (Inr unordered, v5)"
    and tr: "transitionTask ctx (review_transition ctx i req now row (order_asc at_id unordered)) v5 = (Inr result, v6)"
    and g2: "guard (tres_changed result) (conflict_error ''task is no longer in review'' []) v6 = (Inr u7, v7)"
    and aft: "after_review ctx row (rv_outcome req) now v7 = (Inr u8, v8)"
    and st: "stored_task ''reviewTask'' i v8 = (Inr t, w')"
    unfolding review_tx_def bind_run [OF find_task_run] find_org Some option.case by (elim bind_InrE)
  have v1: "v1 = w" by (rule readsD [OF reads_fresh fresh])
  have v2: "v2 = v1" "tk_status row = TS_review" using guard_Inr [OF g] by simp_all
  have kids_read: "reads (if rv_outcome req = Rev_accepted then assert_children_ended ctx i else skip)"
    unfolding assert_children_ended_def Let_def by (intro reads_rules)
  have v4: "v4 = v3" by (rule readsD [OF kids_read kids])
  have v5: "v5 = v4" by (rule readsD [OF reads_sel art])
  have v7: "v7 = v6" "tres_changed result" using guard_Inr [OF g2] by simp_all
  have v8: "w' = v8" by (rule readsD [OF reads_stored_task st])
  have "leaves (\<lambda>db. db) (if rv_outcome req = Rev_accepted then skip else assert_retry_allowed ctx row)"
    by (intro leaves_rules unchanged_retry)
  from leaves_run [OF this retry] have v3: "w_db v3 = w_db v2" .
  have skipped: "rv_outcome req = Rev_accepted \<Longrightarrow> v3 = v2" using retry by (simp add: run_basic)
  show ?thesis
  proof (rule that [OF Some v2(2)])
    show "assertFreshTaskBaseVersion (cx_organizationId ctx) i base w = (Inr (), w)" using fresh v1 by simp
    show "assert_children_ended ctx i w = (Inr (), w)" if "rv_outcome req = Rev_accepted"
      using kids skipped [OF that] v1 v2 v4 that by simp
    show "assert_retry_allowed ctx row w = (Inr (), v3)" if "rv_outcome req \<noteq> Rev_accepted"
      using retry v1 v2 that by simp
    show "w_db v3 = w_db w" using v3 v2 v1 by simp
    show "transitionTask ctx (review_transition ctx i req now row (order_asc at_id unordered)) v3 = (Inr result, v6)"
      using tr v5 v4 by simp
    show "tres_changed result" by (rule v7)
    show "after_review ctx row (rv_outcome req) now v6 = (Inr u8, w')" using aft v7 v8 by simp
    show "stored_task ''reviewTask'' i w' = (Inr t, w')" using st v8 by simp
  qed
qed

lemma position_le_top: "e \<in> set rows \<Longrightarrow> ev_position e \<le> top_position rows"
proof -
  assume e: "e \<in> set rows"
  have sorted: "sorted_wrt (\<lambda>a b. ev_position b \<le> ev_position a) (order_desc ev_position rows)"
    unfolding order_desc_def by (rule sorted_sort_by) (auto intro: order_trans)
  show ?thesis
  proof (cases "order_desc ev_position rows")
    case Nil
    then have "set rows = {}" using set_order(2) [of ev_position rows] by simp
    then show ?thesis using e by simp
  next
    case (Cons x xs)
    have "e \<in> set (x # xs)" using set_order(2) [of ev_position rows] e unfolding Cons by simp
    then have "ev_position e \<le> ev_position x" using sorted unfolding Cons by auto
    then show ?thesis by (simp add: top_position_def Cons)
  qed
qed

lemma fresh_run:
  assumes "assertFreshTaskBaseVersion org i (Some b) w = (Inr u, w')"
    and "e \<in> set (d_events (w_db w))" "ev_organizationId e = org" "ev_taskId e = Some i"
  shows "int (ev_position e) \<le> b"
proof -
  let ?rows = "filter (\<lambda>e. ev_organizationId e = org \<and> ev_taskId e = Some i) (d_events (w_db w))"
  have "ev_position e \<le> top_position ?rows" using assms(2-4) by (intro position_le_top) simp
  moreover have "\<not> b < int (top_position ?rows)"
    using assms(1) by (auto simp: assertFreshTaskBaseVersion_def maxTaskPosition_def bind_sel bind_run run_basic bind_def
        sel_def gets_def dest: guard_Inr)
  ultimately show ?thesis by simp
qed

lemma children_run:
  assumes "assert_children_ended ctx i w = (Inr u, w')"
    and "c \<in> set (d_tasks (w_db w))" "tk_parentTaskId c = Some i" "tk_organizationId c = cx_organizationId ctx"
  shows "tk_status c = TS_done \<or> tk_status c = TS_cancelled"
proof -
  have "filter (\<lambda>c. tk_status c \<noteq> TS_done \<and> tk_status c \<noteq> TS_cancelled) (filter (\<lambda>t. tk_parentTaskId t = Some i
      \<and> tk_organizationId t = cx_organizationId ctx) (d_tasks (w_db w))) = []"
    using assms(1) unfolding assert_children_ended_def bind_sel Let_def by (auto dest: guard_Inr)
  then show ?thesis using assms(2-4) unfolding filter_empty_conv by auto
qed

lemma increment_effect:
  assumes "incrementLinkedGoalRetryCount ctx g now w = (Inr u, w')"
  shows "\<exists>stamp. w_db w' = (w_db w)\<lparr>d_goals := set_rows (goal_matches ctx g)
    (\<lambda>g. g\<lparr>gl_retryCount := gl_retryCount g + 1, gl_updatedAt := stamp\<rparr>) (d_goals (w_db w))\<rparr>"
proof -
  have upd: "d_goals_update (set_rows P f) db = db\<lparr>d_goals := set_rows P f (d_goals db)\<rparr>" for P f db
    by (cases db) simp
  show ?thesis
    using assms unfolding incrementLinkedGoalRetryCount_def bind_ts_value update_rows_run
    by (auto simp: upd split: option.splits)
qed

section \<open>Transitions under an order\<close>

context db_order
begin

lemma moves_lifted: "(\<And>a. r = Inr a \<Longrightarrow> moves R (f a)) \<Longrightarrow> moves R (bind (lift_sum g r) f)"
  by (cases r) (simp_all add: lift_sum_def moves_throw)

lemma moves_transitionTask:
  assumes "\<And>to now. applyTaskTransition (tp_from p) (tp_trigger p) = Inr to \<Longrightarrow> moves R (update_tasks (task_matches ctx (tp_taskId p) (tp_from p))
             (\<lambda>t. t\<lparr>tk_status := to, tk_updatedAt := now\<rparr>))"
    and "\<And>input. moves R (appendEvent ctx input)" and "\<And>f to. tp_events p = Some f \<Longrightarrow> moves R (f to)"
  shows "moves R (transitionTask ctx p)"
  unfolding transitionTask_def Let_def
proof (rule moves_lifted)
  fix to assume "applyTaskTransition (tp_from p) (tp_trigger p) = Inr to"
  note update = assms(1) [OF this]
  show "moves R
     (bind (ts_value ctx (tp_now p)) (\<lambda>now.
     bind (update_tasks (task_matches ctx (tp_taskId p) (tp_from p))
             (\<lambda>t. t\<lparr>tk_status := to, tk_updatedAt := now\<rparr>)) (\<lambda>updated.
     bind (case tp_events p of
             None \<Rightarrow> skip
           | Some events \<Rightarrow>
               if 0 < length updated
               then bind (events to) (\<lambda>es. for_each es (\<lambda>event. bind (appendEvent ctx event) (\<lambda>_. skip)))
               else skip) (\<lambda>_.
     ret \<lparr>tres_changed = 0 < length updated, tres_to = to\<rparr>))))"
    by (intro moves_rules update assms(2)) (rule assms(3))
qed

lemma moves_buildEvent: "moves R (buildEvent ctx spec)"
  unfolding buildEvent_def by (intro moves_rules)

lemma moves_build_all: "moves R (build_all ctx specs)"
  unfolding build_all_def by (intro moves_rules moves_buildEvent)

end

text \<open>Unlocking: goals stay, a task keeps its id, and its status unless it goes from backlog to ready.\<close>

definition unlocked :: "task_row \<Rightarrow> task_row \<Rightarrow> bool" where
  "unlocked x y \<longleftrightarrow> tk_id y = tk_id x
     \<and> (tk_status y = tk_status x \<or> tk_status x = TS_backlog \<and> tk_status y = TS_ready)"

definition unlocks :: "database \<Rightarrow> database \<Rightarrow> bool" where
  "unlocks d d' \<longleftrightarrow> d_goals d' = d_goals d \<and> list_all2 unlocked (d_tasks d) (d_tasks d')"

interpretation unlocking: db_order unlocks
proof
  show "unlocks d d" for d by (simp add: unlocks_def unlocked_def list_all2_same)
  have "unlocked x z" if "unlocked x y" "unlocked y z" for x y z using that by (auto simp: unlocked_def)
  then show "unlocks d d''" if "unlocks d d'" "unlocks d' d''" for d d' d''
    using that list_all2_trans [of unlocked unlocked unlocked] unfolding unlocks_def by metis
qed

lemma moves_unlock: "moves unlocks (unlockDownstream ctx i)"
proof -
  have append: "moves unlocks (appendEvent ctx input)" for input
    by (rule movesI) (auto simp: appendEvent_result unlocks_def unlocked_def list_all2_same split: option.split)
  have reads: "moves unlocks (isDependentSatisfied ctx es st)" for es st
    by (rule movesI) (metis isDependentSatisfied_total snd_conv unlocking.order_refl)
  have update: "moves unlocks (update_tasks (task_matches ctx x TS_backlog) (\<lambda>t. t\<lparr>tk_status := to, tk_updatedAt := now\<rparr>))"
    if "applyTaskTransition TS_backlog TT_triage = Inr to" for x to now
    using that unfolding triage_target
    by (intro movesI) (auto simp: update_tasks_run unlocks_def set_rows_def list_all2_map2 list_all2_same unlocked_def task_matches_def)
  show ?thesis
    unfolding unlockDownstream_def loadEdges_def loadStatusMap_def unlock_one_def [abs_def] find_task_def Let_def
    by (intro unlocking.moves_rules unlocking.moves_transitionTask append reads)
       (auto simp: update unlocking.moves_build_all)
qed

text \<open>What a review does to the rows of the tasks.\<close>

definition review_target :: "review_outcome \<Rightarrow> task_status" where
  "review_target outcome = (if outcome = Rev_accepted then TS_done else TS_ready)"

lemma review_to: "applyTaskTransition TS_review TT_accept = Inr TS_done" "applyTaskTransition TS_review TT_request_changes = Inr TS_ready"
  by code_simp+

text \<open>The row of the reviewed task takes the target; another keeps its status or is unlocked.\<close>

definition reviewed :: "ident \<Rightarrow> review_outcome \<Rightarrow> task_row \<Rightarrow> task_row \<Rightarrow> bool" where
  "reviewed i outcome x y \<longleftrightarrow> tk_id y = tk_id x
     \<and> (if tk_id x = i then tk_status y = review_target outcome
        else tk_status y = tk_status x \<or> outcome = Rev_accepted \<and> tk_status x = TS_backlog \<and> tk_status y = TS_ready)"

lemma review_transition_effect:
  assumes key: "distinct (map tk_id (d_tasks (w_db v)))"
    and row: "find (\<lambda>t. tk_id t = i) (org_tasks ctx (w_db v)) = Some row" "tk_status row = TS_review"
    and run: "transitionTask ctx (review_transition ctx i req now row arts) v = (Inr result, v1)"
  shows "list_all2 (reviewed i (rv_outcome req)) (d_tasks (w_db v)) (d_tasks (w_db v1))
    \<and> d_goals (w_db v1) = d_goals (w_db v)"
proof -
  have logs: "logs_only (review_transition ctx i req now row arts)"
    unfolding logs_only_def review_transition_def by (auto simp: quiet_rules)
  obtain stamp where app: "applyTaskTransition TS_review (if rv_outcome req = Rev_accepted then TT_accept else TT_request_changes) = Inr (tres_to result)"
    and core: "core v1 = (core v)\<lparr>d_tasks := set_rows (task_matches ctx i TS_review)
            (\<lambda>t. t\<lparr>tk_status := tres_to result, tk_updatedAt := stamp\<rparr>) (d_tasks (w_db v))\<rparr>"
    by (rule transitionTask_tables [OF run logs]) (rule that, simp_all add: review_transition_def)
  have to: "tres_to result = review_target (rv_outcome req)"
    using app review_to by (auto simp: review_target_def split: if_splits)
  have tasks: "d_tasks (w_db v1) = set_rows (task_matches ctx i TS_review)
            (\<lambda>t. t\<lparr>tk_status := tres_to result, tk_updatedAt := stamp\<rparr>) (d_tasks (w_db v))"
    using arg_cong [OF core, of d_tasks] by simp
  have goals: "d_goals (w_db v1) = d_goals (w_db v)" using arg_cong [OF core, of d_goals] by simp
  have "reviewed i (rv_outcome req) t (if task_matches ctx i TS_review t
      then t\<lparr>tk_status := tres_to result, tk_updatedAt := stamp\<rparr> else t)" if t: "t \<in> set (d_tasks (w_db v))" for t
  proof -
    have "tk_id t = i \<longleftrightarrow> task_matches ctx i TS_review t"
      using find_org_key [OF key row(1)] t row(2) by (auto simp: task_matches_def)
    then show ?thesis by (simp add: reviewed_def to)
  qed
  then show ?thesis unfolding tasks goals set_rows_def list_all2_map2 list_all2_same by blast
qed

lemma after_review_effect:
  assumes run: "after_review ctx row outcome now w = (Inr u, w')" and id: "tk_id row = i"
    and key: "distinct (map tk_id (d_tasks (w_db w)))" "distinct (map gl_id (d_goals (w_db w)))"
    and done_row: "\<forall>t \<in> set (d_tasks (w_db w)). tk_id t = i \<longrightarrow> tk_status t = review_target outcome"
  shows "list_all2 (reviewed i outcome) (d_tasks (w_db w)) (d_tasks (w_db w')) \<and> completions_justified (w_db w) (w_db w')"
proof (cases "outcome = Rev_accepted")
  case False
  have same: "list_all2 (reviewed i outcome) (d_tasks (w_db w)) (d_tasks (w_db w))"
    unfolding list_all2_same using done_row by (simp add: reviewed_def)
  show ?thesis
  proof (cases "tk_goalId row")
    case None
    then have "w' = w" using run False by (simp add: after_review_def run_basic)
    then show ?thesis using same by (simp add: justified_same)
  next
    case (Some g)
    then obtain stamp where w': "w_db w' = (w_db w)\<lparr>d_goals := set_rows (goal_matches ctx g)
        (\<lambda>g. g\<lparr>gl_retryCount := gl_retryCount g + 1, gl_updatedAt := stamp\<rparr>) (d_goals (w_db w))\<rparr>"
      using run False increment_effect [of ctx g now w u w'] by (auto simp: after_review_def)
    have "completions_justified (w_db w) (w_db w')"
      unfolding completions_justified_def w' by (auto simp: set_rows_def)
    then show ?thesis using same w' by simp
  qed
next
  case True
  obtain ids w1 where un: "unlockDownstream ctx i w = (Inr ids, w1)"
    and rest: "(case tk_goalId row of None \<Rightarrow> skip | Some goalId \<Rightarrow> completeGoalIfAllTasksDone ctx goalId now) w1 = (Inr u, w')"
    using run unfolding after_review_def if_P [OF True] id by (elim bind_InrE)
  have "unlocks (w_db w) (w_db w1)" by (rule moves_run [OF moves_unlock un])
  then have goals: "d_goals (w_db w1) = d_goals (w_db w)"
    and tasks: "list_all2 unlocked (d_tasks (w_db w)) (d_tasks (w_db w1))" by (simp_all add: unlocks_def)
  have last: "d_tasks (w_db w') = d_tasks (w_db w1) \<and> completions_justified (w_db w1) (w_db w')"
  proof (cases "tk_goalId row")
    case None
    then show ?thesis using rest by (simp add: run_basic justified_same)
  next
    case (Some g)
    then show ?thesis using complete_goal_effect [of ctx g now w1 u w'] rest key(2) goals by simp
  qed
  have "reviewed i outcome x y" if "unlocked x y" "x \<in> set (d_tasks (w_db w))" for x y
    using that done_row True by (auto simp: reviewed_def unlocked_def review_target_def)
  then have "list_all2 (reviewed i outcome) (d_tasks (w_db w)) (d_tasks (w_db w1))"
    using tasks by (metis (mono_tags, lifting) list.rel_mono_strong)
  then show ?thesis using last goals by (simp add: completions_justified_def)
qed


definition demo_review_world :: world where
  "demo_review_world = demo_world\<lparr>w_db := empty_db\<lparr>d_goals := [demo_goal ''g1'' GS_running], d_tasks :=
     [(demo_task ''t1'' TS_review)\<lparr>tk_goalId := Some ''g1''\<rparr>,
      (demo_task ''t2'' TS_done)\<lparr>tk_goalId := Some ''g1'', tk_parentTaskId := Some ''t1''\<rparr>]\<rparr>\<rparr>"

definition demo_accept :: review_request where
  "demo_accept = \<lparr>rv_outcome = Rev_accepted, rv_comment = None\<rparr>"

lemma demo_reviewed: "(case fst (reviewTask demo_ctx ''t1'' demo_accept (Some 0) demo_review_world) of Inl e \<Rightarrow> False | Inr t \<Rightarrow> True)
    \<and> map gl_status (d_goals (w_db (snd (reviewTask demo_ctx ''t1'' demo_accept (Some 0) demo_review_world)))) = [GS_completed]"
  by code_simp


end
