(* ===== verification/Control_Plane.thy ===== *)
theory Control_Plane
  imports Goal_Service Lifecycle_Service Lease_Service Collaboration_Service Approval_Service
begin

text \<open>
  The services together: the steps of the server are the calls of the operations of all modelled
  services, in any order, by any organization, whether they return or throw. Every step keeps the
  database well-typed (keys are unique, references point to rows), and the server as a whole
  refines a small abstract machine in which tasks and runs are born in their first status, move
  along the state machines of the domain package, and are never lost, while the log only grows.
\<close>

section \<open>A well-typed database\<close>

definition keyed :: "('r \<Rightarrow> 'k) \<Rightarrow> 'r list \<Rightarrow> bool" where
  "keyed key rows \<longleftrightarrow> distinct (map key rows)"

definition points :: "('r \<Rightarrow> ident option) \<Rightarrow> 'r list \<Rightarrow> ('s \<Rightarrow> ident) \<Rightarrow> 's list \<Rightarrow> bool" where
  "points ref rows key table \<longleftrightarrow> (\<forall>r \<in> set rows. \<forall>i. ref r = Some i \<longrightarrow> i \<in> key ` set table)"

text \<open>
  The primary keys, unique constraints and foreign keys between the modelled tables, except that a
  goal's room and an approval's run are given later than the row; their references are checked when
  they are written.
\<close>

definition typed :: "database \<Rightarrow> bool" where
  "typed db \<longleftrightarrow>
     keyed tk_id (d_tasks db) \<and> points (\<lambda>t. Some (tk_projectId t)) (d_tasks db) pj_id (d_projects db)
   \<and> points tk_parentTaskId (d_tasks db) tk_id (d_tasks db)
   \<and> points tk_executionPolicyTaskId (d_tasks db) tk_id (d_tasks db)
   \<and> points tk_goalId (d_tasks db) gl_id (d_goals db)
   \<and> keyed rn_id (d_runs db) \<and> points (\<lambda>r. Some (rn_taskId r)) (d_runs db) tk_id (d_tasks db)
   \<and> keyed dp_id (d_deps db) \<and> keyed (\<lambda>d. (dp_fromTaskId d, dp_toTaskId d, dp_type d)) (d_deps db)
   \<and> points (\<lambda>d. Some (dp_fromTaskId d)) (d_deps db) tk_id (d_tasks db)
   \<and> points (\<lambda>d. Some (dp_toTaskId d)) (d_deps db) tk_id (d_tasks db)
   \<and> keyed fl_id (d_leases db) \<and> points (\<lambda>l. Some (fl_taskId l)) (d_leases db) tk_id (d_tasks db)
   \<and> points fl_runId (d_leases db) rn_id (d_runs db)
   \<and> keyed ap_id (d_approvals db) \<and> points (\<lambda>a. Some (ap_taskId a)) (d_approvals db) tk_id (d_tasks db)
   \<and> keyed gl_id (d_goals db) \<and> points (\<lambda>g. Some (gl_projectId g)) (d_goals db) pj_id (d_projects db)
   \<and> keyed pl_id (d_plans db) \<and> keyed (\<lambda>p. (pl_goalId p, pl_version p)) (d_plans db)
   \<and> points (\<lambda>p. Some (pl_goalId p)) (d_plans db) gl_id (d_goals db)
   \<and> keyed ck_id (d_checkpoints db) \<and> points (\<lambda>c. Some (ck_goalId c)) (d_checkpoints db) gl_id (d_goals db)
   \<and> points ck_planId (d_checkpoints db) pl_id (d_plans db)
   \<and> keyed rm_id (d_rooms db) \<and> points rm_projectId (d_rooms db) pj_id (d_projects db)
   \<and> points rm_goalId (d_rooms db) gl_id (d_goals db)
   \<and> keyed dr_id (d_decisions db) \<and> points (\<lambda>d. Some (dr_roomId d)) (d_decisions db) rm_id (d_rooms db)
   \<and> points dr_taskId (d_decisions db) tk_id (d_tasks db) \<and> points dr_runId (d_decisions db) rn_id (d_runs db)
   \<and> keyed hf_id (d_handoffs db) \<and> points (\<lambda>h. Some (hf_roomId h)) (d_handoffs db) rm_id (d_rooms db)
   \<and> points hf_taskId (d_handoffs db) tk_id (d_tasks db) \<and> points hf_runId (d_handoffs db) rn_id (d_runs db)
   \<and> keyed bk_id (d_blockers db) \<and> points (\<lambda>b. Some (bk_roomId b)) (d_blockers db) rm_id (d_rooms db)
   \<and> points bk_taskId (d_blockers db) tk_id (d_tasks db) \<and> points bk_runId (d_blockers db) rn_id (d_runs db)
   \<and> keyed ev_id (d_events db)"

lemma keyed_append [simp]: "keyed key (rows @ [r]) \<longleftrightarrow> keyed key rows \<and> key r \<notin> key ` set rows"
  by (auto simp: keyed_def)

lemma points_append_table: "points ref rows key table \<Longrightarrow> points ref rows key (table @ [x])"
  by (auto simp: points_def)

lemma points_append_rows [simp]: "points ref (rows @ [r]) key table \<longleftrightarrow>
    points ref rows key table \<and> (\<forall>i. ref r = Some i \<longrightarrow> i \<in> key ` set table)"
  by (auto simp: points_def)

lemma points_map: "points ref rows key table \<longleftrightarrow> (\<forall>v \<in> set (map ref rows). \<forall>i. v = Some i \<longrightarrow> i \<in> set (map key table))"
  by (simp add: points_def)

lemma keyed_set_rows: "(\<And>r. key (f r) = key r) \<Longrightarrow> keyed key (set_rows P f rows) = keyed key rows"
  by (simp add: keyed_def map_set_rows)

lemma points_set_rows: "(\<And>r. ref (f r) = ref r) \<Longrightarrow> points ref (set_rows P f rows) key table = points ref rows key table"
  by (simp add: points_map map_set_rows)

lemma points_set_table: "(\<And>r. key (f r) = key r) \<Longrightarrow> points ref rows key (set_rows P f table) = points ref rows key table"
  by (simp add: points_map map_set_rows)

lemmas set_rows_simps = keyed_set_rows points_set_rows points_set_table

lemma points_filter: "points ref rows key table \<Longrightarrow> points ref (filter P rows) key table"
  by (auto simp: points_def)

lemma keyed_filter: "keyed key rows \<Longrightarrow> keyed key (filter P rows)"
  by (simp add: keyed_def distinct_map_filter)

section \<open>The order every step respects\<close>

definition born :: "database \<Rightarrow> database \<Rightarrow> bool" where
  "born d d' \<longleftrightarrow> (\<forall>t \<in> set (drop (length (d_tasks d)) (d_tasks d')). task_sm.step\<^sup>*\<^sup>* TS_backlog (tk_status t))
     \<and> (\<forall>r \<in> set (drop (length (d_runs d)) (d_runs d')). run_sm.step\<^sup>*\<^sup>* RS_queued (rn_status r))"

definition safe :: "database \<Rightarrow> database \<Rightarrow> bool" where
  "safe d d' \<longleftrightarrow> Lifecycle_Order.evolves d d' \<and> born d d' \<and> (typed d \<longrightarrow> typed d')"

lemma set_drop_nth: "z \<in> set (drop n zs) \<longleftrightarrow> (\<exists>k. n \<le> k \<and> k < length zs \<and> z = zs ! k)"
proof
  assume "z \<in> set (drop n zs)"
  then obtain j where "j < length zs - n" "z = zs ! (n + j)" by (auto simp: in_set_conv_nth)
  then show "\<exists>k. n \<le> k \<and> k < length zs \<and> z = zs ! k" by (intro exI [of _ "n + j"]) auto
next
  assume "\<exists>k. n \<le> k \<and> k < length zs \<and> z = zs ! k"
  then obtain k where "n \<le> k" "k < length zs" "z = zs ! k" by blast
  then have "drop n zs ! (k - n) = z" "k - n < length (drop n zs)" by auto
  then show "z \<in> set (drop n zs)" using nth_mem by blast
qed

lemma born_part:
  assumes R: "\<And>x y. R x y \<Longrightarrow> N x \<Longrightarrow> N y"
    and "grown R ys zs" "\<forall>y \<in> set (drop n ys). N y" "\<forall>z \<in> set (drop (length ys) zs). N z"
  shows "\<forall>z \<in> set (drop n zs). N z"
proof
  fix z assume "z \<in> set (drop n zs)"
  then obtain k where k: "n \<le> k" "k < length zs" "z = zs ! k" by (auto simp: set_drop_nth)
  show "N z"
  proof (cases "k < length ys")
    case True
    then have "ys ! k \<in> set (drop n ys)" using k(1) by (auto simp: set_drop_nth)
    moreover have "R (ys ! k) (zs ! k)"
      using assms(2) True by (auto simp: grown_def list_all2_conv_all_nth)
    ultimately show ?thesis using R assms(3) k(3) by blast
  next
    case False
    then have "length ys \<le> k" by simp
    then have "z \<in> set (drop (length ys) zs)" unfolding set_drop_nth using k(2,3) by blast
    then show ?thesis using assms(4) by blast
  qed
qed

interpretation safe: db_order safe
proof
  show "safe d d" for d by (simp add: safe_def born_def life.order_refl)
  fix d d' d'' assume a: "safe d d'" "safe d' d''"
  have "born d d''"
    unfolding born_def
  proof (intro conjI)
    show "\<forall>t \<in> set (drop (length (d_tasks d)) (d_tasks d'')). task_sm.step\<^sup>*\<^sup>* TS_backlog (tk_status t)"
      by (rule born_part [where R = task_lives and ys = "d_tasks d'"])
         (use a in \<open>auto simp: safe_def born_def Lifecycle_Order.evolves_def task_lives_def grown_def\<close>)
    show "\<forall>r \<in> set (drop (length (d_runs d)) (d_runs d'')). run_sm.step\<^sup>*\<^sup>* RS_queued (rn_status r)"
      by (rule born_part [where R = run_lives and ys = "d_runs d'"])
         (use a in \<open>auto simp: safe_def born_def Lifecycle_Order.evolves_def run_lives_def grown_def\<close>)
  qed
  then show "safe d d''" using a life.order_trans by (auto simp: safe_def)
qed

section \<open>The writes\<close>

text \<open>A write that leaves tasks, runs and the log alone only has to keep the types.\<close>

lemma safe_same:
  "life_tables d' = life_tables d \<Longrightarrow> (typed d \<Longrightarrow> typed d') \<Longrightarrow> safe d d'"
  by (simp add: safe_def life_tables_def Lifecycle_Order.evolves_def born_def grown_refl)

lemma safe_leaves: "leaves (\<lambda>db. db) m \<Longrightarrow> moves safe m"
  by (rule movesI) (simp add: leaves_def safe.order_refl)

lemma safe_reads: "reads m \<Longrightarrow> moves safe m"
  by (rule safe.moves_reads)

lemma safe_update_goals:
  "(\<And>g. gl_id (f g) = gl_id g \<and> gl_projectId (f g) = gl_projectId g) \<Longrightarrow> moves safe (update_rows d_goals_update P f)"
  by (rule movesI) (auto simp: update_rows_run life_tables_def typed_def set_rows_simps intro!: safe_same)

lemma safe_update_plans:
  "(\<And>p. pl_id (f p) = pl_id p \<and> pl_goalId (f p) = pl_goalId p \<and> pl_version (f p) = pl_version p)
     \<Longrightarrow> moves safe (update_rows d_plans_update P f)"
  by (rule movesI) (auto simp: update_rows_run life_tables_def typed_def set_rows_simps intro!: safe_same)

lemma safe_update_approvals:
  "(\<And>a. ap_id (f a) = ap_id a \<and> ap_taskId (f a) = ap_taskId a) \<Longrightarrow> moves safe (update_rows d_approvals_update P f)"
  by (rule movesI) (auto simp: update_rows_run life_tables_def typed_def set_rows_simps intro!: safe_same)

lemma safe_update_decisions:
  "(\<And>d. dr_id (f d) = dr_id d \<and> dr_roomId (f d) = dr_roomId d \<and> dr_taskId (f d) = dr_taskId d \<and> dr_runId (f d) = dr_runId d)
     \<Longrightarrow> moves safe (update_rows d_decisions_update P f)"
  by (rule movesI) (auto simp: update_rows_run life_tables_def typed_def set_rows_simps intro!: safe_same)

lemma safe_update_handoffs:
  "(\<And>h. hf_id (f h) = hf_id h \<and> hf_roomId (f h) = hf_roomId h \<and> hf_taskId (f h) = hf_taskId h \<and> hf_runId (f h) = hf_runId h)
     \<Longrightarrow> moves safe (update_rows d_handoffs_update P f)"
  by (rule movesI) (auto simp: update_rows_run life_tables_def typed_def set_rows_simps intro!: safe_same)

lemma safe_update_blockers:
  "(\<And>b. bk_id (f b) = bk_id b \<and> bk_roomId (f b) = bk_roomId b \<and> bk_taskId (f b) = bk_taskId b \<and> bk_runId (f b) = bk_runId b)
     \<Longrightarrow> moves safe (update_rows d_blockers_update P f)"
  by (rule movesI) (auto simp: update_rows_run life_tables_def typed_def set_rows_simps intro!: safe_same)

lemma safe_update_leases:
  "(\<And>l. fl_id (f l) = fl_id l \<and> fl_taskId (f l) = fl_taskId l \<and> fl_runId (f l) = fl_runId l) \<Longrightarrow> moves safe (update_leases P f)"
  by (rule movesI) (auto simp: update_leases_def in_db_run life_tables_def typed_def set_rows_simps intro!: safe_same)

text \<open>Tasks, runs and the log.\<close>

lemma born_set_rows: "born d (d\<lparr>d_tasks := set_rows P f (d_tasks d)\<rparr>)" "born d (d\<lparr>d_runs := set_rows Q g (d_runs d)\<rparr>)"
  by (simp_all add: born_def set_rows_def)

lemma safe_update_tasks:
  assumes "\<And>t. P t \<Longrightarrow> task_lives t (f t)"
    and "\<And>t. tk_id (f t) = tk_id t \<and> tk_projectId (f t) = tk_projectId t \<and> tk_parentTaskId (f t) = tk_parentTaskId t
      \<and> tk_executionPolicyTaskId (f t) = tk_executionPolicyTaskId t \<and> tk_goalId (f t) = tk_goalId t"
  shows "moves safe (update_tasks P f)"
proof (rule movesI)
  fix w
  have "Lifecycle_Order.evolves (w_db w) (w_db (snd (update_tasks P f w)))"
    by (rule movesD [OF moves_update_tasks]) (rule assms(1))
  moreover have "typed (w_db w) \<Longrightarrow> typed (w_db (snd (update_tasks P f w)))"
    using assms(2) by (simp add: update_tasks_run typed_def set_rows_simps)
  ultimately show "safe (w_db w) (w_db (snd (update_tasks P f w)))"
    by (simp add: safe_def update_tasks_run born_set_rows)
qed

lemma safe_update_runs:
  assumes "\<And>r. P r \<Longrightarrow> run_lives r (f r)" and "\<And>r. rn_id (f r) = rn_id r \<and> rn_taskId (f r) = rn_taskId r"
  shows "moves safe (update_runs P f)"
proof (rule movesI)
  fix w
  have "Lifecycle_Order.evolves (w_db w) (w_db (snd (update_runs P f w)))"
    by (rule movesD [OF moves_update_runs]) (rule assms(1))
  moreover have "typed (w_db w) \<Longrightarrow> typed (w_db (snd (update_runs P f w)))"
    using assms(2) by (simp add: update_runs_run typed_def set_rows_simps)
  ultimately show "safe (w_db w) (w_db (snd (update_runs P f w)))"
    by (simp add: safe_def update_runs_run born_set_rows)
qed

lemma safe_appendEvent: "moves safe (appendEvent ctx input)"
proof (rule movesI)
  fix w
  have "Lifecycle_Order.evolves (w_db w) (w_db (snd (appendEvent ctx input w)))" by (rule movesD [OF life_appendEvent])
  moreover have "typed (w_db w) \<Longrightarrow> typed (w_db (snd (appendEvent ctx input w)))"
    by (simp add: appendEvent_result typed_def logged_def event_input.defs split: option.split)
  moreover have "born (w_db w) (w_db (snd (appendEvent ctx input w)))"
    by (simp add: appendEvent_result born_def split: option.split)
  ultimately show "safe (w_db w) (w_db (snd (appendEvent ctx input w)))" by (simp add: safe_def)
qed

lemma safe_emit: "moves safe (emit ctx spec)" "moves safe (emit_id ctx spec)"
  unfolding emit_def emit_id_def by (intro safe.moves_rules safe.moves_buildEvent safe_appendEvent)+

text \<open>Transitions, whose callbacks only build events.\<close>

definition safe_events :: "task_transition_params \<Rightarrow> bool" where
  "safe_events p \<longleftrightarrow> (\<forall>f to. tp_events p = Some f \<longrightarrow> moves safe (f to))"

lemma safe_events_simps [simp]:
  "safe_events \<lparr>tp_taskId = i, tp_from = s, tp_trigger = t, tp_now = n, tp_events = None\<rparr>"
  "safe_events \<lparr>tp_taskId = i, tp_from = s, tp_trigger = t, tp_now = n, tp_events = Some (\<lambda>to. build_all ctx (specs to))\<rparr>"
  "safe_events (ready_transition ctx row i n)" "safe_events (review_transition ctx i req n row arts)"
  by (simp_all add: safe_events_def safe.moves_build_all ready_transition_def review_transition_def)

lemma safe_transitionTask: "safe_events p \<Longrightarrow> moves safe (transitionTask ctx p)"
proof (rule safe.moves_transitionTask)
  fix to now assume ok: "applyTaskTransition (tp_from p) (tp_trigger p) = Inr to"
  have "task_sm.step (tp_from p) to" using ok by (rule task_sm.step)
  then show "moves safe (update_tasks (task_matches ctx (tp_taskId p) (tp_from p)) (\<lambda>t. t\<lparr>tk_status := to, tk_updatedAt := now\<rparr>))"
    by (intro safe_update_tasks) (auto simp: task_lives_def task_matches_def)
qed (auto simp: safe_events_def intro: safe_appendEvent)

lemma safe_transitionRun: "moves safe (transitionRun ctx params)"
  unfolding transitionRun_def
proof (rule safe.moves_lifted)
  fix to assume ok: "applyRunTransition (rp_from params) (rp_trigger params) = Inr to"
  have step: "run_sm.step (rp_from params) to" using ok by (rule run_sm.step)
  show "moves safe
     (bind (ts_nullable ctx (rp_endedAt (rp_patch params))) (\<lambda>ended.
     bind (ts_nullable ctx (rp_startedAt (rp_patch params))) (\<lambda>started.
     bind (update_runs (run_matches ctx (rp_runId params) (rp_from params))
             (\<lambda>r. r\<lparr>rn_status := to, rn_endedAt := patched ended (rn_endedAt r),
                    rn_startedAt := patched started (rn_startedAt r),
                    rn_failureReason := patched (rp_failureReason (rp_patch params)) (rn_failureReason r)\<rparr>)) (\<lambda>updated.
     ret \<lparr>tres_changed = 0 < length updated, tres_to = to\<rparr>))))"
    by (intro safe.moves_rules safe_update_runs) (use step in \<open>auto simp: run_lives_def run_matches_def\<close>)
qed

section \<open>The inserts\<close>

text \<open>The checks of an insert read; its row keeps the types when the checks have passed.\<close>

lemma safe_insert:
  assumes "reads chk" and "\<And>w r. chk w = (Inr r, w) \<Longrightarrow> safe (w_db w) (upd (\<lambda>rows. rows @ [r]) (w_db w))"
  shows "moves safe (bind chk (\<lambda>r. in_db (upd (\<lambda>rows. rows @ [r]))))"
proof (rule movesI)
  fix w
  obtain res v where run: "chk w = (res, v)" by fastforce
  have v: "v = w" by (rule readsD [OF assms(1) run])
  show "safe (w_db w) (w_db (snd (bind chk (\<lambda>r. in_db (upd (\<lambda>rows. rows @ [r]))) w)))"
  proof (cases res)
    case (Inl e)
    then show ?thesis using run v by (simp add: bind_err safe.order_refl)
  next
    case (Inr r)
    from assms(2) [of w r] show ?thesis using run v Inr by (simp add: bind_def in_db_run)
  qed
qed

lemma list_ex_key: "list_ex (\<lambda>r. key r = i) rows \<longleftrightarrow> i \<in> key ` set rows"
  by (auto simp: list_ex_iff)

lemma list_ex_key2: "list_ex (\<lambda>r. key r = i \<and> key' r = j) rows \<longleftrightarrow> (i, j) \<in> (\<lambda>r. (key r, key' r)) ` set rows"
  by (auto simp: list_ex_iff)

text \<open>What is known when a check has passed.\<close>

lemma check_passed:
  "bind (ts_value ctx t) f w = (Inr r, w') \<longleftrightarrow> (\<exists>t'. cx_ts ctx t = Some t' \<and> f t' w = (Inr r, w'))"
  "bind (ts_nullable ctx v) g w = (Inr r, w') \<longleftrightarrow> (\<exists>v'. ts_nullable ctx v w = (Inr v', w) \<and> g v' w = (Inr r, w'))"
  "bind (unique table same m) h w = (Inr r, w') \<longleftrightarrow> \<not> list_ex same (table (w_db w)) \<and> h () w = (Inr r, w')"
  "bind (refers t1 k1 m i) h w = (Inr r, w') \<longleftrightarrow> list_ex (\<lambda>x. k1 x = i) (t1 (w_db w)) \<and> h () w = (Inr r, w')"
  "bind (refers_opt t2 k2 m j) h w = (Inr r, w')
     \<longleftrightarrow> (\<forall>i. j = Some i \<longrightarrow> list_ex (\<lambda>x. k2 x = i) (t2 (w_db w))) \<and> h () w = (Inr r, w')"
  "bind (refers_own m n j) h w = (Inr r, w')
     \<longleftrightarrow> (\<forall>i. j = Some i \<longrightarrow> i = n \<or> list_ex (\<lambda>x. tk_id x = i) (d_tasks (w_db w))) \<and> h () w = (Inr r, w')"
  "bind (refuse_if c m) h w = (Inr r, w') \<longleftrightarrow> \<not> c (w_db w) \<and> h () w = (Inr r, w')"
  by (auto simp: bind_def ts_value_result unique_result ts_nullable_result refuse_if_result refers_own_def refers_opt_result refers_result run_basic
      split: option.splits if_splits)

lemma reads_checks [reads_rules]: "reads (unique table same m)" "reads (refers t1 k1 m i)" "reads (refers_opt t2 k2 m v)"
  "reads (refers_own m i v)" "reads (refers_links t r k n)"
  unfolding unique_def refers_def refers_opt_def refers_own_def refers_links_def by (intro reads_rules)+

lemma reads_checked:
  "reads (checked_room ctx a)" "reads (checked_task ctx b)" "reads (checked_approval ctx c)"
  "reads (checked_decision ctx d)" "reads (checked_handoff ctx e)" "reads (checked_blocker ctx f)"
  "reads (checked_goal ctx g)" "reads (checked_plan ctx h)" "reads (checked_checkpoint ctx i)"
  unfolding checked_room_def checked_task_def checked_approval_def checked_decision_def checked_handoff_def
    checked_blocker_def checked_goal_def checked_plan_def checked_checkpoint_def
  by (intro reads_rules)+

lemma safe_insert_room: "moves safe (insert_room ctx row)"
  unfolding insert_room_def
proof (rule safe_insert [OF reads_checked(1)], rule safe_same)
  fix w :: world and r assume run: "checked_room ctx row w = (Inr r, w)" and t: "typed (w_db w)"
  from run have "rm_id r = rm_id row" "rm_projectId r = rm_projectId row" "rm_goalId r = rm_goalId row"
    "rm_id row \<notin> rm_id ` set (d_rooms (w_db w))"
    "\<forall>i. rm_projectId row = Some i \<longrightarrow> i \<in> pj_id ` set (d_projects (w_db w))"
    "\<forall>i. rm_goalId row = Some i \<longrightarrow> i \<in> gl_id ` set (d_goals (w_db w))"
    by (auto simp: checked_room_def bind_checks list_ex_key run_basic split: option.splits if_splits)
  then show "typed (d_rooms_update (\<lambda>rows. rows @ [r]) (w_db w))"
    using t by (simp add: typed_def points_append_table)
qed (simp add: life_tables_def)

lemma safe_insert_approval: "moves safe (insert_approval ctx row)"
  unfolding insert_approval_def
proof (rule safe_insert [OF reads_checked(3)], rule safe_same)
  fix w :: world and r assume run: "checked_approval ctx row w = (Inr r, w)" and t: "typed (w_db w)"
  from run have "ap_id r = ap_id row" "ap_taskId r = ap_taskId row"
    "ap_id row \<notin> ap_id ` set (d_approvals (w_db w))"
    "ap_taskId row \<in> tk_id ` set (d_tasks (w_db w))"
    by (auto simp: checked_approval_def refers_links_def bind_assoc bind_checks list_ex_key refers_opt_result run_basic
        split: option.splits if_splits)
  then show "typed (d_approvals_update (\<lambda>rows. rows @ [r]) (w_db w))"
    using t by (simp add: typed_def points_append_table)
qed (simp add: life_tables_def)

lemma safe_insert_decision: "moves safe (insert_decision ctx row)"
  unfolding insert_decision_def
proof (rule safe_insert [OF reads_checked(4)], rule safe_same)
  fix w :: world and r assume run: "checked_decision ctx row w = (Inr r, w)" and t: "typed (w_db w)"
  from run have "dr_id r = dr_id row" "dr_roomId r = dr_roomId row" "dr_taskId r = dr_taskId row" "dr_runId r = dr_runId row"
    "dr_id row \<notin> dr_id ` set (d_decisions (w_db w))"
    "dr_roomId row \<in> rm_id ` set (d_rooms (w_db w))"
    "\<forall>i. dr_taskId row = Some i \<longrightarrow> i \<in> tk_id ` set (d_tasks (w_db w))"
    "\<forall>i. dr_runId row = Some i \<longrightarrow> i \<in> rn_id ` set (d_runs (w_db w))"
    by (auto simp: checked_decision_def refers_links_def bind_assoc bind_checks list_ex_key refers_opt_result run_basic
        split: option.splits if_splits)
  then show "typed (d_decisions_update (\<lambda>rows. rows @ [r]) (w_db w))"
    using t by (simp add: typed_def points_append_table)
qed (simp add: life_tables_def)

lemma safe_insert_handoff: "moves safe (insert_handoff ctx row)"
  unfolding insert_handoff_def
proof (rule safe_insert [OF reads_checked(5)], rule safe_same)
  fix w :: world and r assume run: "checked_handoff ctx row w = (Inr r, w)" and t: "typed (w_db w)"
  from run have "hf_id r = hf_id row" "hf_roomId r = hf_roomId row" "hf_taskId r = hf_taskId row" "hf_runId r = hf_runId row"
    "hf_id row \<notin> hf_id ` set (d_handoffs (w_db w))"
    "hf_roomId row \<in> rm_id ` set (d_rooms (w_db w))"
    "\<forall>i. hf_taskId row = Some i \<longrightarrow> i \<in> tk_id ` set (d_tasks (w_db w))"
    "\<forall>i. hf_runId row = Some i \<longrightarrow> i \<in> rn_id ` set (d_runs (w_db w))"
    by (auto simp: checked_handoff_def refers_links_def bind_assoc bind_checks list_ex_key refers_opt_result run_basic
        split: option.splits if_splits)
  then show "typed (d_handoffs_update (\<lambda>rows. rows @ [r]) (w_db w))"
    using t by (simp add: typed_def points_append_table)
qed (simp add: life_tables_def)

lemma safe_insert_blocker: "moves safe (insert_blocker ctx row)"
  unfolding insert_blocker_def
proof (rule safe_insert [OF reads_checked(6)], rule safe_same)
  fix w :: world and r assume run: "checked_blocker ctx row w = (Inr r, w)" and t: "typed (w_db w)"
  from run have "bk_id r = bk_id row" "bk_roomId r = bk_roomId row" "bk_taskId r = bk_taskId row" "bk_runId r = bk_runId row"
    "bk_id row \<notin> bk_id ` set (d_blockers (w_db w))"
    "bk_roomId row \<in> rm_id ` set (d_rooms (w_db w))"
    "\<forall>i. bk_taskId row = Some i \<longrightarrow> i \<in> tk_id ` set (d_tasks (w_db w))"
    "\<forall>i. bk_runId row = Some i \<longrightarrow> i \<in> rn_id ` set (d_runs (w_db w))"
    by (auto simp: checked_blocker_def refers_links_def bind_assoc bind_checks list_ex_key refers_opt_result run_basic
        split: option.splits if_splits)
  then show "typed (d_blockers_update (\<lambda>rows. rows @ [r]) (w_db w))"
    using t by (simp add: typed_def points_append_table)
qed (simp add: life_tables_def)

lemma safe_insert_goal: "moves safe (insert_goal ctx row)"
  unfolding insert_goal_def
proof (rule safe_insert [OF reads_checked(7)], rule safe_same)
  fix w :: world and r assume run: "checked_goal ctx row w = (Inr r, w)" and t: "typed (w_db w)"
  from run have "gl_id r = gl_id row" "gl_projectId r = gl_projectId row"
    "gl_id row \<notin> gl_id ` set (d_goals (w_db w))"
    "gl_projectId row \<in> pj_id ` set (d_projects (w_db w))"
    by (auto simp: checked_goal_def refers_links_def bind_assoc bind_checks list_ex_key refers_opt_result run_basic
        split: option.splits if_splits)
  then show "typed (d_goals_update (\<lambda>rows. rows @ [r]) (w_db w))"
    using t by (simp add: typed_def points_append_table)
qed (simp add: life_tables_def)

lemma safe_insert_plan: "moves safe (insert_plan ctx row)"
  unfolding insert_plan_def
proof (rule safe_insert [OF reads_checked(8)], rule safe_same)
  fix w :: world and r assume run: "checked_plan ctx row w = (Inr r, w)" and t: "typed (w_db w)"
  from run have "pl_id r = pl_id row" "pl_goalId r = pl_goalId row" "pl_version r = pl_version row"
    "pl_id row \<notin> pl_id ` set (d_plans (w_db w))"
    "pl_goalId row \<in> gl_id ` set (d_goals (w_db w))"
    "(pl_goalId row, pl_version row) \<notin> (\<lambda>p. (pl_goalId p, pl_version p)) ` set (d_plans (w_db w))"
    unfolding checked_plan_def bind_checks list_ex_key list_ex_key2
    by (auto simp: run_basic split: option.splits if_splits)
  then show "typed (d_plans_update (\<lambda>rows. rows @ [r]) (w_db w))"
    using t by (simp add: typed_def points_append_table)
qed (simp add: life_tables_def)

lemma safe_insert_checkpoint: "moves safe (insert_checkpoint ctx row)"
  unfolding insert_checkpoint_def
proof (rule safe_insert [OF reads_checked(9)], rule safe_same)
  fix w :: world and r assume run: "checked_checkpoint ctx row w = (Inr r, w)" and t: "typed (w_db w)"
  from run have "ck_id r = ck_id row" "ck_goalId r = ck_goalId row" "ck_planId r = ck_planId row"
    "ck_id row \<notin> ck_id ` set (d_checkpoints (w_db w))"
    "ck_goalId row \<in> gl_id ` set (d_goals (w_db w))"
    "\<forall>i. ck_planId row = Some i \<longrightarrow> i \<in> pl_id ` set (d_plans (w_db w))"
    by (auto simp: checked_checkpoint_def refers_links_def bind_assoc bind_checks list_ex_key refers_opt_result run_basic
        split: option.splits if_splits)
  then show "typed (d_checkpoints_update (\<lambda>rows. rows @ [r]) (w_db w))"
    using t by (simp add: typed_def points_append_table)
qed (simp add: life_tables_def)

text \<open>A task is born in backlog.\<close>

lemma safe_insert_task: "tk_status row = TS_backlog \<Longrightarrow> moves safe (insert_task ctx row)"
  unfolding insert_task_def
proof (rule safe_insert [OF reads_checked(2)])
  fix w :: world and r assume run: "checked_task ctx row w = (Inr r, w)" and status: "tk_status row = TS_backlog"
  from run have r: "tk_id r = tk_id row" "tk_projectId r = tk_projectId row" "tk_parentTaskId r = tk_parentTaskId row"
      "tk_executionPolicyTaskId r = tk_executionPolicyTaskId row" "tk_goalId r = tk_goalId row" "tk_status r = tk_status row"
    and keys: "tk_id row \<notin> tk_id ` set (d_tasks (w_db w))" "tk_projectId row \<in> pj_id ` set (d_projects (w_db w))"
      "\<forall>i. tk_parentTaskId row = Some i \<longrightarrow> i = tk_id row \<or> i \<in> tk_id ` set (d_tasks (w_db w))"
      "\<forall>i. tk_executionPolicyTaskId row = Some i \<longrightarrow> i = tk_id row \<or> i \<in> tk_id ` set (d_tasks (w_db w))"
      "\<forall>i. tk_goalId row = Some i \<longrightarrow> i \<in> gl_id ` set (d_goals (w_db w))"
    unfolding checked_task_def check_passed by (auto simp: run_basic list_ex_key)
  have "typed (d_tasks_update (\<lambda>rows. rows @ [r]) (w_db w))" if t: "typed (w_db w)"
  proof -
    have own: "points tk_parentTaskId (d_tasks (w_db w) @ [r]) tk_id (d_tasks (w_db w) @ [r])"
        "points tk_executionPolicyTaskId (d_tasks (w_db w) @ [r]) tk_id (d_tasks (w_db w) @ [r])"
      using t keys(3,4) by (auto simp: typed_def r intro!: points_append_table)
    show ?thesis using t keys(1,2,5) own by (simp add: typed_def r points_append_table)
  qed
  then show "safe (w_db w) (d_tasks_update (\<lambda>rows. rows @ [r]) (w_db w))"
    using status r(6) by (simp add: safe_def Lifecycle_Order.evolves_def grown_refl grown_append born_def)
qed

lemma safe_insert_dependency: "moves safe (insert_dependency ctx row)"
proof (rule movesI)
  fix w
  have "typed (w_db (snd (insert_dependency ctx row w)))" if t: "typed (w_db w)"
    using t unfolding insert_dependency_def bind_def ts_value_result refuse_if_result in_db_run
    by (cases "cx_ts ctx (dp_createdAt row)") (auto simp: typed_def)
  moreover have "life_tables (w_db (snd (insert_dependency ctx row w))) = life_tables (w_db w)"
    by (simp add: insert_dependency_def bind_def ts_value_result refuse_if_result in_db_run life_tables_def split: option.split)
  ultimately show "safe (w_db w) (w_db (snd (insert_dependency ctx row w)))" by (rule safe_same [rotated])
qed

lemma safe_insert_lease: "moves safe (insert_lease ctx row)"
proof -
  define chk where "chk =
     bind (ts_value ctx (fl_acquiredAt row)) (\<lambda>acquired.
     bind (ts_nullable ctx (fl_expiresAt row)) (\<lambda>expires.
     bind (ts_nullable ctx (fl_releasedAt row)) (\<lambda>released.
     bind (ts_value ctx (fl_createdAt row)) (\<lambda>created.
     bind (refuse_if (\<lambda>db. fl_id row \<in> fl_id ` set (d_leases db)) ''file_leases_pkey'') (\<lambda>_.
     bind (refuse_if (\<lambda>db. fl_taskId row \<notin> tk_id ` set (d_tasks db)) ''file_leases_task_id_fk'') (\<lambda>_.
     bind (refuse_if (\<lambda>db. case fl_runId row of None \<Rightarrow> False | Some r \<Rightarrow> r \<notin> rn_id ` set (d_runs db))
             ''file_leases_run_id_fk'') (\<lambda>_.
     ret (row\<lparr>fl_acquiredAt := acquired, fl_expiresAt := expires, fl_releasedAt := released, fl_createdAt := created\<rparr>))))))))"
  have split: "insert_lease ctx row = bind chk (\<lambda>r. in_db (d_leases_update (\<lambda>rows. rows @ [r])))"
    by (simp add: insert_lease_def chk_def bind_assoc)
  have pure: "reads chk" unfolding chk_def by (intro reads_rules)
  have keys: "fl_id r = fl_id row" "fl_taskId r = fl_taskId row" "fl_runId r = fl_runId row"
      "fl_id row \<notin> fl_id ` set (d_leases (w_db w))" "fl_taskId row \<in> tk_id ` set (d_tasks (w_db w))"
      "\<forall>i. fl_runId row = Some i \<longrightarrow> i \<in> rn_id ` set (d_runs (w_db w))"
    if "chk w = (Inr r, w)" for w r
    using that unfolding chk_def check_passed by (auto simp: run_basic split: option.splits)
  show ?thesis
    unfolding split
  proof (rule safe_insert [OF pure], rule safe_same)
    fix w :: world and r assume run: "chk w = (Inr r, w)" and t: "typed (w_db w)"
    show "typed (d_leases_update (\<lambda>rows. rows @ [r]) (w_db w))"
      using t keys [OF run] by (simp add: typed_def)
  qed (simp add: life_tables_def)
qed

lemma safe_delete_dependency: "moves safe (delete_dependency_row i)"
  unfolding delete_dependency_row_def
  by (rule safe.moves_in_db, rule safe_same) (auto simp: life_tables_def typed_def points_filter keyed_filter)

lemmas safe_inserts = safe_insert_room safe_insert_task safe_insert_approval safe_insert_decision safe_insert_handoff
  safe_insert_blocker safe_insert_goal safe_insert_plan safe_insert_checkpoint safe_insert_dependency safe_insert_lease

lemmas safe_updates = safe_update_goals safe_update_plans safe_update_approvals safe_update_decisions
  safe_update_handoffs safe_update_blockers safe_update_leases

lemmas safe_rules = safe.moves_rules safe_emit safe_appendEvent safe.moves_buildEvent safe.moves_build_all
  safe_transitionTask safe_transitionRun safe_inserts safe_updates safe_delete_dependency

lemma safe_sum: "(\<And>e. v = Inl e \<Longrightarrow> moves safe (g e)) \<Longrightarrow> (\<And>x. v = Inr x \<Longrightarrow> moves safe (f x))
    \<Longrightarrow> moves safe (case v of Inl e \<Rightarrow> g e | Inr x \<Rightarrow> f x)"
  by (cases v) simp_all

section \<open>Every operation respects the order\<close>

lemma safe_unlock_one: "moves safe (unlock_one ctx edges st now c acc i)"
  unfolding unlock_one_def find_task_def isDependentSatisfied_def loadEvidenceMap_def Let_def
  by (intro safe_rules) simp

lemma safe_dag:
  "moves safe (createDependency ctx i req)" "moves safe (deleteDependency ctx i j)"
  "moves safe (unlockDownstream ctx i)" "moves safe (propagateBlocked ctx i reason)"
  unfolding createDependency_def add_edge_def deleteDependency_def unlockDownstream_def propagateBlocked_def
    signal_one_def [abs_def] loadEdges_def loadStatusMap_def find_task_def Let_def
  by (intro safe_rules safe_unlock_one)+

lemma safe_expire: "moves safe (expireStaleLeases ctx ls now)"
  unfolding expireStaleLeases_def by (intro safe_rules) simp

lemma safe_release_row: "moves safe (release_row ctx now l)"
  unfolding release_row_def by (intro safe_rules) simp

lemma safe_leases:
  "moves safe (acquireLease ctx req)" "moves safe (releaseLease ctx i)" "moves safe (listLeases ctx p s)"
  "moves safe (reserveRunLeases ctx params)" "moves safe (releaseRunLeases ctx i)"
proof -
  have path: "moves safe (reserve_path ctx params now acc p)" for now acc p
    unfolding reserve_path_def Let_def by (cases acc; simp only: prod.case) (intro safe_rules)
  have keys: "moves safe (write_keys ps)" for ps
    unfolding write_keys_def by (intro safe_rules safe_sum)
  show "moves safe (acquireLease ctx req)" "moves safe (releaseLease ctx i)" "moves safe (listLeases ctx p s)"
    "moves safe (reserveRunLeases ctx params)" "moves safe (releaseRunLeases ctx i)"
    unfolding acquireLease_def grant_lease_def releaseLease_def listLeases_def reserveRunLeases_def releaseRunLeases_def Let_def
    by (intro safe_rules safe_sum safe_expire safe_release_row path keys)+
qed

lemma safe_records:
  "moves safe (createDecision ctx cd)" "moves safe (setDecisionStatus ctx i ds sb)"
  "moves safe (createHandoff ctx ch)" "moves safe (setHandoffStatus ctx i hs na ls)"
  "moves safe (createBlocker ctx cb)" "moves safe (setBlockerStatus ctx i bs mit na)"
  unfolding createDecision_def setDecisionStatus_def createHandoff_def setHandoffStatus_def createBlocker_def
    setBlockerStatus_def assertOptionalLinks_def requireRoom_def promoted_def emit_record_def getDecision_def
    getHandoff_def getBlocker_def Let_def
  by ((intro safe_rules; simp?)+)

lemma safe_resolveBlockers: "moves safe (resolveBlockersForSource ctx k i)"
  unfolding resolveBlockersForSource_def resolve_one_def [abs_def] by (intro safe_rules safe_records)

lemma safe_updates_goals:
  "(\<And>g. gl_id (f g) = gl_id g \<and> gl_projectId (f g) = gl_projectId g) \<Longrightarrow> moves safe (update_goals P f)"
  unfolding update_goals_def by (intro safe_rules) simp

lemma safe_approvals:
  "moves safe (requestApproval ctx rq)" "moves safe (requestExecutionApproval ctx i summary risk)"
  "moves safe (bindExecutionApprovalToRun ctx i j)" "moves safe (resolveApproval ctx i req)"
proof -
  have ref: "moves safe (refers t k m j)" for t :: "database \<Rightarrow> 'r list" and k m j by (intro safe_reads reads_checks)
  have relink: "moves safe (relink_blocker ctx i now acc b)" for i now acc b
    unfolding relink_blocker_def by (intro safe_rules) simp
  have supersede: "moves safe (supersede ctx now a)" for now a
    unfolding supersede_def by (intro safe_rules) simp_all
  have resolve: "moves safe (resolve_linked ctx now a b)" for now a b
    unfolding resolve_linked_def by (intro safe_rules) simp
  show "moves safe (requestApproval ctx rq)"
    unfolding requestApproval_def by (intro safe_rules) simp
  show "moves safe (requestExecutionApproval ctx i summary risk)"
    unfolding requestExecutionApproval_def Let_def by (intro safe_rules relink supersede)
  show "moves safe (bindExecutionApprovalToRun ctx i j)"
    unfolding bindExecutionApprovalToRun_def Let_def by (intro safe_rules safe_reads reads_checks) simp
  show "moves safe (resolveApproval ctx i req)"
    unfolding resolveApproval_def resolve_tx_def approval_row_of_def Let_def
    by (intro safe_rules resolve safe_resolveBlockers) simp_all
qed

lemma safe_checkpoint: "moves safe (createCheckpointInTx ctx goal type opts)"
  unfolding createCheckpointInTx_def by (intro safe_rules safe_reads [OF reads_synthesize])

lemma safe_budgets: "moves safe (enforceGoalBudget ctx i)" "moves safe (scan_budgets ctx)"
proof -
  have usage: "moves safe (computeUsageInTx ctx' goal)" for ctx' goal
    unfolding computeUsageInTx_def Let_def by (intro safe_rules safe_reads [OF reads_sel_of_tasks])
  have enforce: "moves safe (enforceGoalBudget ctx' i)" for ctx' i
    unfolding enforceGoalBudget_def pause_for_budget_def Let_def
    by (intro safe_rules usage safe_updates_goals safe_checkpoint) simp
  then show "moves safe (enforceGoalBudget ctx i)" .
  show "moves safe (scan_budgets ctx)"
    unfolding scan_budgets_def
    by (intro safe_rules) (rule movesI, simp add: movesD [OF enforce])
qed

lemma safe_goals:
  "moves safe (createGoal ctx input)" "moves safe (transitionGoal ctx i trigger)"
  "moves safe (fence_goal ctx i now)" "moves safe (finish_cancel ctx i now)"
proof -
  have runs: "moves safe (goal_runs ctx i)" and held: "moves safe (goal_held ctx i)"
    unfolding goal_runs_def goal_held_def sel_runs_tasks_def sel_leases_tasks_def by (intro safe_rules)+
  have child: "moves safe (cancel_child ctx i now task)" for task
    unfolding cancel_child_def by (intro safe_rules safe_dag) simp
  show "moves safe (createGoal ctx input)"
    unfolding createGoal_def getGoal_def by (intro safe_rules; (simp add: split_def)?; (intro safe_rules)?; simp?)
  show "moves safe (transitionGoal ctx i trigger)"
    unfolding transitionGoal_def transition_goal_tx_def getGoal_def by (intro safe_rules safe_checkpoint) simp
  show "moves safe (fence_goal ctx i now)"
    unfolding fence_goal_def by (intro safe_rules) simp
  show "moves safe (finish_cancel ctx i now)"
    unfolding finish_cancel_def by (intro safe_rules runs held child safe_reads [OF reads_unsettled]) simp
qed

lemma safe_materialize: "moves safe (materializeInTx ctx i now)"
proof -
  have spec: "moves safe (materialize_spec ctx goal i now p)" for goal i p
    unfolding materialize_spec_def by (cases p; simp only: prod.case) (intro safe_rules, simp)
  have edge: "moves safe (materialize_edge ctx goal now e)" for goal e
    unfolding materialize_edge_def by (intro safe_rules)
  have ids: "moves safe (new_task_ids ctx specs)" for specs :: "'x list"
    unfolding new_task_ids_def by (intro safe_rules)
  show ?thesis
    unfolding materializeInTx_def requireGoalInOrg_def plan_task_ids_def materialize_new_def stored_plan_def Let_def
    by (intro safe_rules spec edge ids safe_checkpoint safe_reads [OF reads_has_materialize]) simp_all
qed

lemma safe_plans:
  "moves safe (proposePlan ctx i pin)" "moves safe (rejectPlan ctx i)" "moves safe (materializePlan ctx i)"
  "moves safe (acceptPlan ctx i)"
proof -
  have retire: "moves safe (retire_task ctx goal i now hist acc t)" for goal now hist acc t
    unfolding retire_task_def by (intro safe_rules) simp
  have joined: "moves safe (sel_runs_tasks P)" for P unfolding sel_runs_tasks_def by (intro safe_rules)
  show "moves safe (proposePlan ctx i pin)"
    unfolding proposePlan_def proposePlanInTx_def requireGoalInOrg_def stored_plan_def Let_def by (intro safe_rules)
  show "moves safe (rejectPlan ctx i)"
    unfolding rejectPlan_def reject_row_def requireGoalInOrg_def stored_plan_def by (intro safe_rules) simp
  show "moves safe (materializePlan ctx i)"
    unfolding materializePlan_def by (intro safe_rules safe_materialize)
  show "moves safe (acceptPlan ctx i)"
    unfolding acceptPlan_def accept_tx_def accept_new_def requireGoalInOrg_def retire_current_def Let_def
    by (intro safe_rules safe_materialize retire joined safe_dag safe_reads [OF reads_unsettled]) simp_all
qed

lemma safe_lifecycle:
  "moves safe (markReady ctx i)" "moves safe (retryTask ctx i)" "moves safe (reviewTask ctx i req base)"
proof -
  have joined: "moves safe (incoming_rows ctx i)" unfolding incoming_rows_def by (intro safe_rules)
  have satisfied: "moves safe (isDependentSatisfied ctx es st)" for es st
    unfolding isDependentSatisfied_def loadEvidenceMap_def Let_def by (intro safe_rules)
  have count: "moves safe (incrementLinkedGoalRetryCount ctx g now)" for g now
    unfolding incrementLinkedGoalRetryCount_def by (intro safe_rules) simp
  have complete: "moves safe (completeGoalIfAllTasksDone ctx g now)" for g now
    unfolding completeGoalIfAllTasksDone_def by (intro safe_rules safe_updates_goals) simp
  have children: "moves safe (assert_children_ended ctx g)" for g
    unfolding assert_children_ended_def Let_def by (intro safe_rules)
  show "moves safe (markReady ctx i)"
    unfolding markReady_def ready_tx_def find_task_def
    by (intro safe_rules joined satisfied safe_reads [OF reads_stored_task]) simp
  show "moves safe (retryTask ctx i)"
    unfolding retryTask_def find_task_def
    by (intro safe_rules count safe_leaves [OF unchanged_retry] safe_reads [OF reads_stored_task]) simp
  show "moves safe (reviewTask ctx i req base)"
    unfolding reviewTask_def review_tx_def find_task_def after_review_def
    by (intro safe_rules count complete children safe_dag safe_leaves [OF unchanged_retry]
        safe_reads [OF reads_stored_task] safe_reads [OF reads_fresh]) simp
qed

section \<open>The steps of the server\<close>

text \<open>
  One call of an operation, with whatever it returns or throws. The two transactions of a goal's
  cancellation are steps of their own, since other calls interleave with the wait for the runs to
  stop; bare transitions stand for the services that are not modelled, which move tasks and runs
  only through them.
\<close>

inductive sys_step :: "world \<Rightarrow> world \<Rightarrow> bool" where
  createDependency: "sys_step w (snd (createDependency ctx i dreq w))"
| deleteDependency: "sys_step w (snd (deleteDependency ctx i j w))"
| acquireLease: "sys_step w (snd (acquireLease ctx lreq w))"
| releaseLease: "sys_step w (snd (releaseLease ctx i w))"
| listLeases: "sys_step w (snd (listLeases ctx i ls w))"
| reserveRunLeases: "sys_step w (snd (reserveRunLeases ctx params w))"
| releaseRunLeases: "sys_step w (snd (releaseRunLeases ctx i w))"
| createDecision: "sys_step w (snd (createDecision ctx cd w))"
| setDecisionStatus: "sys_step w (snd (setDecisionStatus ctx i ds other w))"
| createHandoff: "sys_step w (snd (createHandoff ctx ch w))"
| setHandoffStatus: "sys_step w (snd (setHandoffStatus ctx i hs na st w))"
| createBlocker: "sys_step w (snd (createBlocker ctx cb w))"
| setBlockerStatus: "sys_step w (snd (setBlockerStatus ctx i bs mit na w))"
| resolveBlockersForSource: "sys_step w (snd (resolveBlockersForSource ctx kind i w))"
| requestApproval: "sys_step w (snd (requestApproval ctx areq w))"
| requestExecutionApproval: "sys_step w (snd (requestExecutionApproval ctx i summary risk w))"
| bindExecutionApprovalToRun: "sys_step w (snd (bindExecutionApprovalToRun ctx i j w))"
| resolveApproval: "sys_step w (snd (resolveApproval ctx i rreq w))"
| enforceGoalBudget: "sys_step w (snd (enforceGoalBudget ctx i w))"
| scan_budgets: "sys_step w (snd (scan_budgets ctx w))"
| createGoal: "sys_step w (snd (createGoal ctx ginput w))"
| transitionGoal: "sys_step w (snd (transitionGoal ctx i gtrigger w))"
| fence_goal: "sys_step w (snd (transaction (fence_goal ctx i now) w))"
| finish_cancel: "sys_step w (snd (transaction (finish_cancel ctx i now) w))"
| proposePlan: "sys_step w (snd (proposePlan ctx i pinput w))"
| rejectPlan: "sys_step w (snd (rejectPlan ctx i w))"
| acceptPlan: "sys_step w (snd (acceptPlan ctx i w))"
| materializePlan: "sys_step w (snd (materializePlan ctx i w))"
| markReady: "sys_step w (snd (markReady ctx i w))"
| retryTask: "sys_step w (snd (retryTask ctx i w))"
| reviewTask: "sys_step w (snd (reviewTask ctx i vreq base w))"
| transitionTask: "tp_events tp = None \<Longrightarrow> sys_step w (snd (transaction (transitionTask ctx tp) w))"
| transitionRun: "sys_step w (snd (transaction (transitionRun ctx rp) w))"

lemmas safe_operations = safe_dag safe_leases safe_records safe_resolveBlockers safe_approvals safe_budgets safe_goals
  safe_plans safe_lifecycle safe_transitionRun

lemma sys_step_safe: "sys_step w w' \<Longrightarrow> safe (w_db w) (w_db w')"
proof (induction rule: sys_step.induct)
  case (transitionTask tp w ctx)
  then have "safe_events tp" by (simp add: safe_events_def)
  then show ?case by (intro movesD [where R = safe] safe.moves_transaction safe_transitionTask)
qed (rule movesD [where R = safe], (intro safe.moves_transaction)?, rule safe_operations)+

lemma sys_steps_safe: "sys_step\<^sup>*\<^sup>* w w' \<Longrightarrow> safe (w_db w) (w_db w')"
  by (induction rule: rtranclp_induct) (auto intro: safe.order_refl safe.order_trans sys_step_safe)

section \<open>The abstract machine\<close>

text \<open>A table of things that are created in a first status and move along a state machine.\<close>

inductive table_step :: "('s \<Rightarrow> 's \<Rightarrow> bool) \<Rightarrow> 's \<Rightarrow> (ident \<times> 's) list \<Rightarrow> (ident \<times> 's) list \<Rightarrow> bool"
  for S :: "'s \<Rightarrow> 's \<Rightarrow> bool" and start :: 's where
  created: "i \<notin> fst ` set xs \<Longrightarrow> table_step S start xs (xs @ [(i, start)])"
| moved: "S s s' \<Longrightarrow> table_step S start (xs @ (i, s) # ys) (xs @ (i, s') # ys)"

lemma table_moves: "S\<^sup>*\<^sup>* s s' \<Longrightarrow> (table_step S start)\<^sup>*\<^sup>* (xs @ (i, s) # ys) (xs @ (i, s') # ys)"
  by (induction rule: rtranclp_induct) (auto intro: table_step.moved rtranclp.rtrancl_into_rtrancl)

lemma table_lives:
  "list_all2 (\<lambda>a b. fst b = fst a \<and> S\<^sup>*\<^sup>* (snd a) (snd b)) ys zs \<Longrightarrow> (table_step S start)\<^sup>*\<^sup>* (xs @ ys) (xs @ zs)"
proof (induction ys zs arbitrary: xs rule: list_all2_induct)
  case (Cons a ys b zs)
  have "(table_step S start)\<^sup>*\<^sup>* (xs @ (fst a, snd a) # ys) (xs @ (fst a, snd b) # ys)"
    using Cons by (intro table_moves) simp
  moreover have "(table_step S start)\<^sup>*\<^sup>* ((xs @ [b]) @ ys) ((xs @ [b]) @ zs)" by (rule Cons.IH)
  ultimately show ?case using Cons(1) by (metis append.assoc append_Cons append_Nil prod.collapse rtranclp_trans)
qed simp

lemma table_births:
  "distinct (map fst (xs @ new)) \<Longrightarrow> \<forall>z \<in> set new. S\<^sup>*\<^sup>* start (snd z) \<Longrightarrow> (table_step S start)\<^sup>*\<^sup>* xs (xs @ new)"
proof (induction new rule: rev_induct)
  case (snoc z new)
  have "(table_step S start)\<^sup>*\<^sup>* xs (xs @ new)" using snoc by auto
  also have "table_step S start (xs @ new) ((xs @ new) @ [(fst z, start)])"
    by (rule table_step.created) (use snoc.prems(1) in \<open>auto simp: image_iff\<close>)
  also have "(table_step S start)\<^sup>*\<^sup>* ((xs @ new) @ [(fst z, start)]) ((xs @ new) @ [(fst z, snd z)])"
    by (rule table_moves) (use snoc.prems(2) in simp)
  finally show ?case by simp
qed simp

lemma table_grown:
  assumes "grown L rows rows'" "\<And>a b. L a b \<Longrightarrow> key b = key a \<and> S\<^sup>*\<^sup>* (status a) (status b)"
    and "distinct (map key rows')" "\<forall>r \<in> set (drop (length rows) rows'). S\<^sup>*\<^sup>* start (status r)"
  shows "(table_step S start)\<^sup>*\<^sup>* (map (\<lambda>r. (key r, status r)) rows) (map (\<lambda>r. (key r, status r)) rows')"
proof -
  let ?m = "map (\<lambda>r. (key r, status r))"
  from assms(1) obtain zs new where rows': "rows' = zs @ new" and kept: "list_all2 L rows zs" by (auto simp: grown_iff)
  have len: "length zs = length rows" using kept by (simp add: list_all2_lengthD)
  have "(table_step S start)\<^sup>*\<^sup>* ([] @ ?m rows) ([] @ ?m zs)"
    by (rule table_lives)
       (use kept assms(2) in \<open>auto simp: list_all2_map1 list_all2_map2 intro: list_all2_mono\<close>)
  moreover have "(table_step S start)\<^sup>*\<^sup>* (?m zs) (?m zs @ ?m new)"
    by (rule table_births) (use assms(3,4) rows' len in \<open>auto simp: comp_def\<close>)
  ultimately show ?thesis by (simp add: rows')
qed

text \<open>The abstract server: tasks, runs and a log.\<close>

record life =
  lf_tasks :: "(ident \<times> task_status) list"
  lf_runs :: "(ident \<times> run_status) list"
  lf_log :: "ident list"

inductive life_step :: "life \<Rightarrow> life \<Rightarrow> bool" where
  task: "table_step task_sm.step TS_backlog (lf_tasks s) ts \<Longrightarrow> life_step s (s\<lparr>lf_tasks := ts\<rparr>)"
| run: "table_step run_sm.step RS_queued (lf_runs s) rs \<Longrightarrow> life_step s (s\<lparr>lf_runs := rs\<rparr>)"
| logged: "e \<notin> set (lf_log s) \<Longrightarrow> life_step s (s\<lparr>lf_log := lf_log s @ [e]\<rparr>)"

definition lives :: "database \<Rightarrow> life" where
  "lives d = \<lparr>lf_tasks = map (\<lambda>t. (tk_id t, tk_status t)) (d_tasks d),
     lf_runs = map (\<lambda>r. (rn_id r, rn_status r)) (d_runs d), lf_log = map ev_id (d_events d)\<rparr>"

lemma life_tasks: "(table_step task_sm.step TS_backlog)\<^sup>*\<^sup>* ts ts' \<Longrightarrow>
    life_step\<^sup>*\<^sup>* \<lparr>lf_tasks = ts, lf_runs = rs, lf_log = l\<rparr> \<lparr>lf_tasks = ts', lf_runs = rs, lf_log = l\<rparr>"
  by (induction rule: rtranclp_induct)
     (auto intro: rtranclp.rtrancl_into_rtrancl dest: life_step.task [of "\<lparr>lf_tasks = _, lf_runs = rs, lf_log = l\<rparr>", simplified])

lemma life_runs: "(table_step run_sm.step RS_queued)\<^sup>*\<^sup>* rs rs' \<Longrightarrow>
    life_step\<^sup>*\<^sup>* \<lparr>lf_tasks = ts, lf_runs = rs, lf_log = l\<rparr> \<lparr>lf_tasks = ts, lf_runs = rs', lf_log = l\<rparr>"
  by (induction rule: rtranclp_induct)
     (auto intro: rtranclp.rtrancl_into_rtrancl dest: life_step.run [of "\<lparr>lf_tasks = ts, lf_runs = _, lf_log = l\<rparr>", simplified])

lemma life_log: "distinct (l @ es) \<Longrightarrow>
    life_step\<^sup>*\<^sup>* \<lparr>lf_tasks = ts, lf_runs = rs, lf_log = l\<rparr> \<lparr>lf_tasks = ts, lf_runs = rs, lf_log = l @ es\<rparr>"
proof (induction es rule: rev_induct)
  case (snoc e es)
  have "life_step \<lparr>lf_tasks = ts, lf_runs = rs, lf_log = l @ es\<rparr> \<lparr>lf_tasks = ts, lf_runs = rs, lf_log = (l @ es) @ [e]\<rparr>"
    using snoc.prems life_step.logged [of e "\<lparr>lf_tasks = ts, lf_runs = rs, lf_log = l @ es\<rparr>"] by simp
  then show ?case using snoc by (auto intro: rtranclp.rtrancl_into_rtrancl)
qed simp

lemma safe_refines:
  assumes "safe d d'" "typed d" shows "life_step\<^sup>*\<^sup>* (lives d) (lives d')"
proof -
  have typed: "typed d'" and ev: "Lifecycle_Order.evolves d d'" and born: "born d d'"
    using assms by (auto simp: safe_def)
  let ?ts = "\<lambda>d. map (\<lambda>t. (tk_id t, tk_status t)) (d_tasks d)" and ?rs = "\<lambda>d. map (\<lambda>r. (rn_id r, rn_status r)) (d_runs d)"
  have ts: "(table_step task_sm.step TS_backlog)\<^sup>*\<^sup>* (?ts d) (?ts d')"
    by (rule table_grown [where L = task_lives])
       (use ev born typed in \<open>simp_all add: Lifecycle_Order.evolves_def task_lives_def born_def typed_def keyed_def\<close>)
  have rs: "(table_step run_sm.step RS_queued)\<^sup>*\<^sup>* (?rs d) (?rs d')"
    by (rule table_grown [where L = run_lives])
       (use ev born typed in \<open>simp_all add: Lifecycle_Order.evolves_def run_lives_def born_def typed_def keyed_def\<close>)
  obtain new where new: "d_events d' = d_events d @ new" using ev by (auto simp: Lifecycle_Order.evolves_def grown_eq)
  have "distinct (map ev_id (d_events d) @ map ev_id new)" using typed new by (simp add: typed_def keyed_def)
  from life_tasks [OF ts, of "?rs d"] life_runs [OF rs, of "?ts d'"] life_log [OF this, of "?ts d'" "?rs d'"]
  show ?thesis unfolding lives_def new map_append by (meson rtranclp_trans)
qed

text \<open>What a row keeps forever: its identity, and the status it has ended with.\<close>

definition task_kept :: "task_row \<Rightarrow> task_row \<Rightarrow> bool" where
  "task_kept t t' \<longleftrightarrow> tk_id t' = tk_id t \<and> tk_projectId t' = tk_projectId t \<and> tk_goalId t' = tk_goalId t
     \<and> (isTaskTerminal (tk_status t) \<longrightarrow> tk_status t' = tk_status t)"

definition run_kept :: "run_row \<Rightarrow> run_row \<Rightarrow> bool" where
  "run_kept r r' \<longleftrightarrow> rn_id r' = rn_id r \<and> rn_taskId r' = rn_taskId r
     \<and> (isRunTerminal (rn_status r) \<longrightarrow> rn_status r' = rn_status r)"

lemma grown_mono: "grown R xs ys \<Longrightarrow> (\<And>x y. R x y \<Longrightarrow> Q x y) \<Longrightarrow> grown Q xs ys"
  unfolding grown_def by (auto intro: list_all2_mono)

lemma task_lives_kept: "task_lives t t' \<Longrightarrow> task_kept t t'"
  by (auto simp: task_lives_def task_kept_def dest: task_sm.terminal_absorbing)

lemma run_lives_kept: "run_lives r r' \<Longrightarrow> run_kept r r'"
  by (auto simp: run_lives_def run_kept_def dest: run_sm.terminal_absorbing)

section \<open>The server as a whole\<close>


text \<open>
  Property C3. The services refine the abstract server: seen through the statuses of the tasks and
  the runs and the ids of the log, every run of the server is a run of the machine in which a task
  is created in backlog and a run in queued, under a fresh id, a status changes only along its state
  machine, and the log only receives fresh events.
\<close>

theorem server_refines_life:
  assumes "sys_step\<^sup>*\<^sup>* w w'" "typed (w_db w)" shows "life_step\<^sup>*\<^sup>* (lives (w_db w)) (lives (w_db w'))"
  by (rule safe_refines [OF sys_steps_safe [OF assms(1)] assms(2)])

text \<open>
  Property C6. Nothing of the history is lost or rewritten: the log of the past is a prefix of the
  log, every task and every run is still there under its id, in its place, and a task or a run that
  has ended still has the status it ended with.
\<close>

theorem server_keeps_history:
  assumes "sys_step\<^sup>*\<^sup>* w w'"
  shows "grown task_kept (d_tasks (w_db w)) (d_tasks (w_db w')) \<and> grown run_kept (d_runs (w_db w)) (d_runs (w_db w'))
    \<and> (\<exists>new. d_events (w_db w') = d_events (w_db w) @ new)"
  using sys_steps_safe [OF assms]
  by (auto simp: safe_def Lifecycle_Order.evolves_def grown_eq intro: grown_mono task_lives_kept run_lives_kept)

section \<open>A concrete run\<close>

text \<open>A plan of two tasks is proposed and accepted.\<close>

definition demo_served :: world where
  "demo_served = snd (acceptPlan demo_ctx demo_plan_id (demo_proposed [(''0'', ''blocks'')]))"

lemma demo_served_steps: "sys_step\<^sup>*\<^sup>* demo_plan_world demo_served"
proof -
  have "sys_step demo_plan_world (demo_proposed [(''0'', ''blocks'')])"
    unfolding demo_proposed_def by (rule sys_step.proposePlan)
  moreover have "sys_step (demo_proposed [(''0'', ''blocks'')]) demo_served"
    unfolding demo_served_def by (rule sys_step.acceptPlan)
  ultimately show ?thesis by (rule converse_rtranclp_into_rtranclp [OF _ r_into_rtranclp])
qed

definition demo_summary :: "database \<Rightarrow> task_status list \<times> goal_status list \<times> nat" where
  "demo_summary d = (map tk_status (d_tasks d), map gl_status (d_goals d), length (d_events d))"

lemma demo_served_rows: "demo_summary (w_db demo_served) = ([TS_backlog, TS_backlog], [GS_running], 8)"
  by code_simp

lemma demo_typed: "typed (w_db demo_plan_world)"
  by (simp add: typed_def keyed_def points_def demo_plan_world_def demo_world_def demo_goal_def empty_db_def)


lemma server_refines_life_witness:
  "life_step\<^sup>*\<^sup>* (lives (w_db demo_plan_world)) (lives (w_db demo_served))
   \<and> map snd (lf_tasks (lives (w_db demo_served))) = [TS_backlog, TS_backlog]"
  using server_refines_life [OF demo_served_steps demo_typed] demo_served_rows by (simp add: demo_summary_def lives_def comp_def)

lemma server_keeps_history_witness:
  "\<exists>new. d_events (w_db demo_served) = d_events (w_db demo_plan_world) @ new \<and> length new = 8"
  using server_keeps_history [OF demo_served_steps] demo_served_rows
  by (auto simp: demo_summary_def demo_plan_world_def demo_world_def empty_db_def)

end
