(* ===== verification/Spec2Isabelle.thy ===== *)
theory Spec2Isabelle
  imports Task_State Goal_State Dag Lease_Path Goal_Control Memory_State Supervisor Client_Sync
    Command_Queue Presence Kv_Store Skill Workspace Transition_Service Lease_Service Dag_Service
    Execution_State Collaboration_Service Approval_Service Control_Plane
begin

text \<open>
  \<^bold>\<open>A verification library for artoo.\<close> artoo is a control plane for AI agents: a server keeps
  organizations, projects, goals, tasks, runs and their approvals in a relational database and
  an append-only event log; nodes on people's computers run the agents; clients follow the log.
  The library models its own logic, the TypeScript under \<open>packages/\<close> and \<open>apps/server/\<close>, from
  the source, and proves what makes each part correct.

  \<^bold>\<open>Pure rules\<close> (\<open>packages/domain/src\<close>).
  \<^item> \<open>Task_State\<close>: \<open>state.ts\<close>, the task, run and approval lifecycles as transition tables.
    Every non-terminal status can still be completed or cancelled, terminal statuses are final.
  \<^item> \<open>Goal_State\<close>: \<open>goal.ts\<close>, goal and plan lifecycles, the goal status derived from children.
  \<^item> \<open>Dag\<close>: \<open>dag.ts\<close>, the gates of dependencies and the search \<open>wouldCreateCycle\<close>, exact with
    respect to reachability.
  \<^item> \<open>Lease_Path\<close>: \<open>lease.ts\<close>, the normal form of a leased path and the conflict rule.
  \<^item> \<open>Goal_Control\<close>: \<open>budget.ts\<close> and \<open>resume.ts\<close>. \<open>Memory_State\<close>: \<open>memory.ts\<close>,
    \<open>capabilities.ts\<close>. \<open>Skill\<close>: \<open>skill.ts\<close>. \<open>Presence\<close>: \<open>device.ts\<close>, \<open>presence.ts\<close>,
    \<open>runtime.ts\<close> and \<open>collaboration.ts\<close>.
  \<open>Status_Machine\<close> is the interface the lifecycle tables share, a locale interpreted at each of
  them.

  \<^bold>\<open>The server\<close> (\<open>apps/server/src\<close>, \<open>packages/db/src\<close>). A service is a value of the monad of
  \<open>Server_Monad\<close>: a function of the world that returns an error or a result with the new world;
  the Hoare rules there (\<open>triple\<close>, \<open>keeps\<close>) carry the proofs. \<open>Tables\<close> has identifiers, errors,
  the rows of the tables and the world: the database, a clock and an id supply.
  \<open>Database\<close> has the transaction, selects, updates, inserts with the keys they can violate, the
  event log and \<open>runIdempotent\<close>. On these stand
  \<^item> \<open>Transition_Service\<close>: the compare-and-set update every status change goes through,
  \<^item> \<open>Lease_Service\<close>: file leases; in every reachable database held leases exclude each other,
  \<^item> \<open>Dag_Service\<close>: dependencies, which stay acyclic; what a completion unlocks, exactly.
  \<open>Inserts\<close> has the inserts of the remaining tables with their constraints, and the frame rules
  (what an operation leaves alone, what only reads). On it stand
  \<^item> \<open>Execution_State\<close>: the runs whose process may still be alive,
  \<^item> \<open>Collaboration_Service\<close>: decisions, handoffs and blockers of a discussion,
  \<^item> \<open>Checkpoint_Service\<close> and \<open>Budget_Service\<close>: the checkpoints of a goal, and the pause of a
    goal whose budget is used up, exactly when it is,
  \<^item> \<open>Goal_Service\<close>: goals, their transitions, and the cancellation that first stops every
    process of the goal.
  \<^item> \<open>Plan_Service\<close>: the versions of a goal's plan and the tasks an accepted plan becomes; a goal
    has at most one accepted plan, and what a proposal's validation accepts can be materialized.
    \<open>Js_Number\<close> reads and prints the numbers by which specs refer to each other.
  \<open>Evolution\<close> has orders on databases that every step respects, as a locale; with it
  \<^item> \<open>Approval_Service\<close>: the approvals of running tasks and the gate of an execution: at most one
    is current, an older one can never be resolved, and one approval admits one start.

  \<^item> \<open>Execution_Policy\<close>: the task whose policy governs a follow-up; the search for it always ends,
  \<^item> \<open>Lifecycle_Service\<close>: a task becomes ready, is reviewed and is retried under the rules of its
    goal, with the versions of \<open>sync-service.ts\<close> that refuse a client which has fallen behind.

  \<open>Lifecycle_Order\<close> is the order that says rows are not lost, the stored statuses of tasks and
  runs only move along the state machines, and the event log only grows. \<open>Control_Plane\<close> puts the
  services together: every call of every operation above, in any order, keeps the database
  well-typed, loses nothing of its history, and is a step of a small abstract server.

  \<^bold>\<open>Around the server.\<close> \<open>Supervisor\<close>: the node supervisor of \<open>packages/node-supervisor\<close>, its
  timers and child callbacks as steps. \<open>Client_Sync\<close> and \<open>Command_Queue\<close>: the client's recovery
  of the event stream and its offline queue (\<open>packages/client\<close>). \<open>Kv_Store\<close>: the in-memory
  key-value store (\<open>packages/storage\<close>). \<open>Workspace\<close>: where an agent may work
  (\<open>packages/protocol\<close>, and the blob store's key check).

  \<^bold>\<open>How the code is rendered.\<close> Interfaces and rows are records, enums are datatypes, \<open>number\<close>
  values are integers where the code uses them as such, strings are lists of code units below
  256, \<open>null\<close> and \<open>undefined\<close> of an optional field are \<open>None\<close>. A table is the list of its rows
  in the order of insertion and a select keeps that order. A thrown error is a value; an
  \<open>await\<close> inside a transaction is no scheduling point, since transactions are serialized; where
  code outside transactions awaits (queue, supervisor, client) each await ends a step. Loops
  are recursive functions with a termination proof; no fuel is used.
  \<open>Date.parse\<close>, \<open>localeCompare\<close>, the clock, the id generator and PostgreSQL's rendering
  of time stamps are parameters of the definitions that use them.

  \<^bold>\<open>Not modelled.\<close> The run and task services and the scheduler, and with it \<open>assignTask\<close>, which
  rank agents and computers whose tables are not modelled. The HTTP and WebSocket layers, the node daemon \<open>apps/artood\<close>, the web, desktop and iOS
  front ends, migrations and scripts are I/O and glue around this logic.
\<close>

end
